(* ===== verification/Py_Base.thy ===== *)
theory Py_Base
  imports
    Complex_Main
    "HOL-Library.Char_ord"
    "HOL-Library.List_Lexorder"
    "HOL-Library.Product_Lexorder"
begin

text \<open>
  The prelude of the development: the Python values, strings, dictionaries and error results the
  repository's scripts are written with, and the generic lemmas about them.

  \<^item> A Python string is a \<open>string\<close>: a list of code points up to U+00FF (Latin-1). Its order is the
    lexicographic order by code point, as Python's.
  \<^item> A JSON document is a \<open>json\<close>. A \<open>dict\<close> keeps its insertion order, so it is an association list;
    \<open>dict_get\<close>, \<open>dict_set\<close> and \<open>dict_keys\<close> are its operations, and the locale \<open>dict_ops\<close> is
    the contract the components use. A float carries its value and the text \<open>repr\<close> prints for it.
  \<^item> \<open>py_eq\<close> is Python's \<open>==\<close> on JSON values: booleans are the integers 0 and 1, an integer equals
    a float of the same value, and dictionaries are compared as maps.
  \<^item> A raising function returns a sum, with the exception on the left, and \<open>bindE\<close> is sequencing.
\<close>

named_theorems py_defs \<open>definitions of the Python runtime model\<close>

subsection \<open>Results that may raise\<close>

definition bindE :: "'e + 'a \<Rightarrow> ('a \<Rightarrow> 'e + 'b) \<Rightarrow> 'e + 'b" where
  "bindE m f = (case m of Inl e \<Rightarrow> Inl e | Inr x \<Rightarrow> f x)"

definition guardE :: "bool \<Rightarrow> 'e \<Rightarrow> 'e + unit" where
  "guardE b e = (if b then Inr () else Inl e)"

fun mapE :: "('a \<Rightarrow> 'e + 'b) \<Rightarrow> 'a list \<Rightarrow> 'e + 'b list" where
  "mapE f [] = Inr []"
| "mapE f (x # xs) = bindE (f x) (\<lambda>y. bindE (mapE f xs) (\<lambda>ys. Inr (y # ys)))"

fun iterE :: "('a \<Rightarrow> 'e + unit) \<Rightarrow> 'a list \<Rightarrow> 'e + unit" where
  "iterE f [] = Inr ()"
| "iterE f (x # xs) = bindE (f x) (\<lambda>_. iterE f xs)"

lemma bindE_simps [simp]: "bindE (Inl e) f = Inl e" "bindE (Inr x) f = f x"
  by (simp_all add: bindE_def)

lemma bindE_Inr_iff: "bindE m f = Inr y \<longleftrightarrow> (\<exists>x. m = Inr x \<and> f x = Inr y)"
  by (cases m) auto

lemma bindE_Inl_iff: "bindE m f = Inl e \<longleftrightarrow> m = Inl e \<or> (\<exists>x. m = Inr x \<and> f x = Inl e)"
  by (cases m) auto

lemma bindE_cong [fundef_cong]:
  "m = m' \<Longrightarrow> (\<And>x. m' = Inr x \<Longrightarrow> f x = g x) \<Longrightarrow> bindE m f = bindE m' g"
  by (cases m') auto

lemma guardE_Inr_iff [simp]: "guardE b e = Inr u \<longleftrightarrow> b"
  by (simp add: guardE_def)

lemma guardE_Inl_iff [simp]: "guardE b e = Inl e' \<longleftrightarrow> \<not> b \<and> e' = e"
  by (auto simp: guardE_def)

lemma mapE_cong [fundef_cong]:
  "xs = ys \<Longrightarrow> (\<And>x. x \<in> set ys \<Longrightarrow> f x = g x) \<Longrightarrow> mapE f xs = mapE g ys"
proof (induction ys arbitrary: xs)
  case (Cons y ys)
  then have "mapE f ys = mapE g ys" by simp
  with Cons.prems show ?case by simp
qed simp

lemma iterE_cong [fundef_cong]:
  "xs = ys \<Longrightarrow> (\<And>x. x \<in> set ys \<Longrightarrow> f x = g x) \<Longrightarrow> iterE f xs = iterE g ys"
proof (induction ys arbitrary: xs)
  case (Cons y ys)
  then have "iterE f ys = iterE g ys" by simp
  with Cons.prems show ?case by simp
qed simp

lemma iterE_Inr_iff: "iterE f xs = Inr u \<longleftrightarrow> (\<forall>x \<in> set xs. f x = Inr ())"
  by (induction xs) (auto simp: bindE_Inr_iff)

lemma iterE_Inl: "iterE f xs = Inl e \<Longrightarrow> \<exists>x \<in> set xs. f x = Inl e"
  by (induction xs) (auto simp: bindE_Inl_iff)

lemma mapE_length: "mapE f xs = Inr ys \<Longrightarrow> length ys = length xs"
  by (induction xs arbitrary: ys) (auto simp: bindE_Inr_iff)

lemma mapE_nth: "mapE f xs = Inr ys \<Longrightarrow> i < length xs \<Longrightarrow> f (xs ! i) = Inr (ys ! i)"
proof (induction xs arbitrary: ys i)
  case (Cons x xs)
  then show ?case by (cases i) (auto simp: bindE_Inr_iff)
qed simp

lemma mapE_Inl: "mapE f xs = Inl e \<Longrightarrow> \<exists>x \<in> set xs. f x = Inl e"
  by (induction xs) (auto simp: bindE_Inl_iff)

lemma mapE_inverse:
  assumes "\<And>v s. f v = Inr s \<longleftrightarrow> v = h s \<and> P s"
  shows "mapE f vs = Inr ys \<longleftrightarrow> vs = map h ys \<and> (\<forall>y \<in> set ys. P y)"
proof (induction vs arbitrary: ys)
  case (Cons v vs)
  then show ?case by (cases ys) (auto simp: bindE_Inr_iff assms)
qed auto

text \<open>Sequencing of calls that change a state and may raise.\<close>

definition bindSE :: "('s \<Rightarrow> ('e + 'a) \<times> 's) \<Rightarrow> ('a \<Rightarrow> 's \<Rightarrow> ('e + 'b) \<times> 's) \<Rightarrow> 's \<Rightarrow> ('e + 'b) \<times> 's" where
  "bindSE m f s = (case m s of (Inl e, s') \<Rightarrow> (Inl e, s') | (Inr x, s') \<Rightarrow> f x s')"

lemma bindSE_Inr:
  "bindSE m f s = (Inr y, s'') \<longleftrightarrow> (\<exists>x s'. m s = (Inr x, s') \<and> f x s' = (Inr y, s''))"
  by (auto simp: bindSE_def split: prod.splits sum.splits)

subsection \<open>Strings\<close>

definition is_ws :: "char \<Rightarrow> bool" where
  "is_ws c = (let n = of_char c :: nat in
     (9 \<le> n \<and> n \<le> 13) \<or> (28 \<le> n \<and> n \<le> 32) \<or> n = 133 \<or> n = 160)"

definition is_digit :: "char \<Rightarrow> bool" where
  "is_digit c = (let n = of_char c :: nat in 48 \<le> n \<and> n \<le> 57)"

definition is_lower_hex :: "char \<Rightarrow> bool" where
  "is_lower_hex c = (let n = of_char c :: nat in (48 \<le> n \<and> n \<le> 57) \<or> (97 \<le> n \<and> n \<le> 102))"

definition starts_with :: "string \<Rightarrow> string \<Rightarrow> bool" where
  "starts_with p s = (take (length p) s = p)"

definition ends_with :: "string \<Rightarrow> string \<Rightarrow> bool" where
  "ends_with p s = (length p \<le> length s \<and> drop (length s - length p) s = p)"

fun contains :: "string \<Rightarrow> string \<Rightarrow> bool" where
  "contains p [] = (p = [])"
| "contains p (x # xs) = (starts_with p (x # xs) \<or> contains p xs)"

definition lstrip :: "string \<Rightarrow> string" where
  "lstrip s = dropWhile is_ws s"

definition rstrip_by :: "(char \<Rightarrow> bool) \<Rightarrow> string \<Rightarrow> string" where
  "rstrip_by p s = rev (dropWhile p (rev s))"

definition strip :: "string \<Rightarrow> string" where
  "strip s = rstrip_by is_ws (lstrip s)"

fun split_on :: "char \<Rightarrow> string \<Rightarrow> string list" where
  "split_on c [] = [[]]"
| "split_on c (x # xs) =
     (if x = c then [] # split_on c xs
      else (case split_on c xs of [] \<Rightarrow> [[x]] | y # ys \<Rightarrow> (x # y) # ys))"

fun split_ws_acc :: "string \<Rightarrow> string \<Rightarrow> string list" where
  "split_ws_acc w [] = (if w = [] then [] else [w])"
| "split_ws_acc w (x # xs) =
     (if is_ws x then (if w = [] then split_ws_acc [] xs else w # split_ws_acc [] xs)
      else split_ws_acc (w @ [x]) xs)"

definition split_ws :: "string \<Rightarrow> string list" where
  "split_ws s = split_ws_acc [] s"

definition is_line_break :: "char \<Rightarrow> bool" where
  "is_line_break c = (let n = of_char c :: nat in
     (10 \<le> n \<and> n \<le> 13) \<or> (28 \<le> n \<and> n \<le> 30) \<or> n = 133)"

fun splitlines_acc :: "string \<Rightarrow> string \<Rightarrow> string list" where
  "splitlines_acc w [] = (if w = [] then [] else [w])"
| "splitlines_acc w [x] = (if is_line_break x then [w] else [w @ [x]])"
| "splitlines_acc w (x # y # xs) =
     (if is_line_break x
      then (if x = CHR 0x0D \<and> y = CHR 0x0A then w # splitlines_acc [] xs
            else w # splitlines_acc [] (y # xs))
      else splitlines_acc (w @ [x]) (y # xs))"

definition splitlines :: "string \<Rightarrow> string list" where
  "splitlines s = splitlines_acc [] s"

fun join :: "string \<Rightarrow> string list \<Rightarrow> string" where
  "join sep [] = []"
| "join sep [x] = x"
| "join sep (x # y # xs) = x @ sep @ join sep (y # xs)"

text \<open>\<open>str.replace\<close> for a non-empty pattern: left to right, without overlaps.\<close>

function replace_all :: "string \<Rightarrow> string \<Rightarrow> string \<Rightarrow> string" where
  "replace_all old new s =
     (case s of [] \<Rightarrow> []
      | x # xs \<Rightarrow> if old \<noteq> [] \<and> starts_with old s
                  then new @ replace_all old new (drop (length old) s)
                  else x # replace_all old new xs)"
  by pat_completeness auto
termination by (relation "measure (\<lambda>(_, _, s). length s)") auto

declare replace_all.simps [simp del]

definition lower_char :: "char \<Rightarrow> char" where
  "lower_char c = (let n = of_char c :: nat in
     if (65 \<le> n \<and> n \<le> 90) \<or> (192 \<le> n \<and> n \<le> 222 \<and> n \<noteq> 215) then char_of (n + 32) else c)"

definition lower :: "string \<Rightarrow> string" where
  "lower s = map lower_char s"

text \<open>\<open>str.casefold\<close>: as \<open>lower\<close>, but sharp s becomes ss.\<close>

definition casefold :: "string \<Rightarrow> string" where
  "casefold s = concat (map (\<lambda>c. if c = CHR 0xDF then ''ss'' else [lower_char c]) s)"

fun digits_nat :: "nat \<Rightarrow> string" where
  "digits_nat n = (if n < 10 then [char_of (48 + n)] else digits_nat (n div 10) @ [char_of (48 + n mod 10)])"

declare digits_nat.simps [simp del]

definition str_nat :: "nat \<Rightarrow> string" where
  "str_nat n = digits_nat n"

definition str_int :: "int \<Rightarrow> string" where
  "str_int i = (if i < 0 then ''-'' @ digits_nat (nat (- i)) else digits_nat (nat i))"

lemma starts_with_iff: "starts_with p s \<longleftrightarrow> (\<exists>t. s = p @ t)"
  unfolding starts_with_def by (metis append_eq_conv_conj append_take_drop_id)

lemma starts_with_Nil [simp]: "starts_with [] s"
  by (simp add: starts_with_def)

lemma starts_with_refl [simp]: "starts_with s s"
  by (simp add: starts_with_def)

lemma ends_with_iff: "ends_with p s \<longleftrightarrow> (\<exists>t. s = t @ p)"
  unfolding ends_with_def
  by (metis append_take_drop_id append_eq_conv_conj diff_add_inverse2 le_add2 length_append)

lemma contains_iff: "contains p s \<longleftrightarrow> (\<exists>a b. s = a @ p @ b)"
proof (induction s)
  case Nil
  then show ?case by auto
next
  case (Cons x xs)
  note IH = Cons.IH
  show ?case
  proof
    assume "contains p (x # xs)"
    then consider t where "x # xs = [] @ p @ t" | a b where "x # xs = (x # a) @ p @ b"
      using Cons.IH by (auto simp: starts_with_iff)
    then show "\<exists>a b. x # xs = a @ p @ b" by cases blast+
  next
    assume "\<exists>a b. x # xs = a @ p @ b"
    then obtain a b where ab: "x # xs = a @ p @ b" by blast
    show "contains p (x # xs)"
    proof (cases a)
      case Nil
      with ab have "starts_with p (x # xs)" by (auto simp: starts_with_iff)
      then show ?thesis by simp
    next
      case (Cons y a')
      with ab have "xs = a' @ p @ b" by simp
      then show ?thesis using IH by auto
    qed
  qed
qed

lemma split_on_not_Nil [simp]: "split_on c s \<noteq> []"
  by (induction s) (auto split: list.splits)

lemma split_on_no_sep: "w \<in> set (split_on c s) \<Longrightarrow> c \<notin> set w"
proof (induction s arbitrary: w)
  case (Cons x xs)
  then show ?case by (auto split: if_splits list.splits)
qed simp

lemma join_Cons: "join sep ((x # w) # ws) = x # join sep (w # ws)"
  by (cases ws) simp_all

lemma join_Nil_Cons: "ws \<noteq> [] \<Longrightarrow> join sep ([] # ws) = sep @ join sep ws"
  by (cases ws) simp_all

lemma join_split_on: "join [c] (split_on c s) = s"
proof (induction s)
  case (Cons x xs)
  then show ?case
    by (cases "split_on c xs") (auto simp: join_Cons join_Nil_Cons)
qed simp

text \<open>Decimal numerals determine their number.\<close>

fun undigits :: "nat \<Rightarrow> string \<Rightarrow> nat" where
  "undigits n [] = n" | "undigits n (c # cs) = undigits (10 * n + (of_char c - 48)) cs"

lemma undigits_append: "undigits n (a @ b) = undigits (undigits n a) b"
  by (induction a arbitrary: n) auto

lemma undigits_digits: "undigits 0 (digits_nat n) = n"
proof (induction n rule: digits_nat.induct)
  case (1 n)
  then show ?case by (subst digits_nat.simps) (simp add: undigits_append)
qed

lemma digits_nat_digits: "c \<in> set (digits_nat n) \<Longrightarrow> is_digit c"
proof (induction n rule: digits_nat.induct)
  case (1 n)
  then show ?case by (subst (asm) (2) digits_nat.simps) (auto simp: is_digit_def Let_def split: if_splits)
qed

lemma str_int_inj: "str_int i = str_int j \<longleftrightarrow> i = j"
proof
  assume eq: "str_int i = str_int j"
  have minus: "CHR ''-'' \<in> set (str_int k) \<longleftrightarrow> k < 0" for k
    using digits_nat_digits [of "CHR ''-''"] by (auto simp: str_int_def is_digit_def)
  have "nat \<bar>k\<bar> = undigits 0 (if k < 0 then tl (str_int k) else str_int k)" for k
    by (simp add: str_int_def undigits_digits)
  with eq minus have "nat \<bar>i\<bar> = nat \<bar>j\<bar>" and "i < 0 \<longleftrightarrow> j < 0" by metis+
  then show "i = j" by linarith
qed simp

subsection \<open>Values\<close>

datatype fnum = Fin rat | PosInf | NegInf | NaN

datatype json =
    JNull
  | JBool bool
  | JInt int
  | JFloat fnum string
  | JStr string
  | JList "json list"
  | JDict "(string \<times> json) list"

type_synonym dict = "(string \<times> json) list"

fun is_dict :: "json \<Rightarrow> bool" where
  "is_dict (JDict _) = True" | "is_dict _ = False"

fun is_list :: "json \<Rightarrow> bool" where
  "is_list (JList _) = True" | "is_list _ = False"

fun is_str :: "json \<Rightarrow> bool" where
  "is_str (JStr _) = True" | "is_str _ = False"

fun is_bool :: "json \<Rightarrow> bool" where
  "is_bool (JBool _) = True" | "is_bool _ = False"

text \<open>\<open>isinstance(x, int)\<close> holds of booleans too.\<close>

fun is_int :: "json \<Rightarrow> bool" where
  "is_int (JInt _) = True" | "is_int (JBool _) = True" | "is_int _ = False"

fun is_float :: "json \<Rightarrow> bool" where
  "is_float (JFloat _ _) = True" | "is_float _ = False"

text \<open>Truth value of an object, as \<open>if x\<close> and \<open>x or y\<close> take it.\<close>

fun truthy :: "json \<Rightarrow> bool" where
  "truthy JNull = False"
| "truthy (JBool b) = b"
| "truthy (JInt i) = (i \<noteq> 0)"
| "truthy (JFloat f _) = (f \<noteq> Fin 0)"
| "truthy (JStr s) = (s \<noteq> [])"
| "truthy (JList xs) = (xs \<noteq> [])"
| "truthy (JDict d) = (d \<noteq> [])"

subsection \<open>Dictionaries\<close>

definition dict_get :: "(string \<times> 'v) list \<Rightarrow> string \<Rightarrow> 'v option" where
  "dict_get d k = map_of d k"

definition dict_keys :: "(string \<times> 'v) list \<Rightarrow> string list" where
  "dict_keys d = map fst d"

fun dict_set :: "(string \<times> 'v) list \<Rightarrow> string \<Rightarrow> 'v \<Rightarrow> (string \<times> 'v) list" where
  "dict_set [] k v = [(k, v)]"
| "dict_set ((k', v') # d) k v = (if k' = k then (k', v) # d else (k', v') # dict_set d k v)"

text \<open>\<open>d.get(k)\<close>, with None for a missing key.\<close>

definition jget :: "dict \<Rightarrow> string \<Rightarrow> json" where
  "jget d k = (case dict_get d k of Some v \<Rightarrow> v | None \<Rightarrow> JNull)"

text \<open>\<open>x.get(k)\<close> of the dictionary \<open>x\<close>, and \<open>{}\<close> for what is not a dictionary.\<close>

fun as_dict :: "json \<Rightarrow> dict" where
  "as_dict (JDict d) = d" | "as_dict _ = []"

locale dict_ops =
  fixes get :: "'d \<Rightarrow> 'k \<Rightarrow> 'v option"
    and upd :: "'d \<Rightarrow> 'k \<Rightarrow> 'v \<Rightarrow> 'd"
    and keys :: "'d \<Rightarrow> 'k list"
    and inv :: "'d \<Rightarrow> bool"
  assumes get_upd: "get (upd d k v) k' = (if k' = k then Some v else get d k')"
    and get_None_iff: "get d k = None \<longleftrightarrow> k \<notin> set (keys d)"
    and inv_distinct: "inv d \<Longrightarrow> distinct (keys d)"
    and inv_upd: "inv d \<Longrightarrow> inv (upd d k v)"
begin

lemma get_upd_same [simp]: "get (upd d k v) k = Some v"
  by (simp add: get_upd)

lemma get_upd_other: "k' \<noteq> k \<Longrightarrow> get (upd d k v) k' = get d k'"
  by (simp add: get_upd)

lemma get_Some_key: "get d k = Some v \<Longrightarrow> k \<in> set (keys d)"
  using get_None_iff [of d k] by auto

lemma keys_upd: "set (keys (upd d k v)) = insert k (set (keys d))"
proof -
  have "k' \<in> set (keys (upd d k v)) \<longleftrightarrow> k' \<in> insert k (set (keys d))" for k'
    using get_None_iff [of "upd d k v" k'] get_None_iff [of d k'] by (auto simp: get_upd split: if_splits)
  then show ?thesis by blast
qed

lemma fold_upd_get:
  "get (fold (\<lambda>(k, v) d. upd d k v) kvs d) k' =
     (case map_of (rev kvs) k' of Some v \<Rightarrow> Some v | None \<Rightarrow> get d k')"
  by (induction kvs arbitrary: d)
    (auto simp: get_upd map_add_def split: option.splits)

lemma fold_upd_inv: "inv d \<Longrightarrow> inv (fold (\<lambda>(k, v) d. upd d k v) kvs d)"
  by (induction kvs arbitrary: d) (auto simp: inv_upd)

end

lemma dict_set_get: "dict_get (dict_set d k v) k' = (if k' = k then Some v else dict_get d k')"
  by (induction d k v rule: dict_set.induct) (auto simp: dict_get_def)

lemma dict_set_keys: "set (dict_keys (dict_set d k v)) = insert k (set (dict_keys d))"
  by (induction d k v rule: dict_set.induct) (auto simp: dict_keys_def)

lemma dict_set_fresh: "k \<notin> set (dict_keys d) \<Longrightarrow> dict_set d k v = d @ [(k, v)]"
  by (induction d k v rule: dict_set.induct) (auto simp: dict_keys_def)

lemma dict_set_last: "k \<notin> set (dict_keys d) \<Longrightarrow> dict_set (d @ [(k, v)]) k w = d @ [(k, w)]"
  by (induction d) (auto simp: dict_keys_def)

lemma dict_get_last: "k \<notin> set (dict_keys d) \<Longrightarrow> dict_get (d @ [(k, v)]) k = Some v"
  by (induction d) (auto simp: dict_keys_def dict_get_def)

lemma dict_set_distinct: "distinct (dict_keys d) \<Longrightarrow> distinct (dict_keys (dict_set d k v))"
proof (induction d k v rule: dict_set.induct)
  case (2 k' v' d k v)
  have "set (map fst (dict_set d k v)) = insert k (set (map fst d))"
    using dict_set_keys [of d k v] by (simp add: dict_keys_def)
  with 2 show ?case by (auto simp: dict_keys_def)
qed (simp add: dict_keys_def)

interpretation py_dict: dict_ops dict_get dict_set dict_keys "\<lambda>d. distinct (dict_keys d)"
  by unfold_locales
    (auto simp: dict_set_get dict_set_distinct, auto simp: dict_get_def dict_keys_def map_of_eq_None_iff)

subsection \<open>Equality, text and order of values\<close>

fun num_of :: "json \<Rightarrow> fnum option" where
  "num_of (JBool b) = Some (Fin (if b then 1 else 0))"
| "num_of (JInt i) = Some (Fin (of_int i))"
| "num_of (JFloat f _) = Some f"
| "num_of _ = None"

lemma zip_size [termination_simp]: "(a, b) \<in> set (zip xs ys) \<Longrightarrow> size a < Suc (size_list size xs)"
  by (meson less_SucI set_zip_leftD size_list_estimation' le_imp_less_Suc order_refl)

fun py_eq :: "json \<Rightarrow> json \<Rightarrow> bool" where
  "py_eq JNull y = (y = JNull)"
| "py_eq (JStr s) y = (y = JStr s)"
| "py_eq (JList xs) y =
     (case y of JList ys \<Rightarrow> length xs = length ys \<and> list_all (\<lambda>(a, b). py_eq a b) (zip xs ys)
      | _ \<Rightarrow> False)"
| "py_eq (JDict d) y =
     (case y of JDict e \<Rightarrow> length d = length e \<and>
         list_all (\<lambda>(k, v). case dict_get e k of None \<Rightarrow> False | Some w \<Rightarrow> py_eq v w) d
      | _ \<Rightarrow> False)"
| "py_eq x y = (num_of x \<noteq> Some NaN \<and> num_of x = num_of y)"

definition py_in :: "json \<Rightarrow> json list \<Rightarrow> bool" where
  "py_in x ys = list_ex (py_eq x) ys"

text \<open>\<open>type(v).__name__\<close>.\<close>

definition type_name :: "json \<Rightarrow> string" where
  "type_name v = (case v of JNull \<Rightarrow> ''NoneType'' | JBool _ \<Rightarrow> ''bool'' | JInt _ \<Rightarrow> ''int'' | JFloat _ _ \<Rightarrow> ''float''
     | JStr _ \<Rightarrow> ''str'' | JList _ \<Rightarrow> ''list'' | JDict _ \<Rightarrow> ''dict'')"

definition hex_digit :: "nat \<Rightarrow> char" where
  "hex_digit n = (if n < 10 then char_of (48 + n) else char_of (87 + n))"

text \<open>\<open>repr\<close> of a string: single quotes unless the text has a single and no double quote.\<close>

definition repr_char :: "char \<Rightarrow> char \<Rightarrow> string" where
  "repr_char q c = (let n = of_char c :: nat in
     if c = q \<or> n = 92 then [CHR 0x5C, c]
     else if n = 10 then [CHR 0x5C, CHR ''n'']
     else if n = 13 then [CHR 0x5C, CHR ''r'']
     else if n = 9 then [CHR 0x5C, CHR ''t'']
     else if n < 32 \<or> (127 \<le> n \<and> n \<le> 160) \<or> n = 173
       then [CHR 0x5C, CHR ''x'', hex_digit (n div 16), hex_digit (n mod 16)]
     else [c])"

definition repr_str :: "string \<Rightarrow> string" where
  "repr_str s =
     (let q = (if CHR 0x27 \<in> set s \<and> CHR 0x22 \<notin> set s then CHR 0x22 else CHR 0x27)
      in [q] @ concat (map (repr_char q) s) @ [q])"

fun py_repr :: "json \<Rightarrow> string" where
  "py_repr JNull = ''None''"
| "py_repr (JBool b) = (if b then ''True'' else ''False'')"
| "py_repr (JInt i) = str_int i"
| "py_repr (JFloat _ t) = t"
| "py_repr (JStr s) = repr_str s"
| "py_repr (JList xs) = ''['' @ join '', '' (map py_repr xs) @ '']''"
| "py_repr (JDict d) = ''{'' @ join '', '' (map (\<lambda>(k, v). repr_str k @ '': '' @ py_repr v) d) @ ''}''"

fun py_str :: "json \<Rightarrow> string" where
  "py_str (JStr s) = s"
| "py_str x = py_repr x"

lemma py_eq_JStr [simp]: "py_eq x (JStr s) \<longleftrightarrow> x = JStr s"
  by (cases x) auto

lemma py_eq_JNull [simp]: "py_eq x JNull \<longleftrightarrow> x = JNull"
  by (cases x) auto

lemma py_in_JStr: "py_in (JStr s) ys \<longleftrightarrow> JStr s \<in> set ys"
  by (induction ys) (auto simp: py_in_def)

lemma as_dict_jget_missing [simp]: "jget [] k = JNull"
  by (simp add: jget_def dict_get_def)

lemmas [py_defs] = jget_def dict_get_def dict_keys_def py_in_def starts_with_def

end
