(* ===== verification/Release_Verify.thy ===== *)
theory Release_Verify
  imports Py_Base
begin

text \<open>
  \<open>src/scripts/ops/verify_public_release_commit.py\<close>: is the expected commit live on the public
  frontend and API?  \<open>parse_artifact_tree\<close> checks the declared artifact tree, \<open>fetch_endpoint\<close> turns
  one HTTP exchange into an \<open>endpoint_result\<close>, and \<open>evaluate\<close> compares two endpoint results with
  the expected commit.

  The fields of an endpoint that the live-state classifier reads back from a stored receipt can hold
  any JSON value, so \<open>status\<close>, \<open>commit\<close>, \<open>version\<close> and \<open>error\<close> are JSON values here.  The HTTP
  exchange (urllib) is the argument of type \<open>http_outcome\<close>; the JSON decoder is the argument \<open>decode\<close>,
  which keeps the pairs of an object as written, duplicates included, since the code's own
  \<open>object_pairs_hook\<close> rejects them.
\<close>

definition is_commit_str :: "string \<Rightarrow> bool" where
  "is_commit_str s = (length s = 40 \<and> list_all is_lower_hex s)"

definition is_sha256_str :: "string \<Rightarrow> bool" where
  "is_sha256_str s = (length s = 64 \<and> list_all is_lower_hex s)"

definition MAX_SAFE_INTEGER :: int where
  "MAX_SAFE_INTEGER = 2 ^ 53 - 1"

definition UNATTESTED_PROVENANCE :: string where
  "UNATTESTED_PROVENANCE = ''unattested''"

definition ARTIFACT_TREE_KEYS :: "string list" where
  "ARTIFACT_TREE_KEYS = [''schema_version'', ''sha256'', ''file_count'', ''compile_revision'', ''provenance'']"

text \<open>\<open>_strict_object_pairs\<close> and \<open>_reject_nonfinite_constant\<close>, run on every object and constant.\<close>

datatype strict_json_error = DuplicateKey string | NonFinite string

fun strict_object_pairs :: "dict \<Rightarrow> dict \<Rightarrow> strict_json_error + dict" where
  "strict_object_pairs acc [] = Inr acc"
| "strict_object_pairs acc ((k, v) # kvs) =
     (if k \<in> set (dict_keys acc) then Inl (DuplicateKey k)
      else strict_object_pairs (dict_set acc k v) kvs)"

fun strict_json :: "json \<Rightarrow> strict_json_error + json" where
  "strict_json (JFloat f t) = (case f of Fin _ \<Rightarrow> Inr (JFloat f t) | _ \<Rightarrow> Inl (NonFinite t))"
| "strict_json (JList xs) = bindE (mapE strict_json xs) (\<lambda>ys. Inr (JList ys))"
| "strict_json (JDict d) =
     bindE (mapE (\<lambda>(k, v). bindE (strict_json v) (\<lambda>w. Inr (k, w))) d)
       (\<lambda>d'. bindE (strict_object_pairs [] d') (\<lambda>e. Inr (JDict e)))"
| "strict_json x = Inr x"

record artifact_tree_result =
  at_schema_version :: "int option"
  at_sha256 :: "string option"
  at_file_count :: "int option"
  at_compile_revision :: "string option"
  at_provenance :: "string option"
  at_error :: "string option"

record endpoint_result =
  er_url :: string
  er_status :: json
  er_commit :: json
  er_version :: json
  er_headers :: "(string \<times> string) list"
  er_error :: json
  er_artifact_tree :: "artifact_tree_result option"

record verification_result =
  vr_schema_version :: int
  vr_expected_commit :: string
  vr_verified_at :: string
  vr_pass :: bool
  vr_status :: string
  vr_pass_scope :: string
  vr_identity_verified :: bool
  vr_artifact_tree_declaration_verified :: bool
  vr_attestation_verified :: bool
  vr_provenance_status :: string
  vr_reasons :: "string list"
  vr_limitations :: "string list"
  vr_frontend :: endpoint_result
  vr_api :: endpoint_result

definition validate_commit :: "string \<Rightarrow> string + string" where
  "validate_commit value =
     (let candidate = strip value in
      if is_commit_str candidate then Inr candidate
      else Inl ''expected commit must be a full 40-character lowercase hexadecimal SHA'')"

definition normalize_headers :: "(string \<times> string) list \<Rightarrow> (string \<times> string) list" where
  "normalize_headers raw_items =
     fold (\<lambda>(key, value) normalized.
        let normalized_key = lower key in
        dict_set normalized normalized_key
          (case dict_get normalized normalized_key of
             Some existing \<Rightarrow> if existing \<noteq> [] then existing @ '', '' @ value else value
           | None \<Rightarrow> value))
       raw_items []"

text \<open>\<open>int(text)\<close>: surrounding white space, a sign, digits with single underscores between them.\<close>

fun int_digits :: "int \<Rightarrow> bool \<Rightarrow> string \<Rightarrow> int option" where
  "int_digits n ok [] = (if ok then Some n else None)"
| "int_digits n ok (c # cs) =
     (if is_digit c then int_digits (10 * n + (of_char c - 48)) True cs
      else if c = CHR ''_'' \<and> ok then int_digits n False cs
      else None)"

definition py_int :: "string \<Rightarrow> int option" where
  "py_int s = (case strip s of
      [] \<Rightarrow> None
    | c # cs \<Rightarrow> if c = CHR ''-'' then map_option uminus (int_digits 0 False cs)
                else if c = CHR ''+'' then int_digits 0 False cs
                else int_digits 0 False (c # cs))"

text \<open>\<open>body\<close> is what the connection would deliver; \<open>read(n)\<close> returns at most \<open>n\<close> bytes of it.\<close>

definition read_bounded :: "string option \<Rightarrow> string \<Rightarrow> nat \<Rightarrow> string + string" where
  "read_bounded content_length body max_response_bytes =
     bindE (case content_length of
         None \<Rightarrow> Inr ()
       | Some text \<Rightarrow>
           (case py_int text of
              None \<Rightarrow> Inl ''invalid Content-Length header''
            | Some declared \<Rightarrow>
                if declared < 0 \<or> declared > int max_response_bytes
                then Inl (''response exceeds byte limit: '' @ str_int declared @ '' > ''
                          @ str_nat max_response_bytes)
                else Inr ()))
       (\<lambda>_. let raw = take (max_response_bytes + 1) body in
         if length raw > max_response_bytes
         then Inl (''response exceeds byte limit: more than '' @ str_nat max_response_bytes @ '' bytes'')
         else Inr raw)"

definition sorted_diff :: "string list \<Rightarrow> string list \<Rightarrow> string list" where
  "sorted_diff xs ys = sort (remdups (filter (\<lambda>x. x \<notin> set ys) xs))"

definition parse_artifact_tree :: "dict \<Rightarrow> artifact_tree_result option" where
  "parse_artifact_tree payload =
     (case dict_get payload ''artifact_tree'' of
        None \<Rightarrow> None
      | Some (JDict raw) \<Rightarrow>
          (let missing_keys = sorted_diff ARTIFACT_TREE_KEYS (dict_keys raw);
               unknown_keys = sorted_diff (dict_keys raw) ARTIFACT_TREE_KEYS;
               schema_version = (case jget raw ''schema_version'' of JInt i \<Rightarrow> Some i | _ \<Rightarrow> None);
               sha256 = (case jget raw ''sha256'' of JStr s \<Rightarrow> Some s | _ \<Rightarrow> None);
               file_count = (case jget raw ''file_count'' of JInt i \<Rightarrow> Some i | _ \<Rightarrow> None);
               compile_revision = (case jget raw ''compile_revision'' of JStr s \<Rightarrow> Some s | _ \<Rightarrow> None);
               provenance = (case jget raw ''provenance'' of JStr s \<Rightarrow> Some s | _ \<Rightarrow> None);
               errors =
                 (if missing_keys \<noteq> [] then [''missing fields: '' @ join '', '' missing_keys] else [])
               @ (if unknown_keys \<noteq> [] then [''unknown fields: '' @ join '', '' unknown_keys] else [])
               @ (if schema_version \<noteq> Some 1 then [''schema_version must equal 1''] else [])
               @ (if \<not> (case sha256 of None \<Rightarrow> False | Some s \<Rightarrow> is_sha256_str s)
                  then [''sha256 must be a full lowercase SHA-256 digest''] else [])
               @ (if \<not> (case file_count of None \<Rightarrow> False | Some n \<Rightarrow> 1 \<le> n \<and> n \<le> MAX_SAFE_INTEGER)
                  then [''file_count must be a positive safe integer''] else [])
               @ (if \<not> (case compile_revision of None \<Rightarrow> False | Some s \<Rightarrow> is_commit_str s)
                  then [''compile_revision must be a full lowercase Git commit SHA''] else [])
               @ (if \<not> (case provenance of None \<Rightarrow> False | Some s \<Rightarrow> s \<noteq> [])
                  then [''provenance must be a non-empty string''] else [])
           in Some \<lparr>at_schema_version = schema_version, at_sha256 = sha256, at_file_count = file_count,
                    at_compile_revision = compile_revision, at_provenance = provenance,
                    at_error = (if errors \<noteq> [] then Some (join ''; '' errors) else None)\<rparr>)
      | Some _ \<Rightarrow> Some \<lparr>at_schema_version = None, at_sha256 = None, at_file_count = None,
                    at_compile_revision = None, at_provenance = None,
                    at_error = Some ''artifact_tree is not an object''\<rparr>)"

text \<open>One HTTP exchange: a response, an HTTP error status, or no answer at all.\<close>

datatype http_outcome =
    Response int "(string \<times> string) list" string "string option" string
      \<comment> \<open>status, raw headers, final URL, Content-Length, body\<close>
  | HTTPError int "(string \<times> string) list" string
  | URLError string

definition plain_endpoint :: "string \<Rightarrow> int \<Rightarrow> (string \<times> string) list \<Rightarrow> string \<Rightarrow> endpoint_result" where
  "plain_endpoint url status headers error =
     \<lparr>er_url = url, er_status = JInt status, er_commit = JNull, er_version = JNull,
      er_headers = headers, er_error = JStr error, er_artifact_tree = None\<rparr>"

fun strict_error_text :: "strict_json_error \<Rightarrow> string" where
  "strict_error_text (DuplicateKey k) = ''duplicate JSON key: '' @ k"
| "strict_error_text (NonFinite t) = ''non-finite JSON number: '' @ t"

definition str_or_none :: "json \<Rightarrow> json" where
  "str_or_none v = (if is_str v then v else JNull)"

definition endpoint_of_payload ::
  "string \<Rightarrow> int \<Rightarrow> (string \<times> string) list \<Rightarrow> json \<Rightarrow> endpoint_result" where
  "endpoint_of_payload url status headers payload =
     (case payload of
        JDict d \<Rightarrow>
          \<lparr>er_url = url, er_status = JInt status, er_commit = str_or_none (jget d ''commit''),
           er_version = str_or_none (jget d ''version''), er_headers = headers,
           er_error = JNull, er_artifact_tree = parse_artifact_tree d\<rparr>
      | _ \<Rightarrow> plain_endpoint url status headers ''JSON body is not an object'')"

definition fetch_endpoint ::
  "(string \<Rightarrow> string + json) \<Rightarrow> string \<Rightarrow> rat \<Rightarrow> int \<Rightarrow> http_outcome \<Rightarrow> string + endpoint_result" where
  "fetch_endpoint decode url timeout max_response_bytes outcome =
     (if timeout \<le> 0 then Inl ''timeout must be positive''
      else if max_response_bytes \<le> 0 then Inl ''max_response_bytes must be positive''
      else Inr (case outcome of
          URLError msg \<Rightarrow> plain_endpoint url 0 [] msg
        | HTTPError code headers reason \<Rightarrow> plain_endpoint url code (normalize_headers headers) reason
        | Response status raw_headers final_url content_length body \<Rightarrow>
            (let headers = normalize_headers raw_headers in
             if final_url \<noteq> url
             then plain_endpoint url status headers (''unexpected redirect target: '' @ final_url)
             else (case read_bounded content_length body (nat max_response_bytes) of
                 Inl msg \<Rightarrow> plain_endpoint url status headers msg
               | Inr raw \<Rightarrow>
                   (case decode raw of
                      Inl msg \<Rightarrow> plain_endpoint url status headers (''invalid JSON: '' @ msg)
                    | Inr tree \<Rightarrow>
                        (case strict_json tree of
                           Inl e \<Rightarrow> plain_endpoint url status headers
                                     (''invalid JSON: '' @ strict_error_text e)
                         | Inr payload \<Rightarrow> endpoint_of_payload url status headers payload))))))"

text \<open>\<open>evaluate\<close>: the reasons of one endpoint, in the order of the loop body.\<close>

definition endpoint_reasons :: "string \<Rightarrow> string \<Rightarrow> endpoint_result \<Rightarrow> string list" where
  "endpoint_reasons expected_commit name r =
     (let expected_short = take 8 expected_commit in
        (if truthy (er_error r) then [name @ '' readback failed: '' @ py_str (er_error r)] else [])
      @ (if \<not> py_eq (er_status r) (JInt 200)
         then [name @ '' returned HTTP '' @ py_str (er_status r) @ '', expected 200''] else [])
      @ (if \<not> py_eq (er_commit r) (JStr expected_commit)
         then [name @ '' commit mismatch: expected '' @ expected_commit @ '', got ''
               @ py_repr (er_commit r)] else [])
      @ (if \<not> py_eq (er_version r) (JStr expected_short) \<and> name = ''frontend''
         then [''frontend version mismatch: expected '' @ expected_short @ '', got ''
               @ py_repr (er_version r)] else []))"

definition repr_opt :: "string option \<Rightarrow> string" where
  "repr_opt v = (case v of None \<Rightarrow> ''None'' | Some s \<Rightarrow> repr_str s)"

definition header_reasons :: "string \<Rightarrow> endpoint_result \<Rightarrow> endpoint_result \<Rightarrow> string list" where
  "header_reasons expected_commit frontend api =
     (let expected_short = take 8 expected_commit;
          frontend_cache = lower (case dict_get (er_headers frontend) ''cache-control'' of
                                    None \<Rightarrow> [] | Some v \<Rightarrow> v);
          api_build = dict_get (er_headers api) ''x-weltgewebe-api-build'';
          edge_build = dict_get (er_headers api) ''x-weltgewebe-build''
      in (if \<not> contains ''no-store'' frontend_cache
          then [''frontend version readback is not served with Cache-Control: no-store''] else [])
       @ (if api_build \<noteq> Some expected_commit
          then [''API build header mismatch: expected '' @ expected_commit @ '', got '' @ repr_opt api_build]
          else [])
       @ (if edge_build \<noteq> Some expected_short
          then [''edge build header mismatch: expected '' @ expected_short @ '', got '' @ repr_opt edge_build]
          else []))"

definition or_else :: "string option \<Rightarrow> string \<Rightarrow> string" where
  "or_else v d = (case v of None \<Rightarrow> d | Some s \<Rightarrow> if s = [] then d else s)"

definition artifact_reasons :: "string \<Rightarrow> artifact_tree_result option \<Rightarrow> string list \<times> string" where
  "artifact_reasons expected_commit tree =
     (case tree of
        None \<Rightarrow> ([''frontend artifact_tree declaration is missing''], ''missing'')
      | Some t \<Rightarrow>
          (if (case at_error t of None \<Rightarrow> False | Some e \<Rightarrow> e \<noteq> [])
           then ([''frontend artifact_tree declaration is invalid: '' @ or_else (at_error t) []],
                 or_else (at_provenance t) ''invalid'')
           else ((if at_compile_revision t \<noteq> Some expected_commit
                  then [''frontend artifact_tree compile_revision mismatch: expected ''
                        @ expected_commit @ '', got '' @ repr_opt (at_compile_revision t)] else [])
               @ (if at_provenance t \<noteq> Some UNATTESTED_PROVENANCE
                  then [''frontend artifact_tree provenance is unsupported: expected ''
                        @ repr_str UNATTESTED_PROVENANCE
                        @ '' until an attestation verifier is implemented, got ''
                        @ repr_opt (at_provenance t)] else []),
                 or_else (at_provenance t) ''missing'')))"

definition evaluate :: "string \<Rightarrow> string \<Rightarrow> endpoint_result \<Rightarrow> endpoint_result \<Rightarrow> verification_result" where
  "evaluate verified_at expected_commit frontend api =
     (let identity_reasons =
            endpoint_reasons expected_commit ''frontend'' frontend
          @ endpoint_reasons expected_commit ''api'' api
          @ header_reasons expected_commit frontend api;
          (art_reasons, provenance_status) = artifact_reasons expected_commit (er_artifact_tree frontend);
          reasons = identity_reasons @ art_reasons;
          pass = (reasons = [])
      in \<lparr>vr_schema_version = 3,
          vr_expected_commit = expected_commit,
          vr_verified_at = verified_at,
          vr_pass = pass,
          vr_status = (if pass then ''consistency_pass_unattested'' else ''failed''),
          vr_pass_scope = (if pass then ''identity_and_declared_artifact_consistency'' else ''none''),
          vr_identity_verified = (identity_reasons = []),
          vr_artifact_tree_declaration_verified = (art_reasons = []),
          vr_attestation_verified = False,
          vr_provenance_status = provenance_status,
          vr_reasons = reasons,
          vr_limitations =
            (if pass then [''the public verifier does not reconstruct the deployed artifact tree'',
                           ''artifact provenance is explicitly unattested''] else []),
          vr_frontend = frontend,
          vr_api = api\<rparr>)"

subsection \<open>Strict JSON\<close>

text \<open>What a strictly decoded document is: distinct keys in every object and no non-finite number.\<close>

fun json_strict_wf :: "json \<Rightarrow> bool" where
  "json_strict_wf (JFloat f _) = (\<exists>r. f = Fin r)"
| "json_strict_wf (JList xs) = (\<forall>x \<in> set xs. json_strict_wf x)"
| "json_strict_wf (JDict d) = (distinct (map fst d) \<and> (\<forall>kv \<in> set d. json_strict_wf (snd kv)))"
| "json_strict_wf _ = True"

lemma strict_object_pairs_iff:
  "strict_object_pairs acc kvs = Inr r \<longleftrightarrow>
     r = acc @ kvs \<and> distinct (map fst kvs) \<and> fst ` set acc \<inter> fst ` set kvs = {}"
proof (induction acc kvs rule: strict_object_pairs.induct)
  case (2 acc k v kvs)
  show ?case
  proof (cases "k \<in> set (dict_keys acc)")
    case True
    then show ?thesis by (auto simp: dict_keys_def)
  next
    case False
    then have "dict_set acc k v = acc @ [(k, v)]" by (auto simp: dict_keys_def intro!: dict_set_fresh)
    with 2 False show ?thesis by (auto simp: dict_keys_def)
  qed
qed auto

lemma mapE_id_iff:
  assumes "\<And>x y. x \<in> set xs \<Longrightarrow> f x = Inr y \<longleftrightarrow> y = x \<and> P x"
  shows "mapE f xs = Inr ys \<longleftrightarrow> ys = xs \<and> (\<forall>x \<in> set xs. P x)"
  using assms by (induction xs arbitrary: ys) (auto simp: bindE_Inr_iff)

lemma strict_json_iff: "strict_json t = Inr u \<longleftrightarrow> u = t \<and> json_strict_wf t"
proof (induction t arbitrary: u rule: strict_json.induct)
  case (2 xs)
  have "mapE strict_json xs = Inr ys \<longleftrightarrow> ys = xs \<and> (\<forall>x \<in> set xs. json_strict_wf x)" for ys
    by (rule mapE_id_iff) (use 2 in auto)
  then show ?case by (auto simp: bindE_Inr_iff)
next
  case (3 d)
  have "mapE (\<lambda>(k, v). bindE (strict_json v) (\<lambda>w. Inr (k, w))) d = Inr e \<longleftrightarrow>
      e = d \<and> (\<forall>kv \<in> set d. json_strict_wf (snd kv))" for e
    by (rule mapE_id_iff) (use 3 in \<open>force simp: bindE_Inr_iff\<close>)
  then show ?case by (auto simp: bindE_Inr_iff strict_object_pairs_iff)
qed (auto split: fnum.splits)

subsection \<open>Reading one endpoint\<close>

lemma read_bounded_Inr:
  "read_bounded content_length body n = Inr raw \<Longrightarrow> raw = body \<and> length body \<le> n"
  by (auto simp: read_bounded_def bindE_Inr_iff Let_def split: option.splits if_splits)

lemma plain_endpoint_commit [simp]:
  "er_commit (plain_endpoint url status headers e) = JNull"
  "er_error (plain_endpoint url status headers e) = JStr e"
  by (simp_all add: plain_endpoint_def)

lemma endpoint_of_payload_commit:
  assumes "er_commit (endpoint_of_payload url status headers payload) = JStr c"
  shows "\<exists>d. payload = JDict d \<and> dict_get d ''commit'' = Some (JStr c)"
  using assms
  by (auto simp: endpoint_of_payload_def str_or_none_def jget_def split: json.splits if_splits option.splits)

lemma normalize_headers_step_distinct:
  "distinct (dict_keys d) \<Longrightarrow>
   distinct (dict_keys (fold (\<lambda>(key, value) normalized. let k = lower key in
      dict_set normalized k (g normalized k value)) items d))"
  by (induction items arbitrary: d) (auto simp: Let_def dict_set_distinct)

lemma normalize_headers_distinct: "distinct (dict_keys (normalize_headers items))"
  unfolding normalize_headers_def
  by (rule normalize_headers_step_distinct) (simp add: dict_keys_def)

subsection \<open>Properties\<close>

text \<open>
  C21. A commit is reported for an endpoint only from an unredirected answer whose whole body fits the
  byte limit and decodes to an object without duplicate keys that names this commit.
\<close>

theorem fetch_endpoint_commit_sound:
  assumes "fetch_endpoint decode url timeout max_bytes outcome = Inr r" and "er_commit r = JStr c"
  shows "\<exists>status hdrs cl body d. outcome = Response status hdrs url cl body
     \<and> int (length body) \<le> max_bytes \<and> decode body = Inr (JDict d)
     \<and> distinct (dict_keys d) \<and> dict_get d ''commit'' = Some (JStr c)
     \<and> er_status r = JInt status"
proof (cases outcome)
  case (Response status hdrs final cl body)
  with assms have pos: "0 < max_bytes" and final: "final = url"
    by (auto simp: fetch_endpoint_def Let_def split: if_splits sum.splits)
  from assms Response final pos obtain raw tree payload where
    raw: "read_bounded cl body (nat max_bytes) = Inr raw" and tree: "decode raw = Inr tree"
    and payload: "strict_json tree = Inr payload"
    and r: "r = endpoint_of_payload url status (normalize_headers hdrs) payload"
    by (auto simp: fetch_endpoint_def Let_def split: if_splits sum.splits)
  from read_bounded_Inr [OF raw] have body: "raw = body" "length body \<le> nat max_bytes" by auto
  from assms(2) r obtain d where d: "payload = JDict d" "dict_get d ''commit'' = Some (JStr c)"
    using endpoint_of_payload_commit by blast
  with payload have "tree = JDict d" "distinct (dict_keys d)"
    by (auto simp: strict_json_iff dict_keys_def)
  moreover from r d have "er_status r = JInt status" by (simp add: endpoint_of_payload_def)
  ultimately show ?thesis using Response final body tree d pos by auto
qed (use assms in \<open>auto simp: fetch_endpoint_def split: if_splits\<close>)

definition demo_commit :: string where
  "demo_commit = replicate 40 CHR ''a''"

theorem fetch_endpoint_commit_sound_witness:
  "\<exists>r. fetch_endpoint (\<lambda>_. Inr (JDict [(''commit'', JStr demo_commit)])) ''u'' 1 10
         (Response 200 [] ''u'' None ''{}'') = Inr r
     \<and> er_commit r = JStr demo_commit
     \<and> (\<exists>status hdrs cl body d. Response 200 [] ''u'' None ''{}'' = Response status hdrs ''u'' cl body
         \<and> int (length body) \<le> 10
         \<and> (\<lambda>_. Inr (JDict [(''commit'', JStr demo_commit)]) :: string + json) body = Inr (JDict d)
         \<and> distinct (dict_keys d) \<and> dict_get d ''commit'' = Some (JStr demo_commit)
         \<and> er_status r = JInt status)"
proof -
  let ?dec = "\<lambda>_. Inr (JDict [(''commit'', JStr demo_commit)]) :: string + json"
  have e: "\<exists>r. fetch_endpoint ?dec ''u'' 1 10 (Response 200 [] ''u'' None ''{}'') = Inr r
      \<and> er_commit r = JStr demo_commit"
    by (simp add: fetch_endpoint_def read_bounded_def Let_def endpoint_of_payload_def str_or_none_def
        jget_def dict_get_def dict_keys_def)
  then obtain r where r: "fetch_endpoint ?dec ''u'' 1 10 (Response 200 [] ''u'' None ''{}'') = Inr r"
      "er_commit r = JStr demo_commit" by blast
  show ?thesis using r fetch_endpoint_commit_sound [OF r] by blast
qed

lemma sorted_diff_Nil: "sorted_diff xs ys = [] \<longleftrightarrow> set xs \<subseteq> set ys"
proof -
  have "sorted_diff xs ys = [] \<longleftrightarrow> set (sorted_diff xs ys) = {}" by simp
  also have "\<dots> \<longleftrightarrow> set xs \<subseteq> set ys" by (auto simp: sorted_diff_def)
  finally show ?thesis .
qed

text \<open>
  The artifact-tree declaration is accepted without error exactly when it is an object with the
  five contract fields and no other, schema version 1, a full SHA-256 digest, a positive safe file
  count, a full commit as compile revision and a non-empty provenance.
\<close>

theorem parse_artifact_tree_ok_iff:
  "(\<exists>t. parse_artifact_tree payload = Some t \<and> at_error t = None) \<longleftrightarrow>
   (\<exists>raw sha count rev prov. dict_get payload ''artifact_tree'' = Some (JDict raw)
      \<and> set (dict_keys raw) = set ARTIFACT_TREE_KEYS
      \<and> dict_get raw ''schema_version'' = Some (JInt 1)
      \<and> dict_get raw ''sha256'' = Some (JStr sha) \<and> is_sha256_str sha
      \<and> dict_get raw ''file_count'' = Some (JInt count) \<and> 1 \<le> count \<and> count \<le> MAX_SAFE_INTEGER
      \<and> dict_get raw ''compile_revision'' = Some (JStr rev) \<and> is_commit_str rev
      \<and> dict_get raw ''provenance'' = Some (JStr prov) \<and> prov \<noteq> [])"
proof (cases "dict_get payload ''artifact_tree''")
  case None
  then show ?thesis by (simp add: parse_artifact_tree_def)
next
  case (Some v)
  show ?thesis
  proof (cases v)
    case (JDict raw)
    have "(\<exists>t. parse_artifact_tree payload = Some t \<and> at_error t = None) \<longleftrightarrow>
        set ARTIFACT_TREE_KEYS \<subseteq> set (dict_keys raw) \<and> set (dict_keys raw) \<subseteq> set ARTIFACT_TREE_KEYS
      \<and> jget raw ''schema_version'' = JInt 1
      \<and> (\<exists>s. jget raw ''sha256'' = JStr s \<and> is_sha256_str s)
      \<and> (\<exists>n. jget raw ''file_count'' = JInt n \<and> 1 \<le> n \<and> n \<le> MAX_SAFE_INTEGER)
      \<and> (\<exists>s. jget raw ''compile_revision'' = JStr s \<and> is_commit_str s)
      \<and> (\<exists>s. jget raw ''provenance'' = JStr s \<and> s \<noteq> [])"
      using Some JDict unfolding parse_artifact_tree_def
      by (auto simp: Let_def sorted_diff_Nil split: json.splits option.splits if_splits)
    with Some JDict show ?thesis
      by (auto simp: jget_def split: option.splits)
  qed (use Some in \<open>simp_all add: parse_artifact_tree_def\<close>)
qed

lemma endpoint_reasons_Nil:
  "endpoint_reasons c name r = [] \<longleftrightarrow>
     \<not> truthy (er_error r) \<and> py_eq (er_status r) (JInt 200) \<and> er_commit r = JStr c
   \<and> (name = ''frontend'' \<longrightarrow> er_version r = JStr (take 8 c))"
  by (simp add: endpoint_reasons_def Let_def)

lemma header_reasons_Nil:
  "header_reasons c frontend api = [] \<longleftrightarrow>
     (\<exists>v. dict_get (er_headers frontend) ''cache-control'' = Some v \<and> contains ''no-store'' (lower v))
   \<and> dict_get (er_headers api) ''x-weltgewebe-api-build'' = Some c
   \<and> dict_get (er_headers api) ''x-weltgewebe-build'' = Some (take 8 c)"
  by (cases "dict_get (er_headers frontend) ''cache-control''")
    (simp_all add: header_reasons_def Let_def lower_def)

lemma artifact_reasons_Nil:
  "fst (artifact_reasons c tree) = [] \<longleftrightarrow>
     (\<exists>t. tree = Some t \<and> (at_error t = None \<or> at_error t = Some [])
         \<and> at_compile_revision t = Some c \<and> at_provenance t = Some UNATTESTED_PROVENANCE)"
  by (cases tree) (auto simp: artifact_reasons_def split: option.splits)

lemma evaluate_reasons:
  "vr_reasons (evaluate when c frontend api) =
     endpoint_reasons c ''frontend'' frontend @ endpoint_reasons c ''api'' api
   @ header_reasons c frontend api @ fst (artifact_reasons c (er_artifact_tree frontend))"
  by (simp add: evaluate_def Let_def split: prod.split)

lemma evaluate_pass: "vr_pass (evaluate when c frontend api) \<longleftrightarrow> vr_reasons (evaluate when c frontend api) = []"
  by (simp add: evaluate_def Let_def split: prod.split)

text \<open>
  C9. The release is reported live exactly when both endpoints answered 200 without an error and with
  the expected commit, the frontend version is its short form and served with no-store, both build
  headers name the commit, and the error-free artifact tree was compiled from it and is declared
  unattested.  In particular nothing is ever reported as attested.
\<close>

theorem evaluate_pass_iff:
  "vr_pass (evaluate when c frontend api) \<longleftrightarrow>
     \<not> truthy (er_error frontend) \<and> \<not> truthy (er_error api)
   \<and> py_eq (er_status frontend) (JInt 200) \<and> py_eq (er_status api) (JInt 200)
   \<and> er_commit frontend = JStr c \<and> er_commit api = JStr c
   \<and> er_version frontend = JStr (take 8 c)
   \<and> (\<exists>v. dict_get (er_headers frontend) ''cache-control'' = Some v \<and> contains ''no-store'' (lower v))
   \<and> dict_get (er_headers api) ''x-weltgewebe-api-build'' = Some c
   \<and> dict_get (er_headers api) ''x-weltgewebe-build'' = Some (take 8 c)
   \<and> (\<exists>t. er_artifact_tree frontend = Some t \<and> (at_error t = None \<or> at_error t = Some [])
         \<and> at_compile_revision t = Some c \<and> at_provenance t = Some UNATTESTED_PROVENANCE)"
  by (auto simp: evaluate_pass evaluate_reasons endpoint_reasons_Nil header_reasons_Nil artifact_reasons_Nil)

end
