(* ===== verification/Release_Loop.thy ===== *)
theory Release_Loop
  imports Release_Verify
begin

text \<open>
  The command of \<open>src/scripts/ops/verify_public_release_commit.py\<close>: argument checks, the polling loop that
  fetches, evaluates and stores a receipt until the release is live or the deadline has passed, and the
  receipt as JSON.

  The world is a parameter: the answer to each request, the readings of the monotonic clock, the time
  stamps, and whether a receipt could be stored, each by attempt.  Reading 0 of the clock fixes the
  deadline, reading \<open>k + 1\<close> follows attempt \<open>k\<close>.  Nothing forces the clock to advance, so the loop is a
  partial function whose value is None when it does not end.  Clock readings are exact numbers here.
\<close>

record verify_args =
  va_expected_commit :: string
  va_frontend_url :: string
  va_api_url :: string
  va_timeout :: rat
  va_wait_seconds :: int
  va_poll_seconds :: int
  va_max_response_bytes :: int

record verify_world =
  vw_frontend :: "nat \<Rightarrow> http_outcome"
  vw_api :: "nat \<Rightarrow> http_outcome"
  vw_clock :: "nat \<Rightarrow> rat"
  vw_utc :: "nat \<Rightarrow> string"
  vw_store :: "nat \<Rightarrow> verification_result \<Rightarrow> string option"

datatype exit_status = ExitCode int | Raised string

definition check_verify_args :: "verify_args \<Rightarrow> string + string" where
  "check_verify_args args =
     bindE (validate_commit (va_expected_commit args)) (\<lambda>expected.
     bindE (guardE (0 < va_timeout args) ''timeout must be positive'') (\<lambda>_.
     bindE (guardE (0 \<le> va_wait_seconds args) ''wait-seconds must not be negative'') (\<lambda>_.
     bindE (guardE (1 \<le> va_poll_seconds args) ''poll-seconds must be at least one'') (\<lambda>_.
     bindE (guardE (1 \<le> va_max_response_bytes args) ''max-response-bytes must be at least one'') (\<lambda>_.
     Inr expected)))))"

definition attempt ::
  "(string \<Rightarrow> string + json) \<Rightarrow> verify_world \<Rightarrow> verify_args \<Rightarrow> string \<Rightarrow> nat \<Rightarrow> string + verification_result" where
  "attempt decode w args expected k =
     bindE (fetch_endpoint decode (va_frontend_url args) (va_timeout args) (va_max_response_bytes args) (vw_frontend w k)) (\<lambda>frontend.
     bindE (fetch_endpoint decode (va_api_url args) (va_timeout args) (va_max_response_bytes args) (vw_api w k)) (\<lambda>api.
     Inr (evaluate (vw_utc w k) expected frontend api)))"

partial_function (option) verify_loop ::
  "(string \<Rightarrow> string + json) \<Rightarrow> verify_world \<Rightarrow> verify_args \<Rightarrow> string \<Rightarrow> rat \<Rightarrow> nat \<Rightarrow> verification_result list \<Rightarrow>
   (exit_status \<times> verification_result list) option" where
  "verify_loop decode w args expected deadline k receipts =
     (case attempt decode w args expected k of
        Inl exc \<Rightarrow> Some (Raised exc, receipts)
      | Inr result \<Rightarrow>
          (case vw_store w k result of
             Some exc \<Rightarrow> Some (Raised exc, receipts)
           | None \<Rightarrow>
               if vr_pass result then Some (ExitCode 0, receipts @ [result])
               else if deadline \<le> vw_clock w (k + 1) then Some (ExitCode 1, receipts @ [result])
               else verify_loop decode w args expected deadline (k + 1) (receipts @ [result])))"

declare verify_loop.simps [code]

definition verify_main ::
  "(string \<Rightarrow> string + json) \<Rightarrow> verify_world \<Rightarrow> verify_args \<Rightarrow> (exit_status \<times> verification_result list) option" where
  "verify_main decode w args =
     (case check_verify_args args of
        Inl _ \<Rightarrow> Some (ExitCode 2, [])
      | Inr expected \<Rightarrow>
          verify_loop decode w args expected (vw_clock w 0 + of_int (va_wait_seconds args)) 0 [])"

text \<open>\<open>asdict\<close> of the results, and \<open>as_json\<close>, which renames \<open>pass_\<close> and so moves it to the end.\<close>

definition opt_to_json :: "('a \<Rightarrow> json) \<Rightarrow> 'a option \<Rightarrow> json" where
  "opt_to_json f v = (case v of None \<Rightarrow> JNull | Some x \<Rightarrow> f x)"

definition tree_as_dict :: "artifact_tree_result \<Rightarrow> json" where
  "tree_as_dict t = JDict
     [(''schema_version'', opt_to_json JInt (at_schema_version t)), (''sha256'', opt_to_json JStr (at_sha256 t)),
      (''file_count'', opt_to_json JInt (at_file_count t)),
      (''compile_revision'', opt_to_json JStr (at_compile_revision t)),
      (''provenance'', opt_to_json JStr (at_provenance t)), (''error'', opt_to_json JStr (at_error t))]"

definition endpoint_as_dict :: "endpoint_result \<Rightarrow> json" where
  "endpoint_as_dict r = JDict
     [(''url'', JStr (er_url r)), (''status'', er_status r), (''commit'', er_commit r), (''version'', er_version r),
      (''headers'', JDict (map (\<lambda>(k, v). (k, JStr v)) (er_headers r))), (''error'', er_error r),
      (''artifact_tree'', opt_to_json tree_as_dict (er_artifact_tree r))]"

definition result_as_json :: "verification_result \<Rightarrow> dict" where
  "result_as_json r =
     [(''schema_version'', JInt (vr_schema_version r)), (''expected_commit'', JStr (vr_expected_commit r)),
      (''verified_at'', JStr (vr_verified_at r)), (''status'', JStr (vr_status r)),
      (''pass_scope'', JStr (vr_pass_scope r)), (''identity_verified'', JBool (vr_identity_verified r)),
      (''artifact_tree_declaration_verified'', JBool (vr_artifact_tree_declaration_verified r)),
      (''attestation_verified'', JBool (vr_attestation_verified r)),
      (''provenance_status'', JStr (vr_provenance_status r)),
      (''reasons'', JList (map JStr (vr_reasons r))), (''limitations'', JList (map JStr (vr_limitations r))),
      (''frontend'', endpoint_as_dict (vr_frontend r)), (''api'', endpoint_as_dict (vr_api r)),
      (''pass'', JBool (vr_pass r))]"

subsection \<open>The loop\<close>

lemma check_verify_args_Inr:
  "check_verify_args args = Inr e \<longleftrightarrow>
     validate_commit (va_expected_commit args) = Inr e \<and> 0 < va_timeout args \<and> 0 \<le> va_wait_seconds args
     \<and> 1 \<le> va_poll_seconds args \<and> 1 \<le> va_max_response_bytes args"
  by (auto simp: check_verify_args_def bindE_Inr_iff)

lemma attempt_total:
  assumes "check_verify_args args = Inr e"
  shows "\<exists>frontend api. attempt decode w args e k = Inr (evaluate (vw_utc w k) e frontend api)
     \<and> fetch_endpoint decode (va_frontend_url args) (va_timeout args) (va_max_response_bytes args) (vw_frontend w k) = Inr frontend
     \<and> fetch_endpoint decode (va_api_url args) (va_timeout args) (va_max_response_bytes args) (vw_api w k) = Inr api"
  using assms by (auto simp: attempt_def fetch_endpoint_def check_verify_args_Inr)

text \<open>The result of attempt \<open>k\<close>; attempts with accepted arguments do not raise.\<close>

definition outcome_at :: "(string \<Rightarrow> string + json) \<Rightarrow> verify_world \<Rightarrow> verify_args \<Rightarrow> string \<Rightarrow> nat \<Rightarrow> verification_result" where
  "outcome_at decode w args e k = 
     (case attempt decode w args e k of
        Inr r \<Rightarrow> r
      | Inl exc \<Rightarrow> evaluate [] e (plain_endpoint [] 0 [] exc) (plain_endpoint [] 0 [] exc))"

text \<open>
  One run from attempt \<open>k\<close> on, when attempt \<open>n\<close> is the first that passes or ends past the deadline.
\<close>

lemma verify_loop_stops:
  assumes args: "check_verify_args args = Inr e" and store: "\<And>k r. vw_store w k r = None"
    and "k \<le> n" and stop: "vr_pass (outcome_at decode w args e n) \<or> deadline \<le> vw_clock w (n + 1)"
    and first: "\<And>j. k \<le> j \<Longrightarrow> j < n \<Longrightarrow> \<not> vr_pass (outcome_at decode w args e j) \<and> vw_clock w (j + 1) < deadline"
  shows "verify_loop decode w args e deadline k receipts =
    Some (ExitCode (if vr_pass (outcome_at decode w args e n) then 0 else 1),
          receipts @ map (outcome_at decode w args e) [k..<n + 1])"
  using \<open>k \<le> n\<close> first
proof (induction "n - k" arbitrary: k receipts)
  case 0
  from attempt_total [OF args, of decode w k] obtain r where a: "attempt decode w args e k = Inr r" by blast
  then have "outcome_at decode w args e k = r" by (simp add: outcome_at_def)
  with 0 stop a show ?case by (subst verify_loop.simps) (auto simp: store)
next
  case (Suc m)
  from attempt_total [OF args, of decode w k] obtain r where a: "attempt decode w args e k = Inr r" by blast
  then have o: "outcome_at decode w args e k = r" by (simp add: outcome_at_def)
  have "k < n" using Suc.hyps by simp
  with Suc.prems(2) [of k] o have go: "\<not> vr_pass r" "vw_clock w (k + 1) < deadline" by auto
  have "verify_loop decode w args e deadline (k + 1) (receipts @ [r]) =
    Some (ExitCode (if vr_pass (outcome_at decode w args e n) then 0 else 1),
          (receipts @ [r]) @ map (outcome_at decode w args e) [k + 1..<n + 1])"
    by (rule Suc.hyps(1)) (use Suc.hyps(2) \<open>k < n\<close> Suc.prems in auto)
  moreover have "[k..<n + 1] = k # [k + 1..<n + 1]" using \<open>k < n\<close> by (simp add: upt_conv_Cons)
  ultimately show ?case
    using a go o by (subst verify_loop.simps) (simp add: store)
qed

lemma clock_after:
  assumes "vw_clock w 0 \<le> vw_clock w 1" and advance: "\<And>k. vw_clock w (k + 1) + of_int poll \<le> vw_clock w (k + 2)"
  shows "vw_clock w 0 + of_nat n * of_int poll \<le> vw_clock w (n + 1)"
proof (induction n)
  case (Suc n)
  then show ?case using advance [of n] by (simp add: algebra_simps)
qed (use assms in simp)

text \<open>A reading before the deadline bounds the number of attempts, and the deadline is reached.\<close>

lemma attempts_bounded:
  assumes clock: "\<And>n. vw_clock w 0 + of_nat n * of_int poll \<le> vw_clock w (n + 1)"
    and before: "vw_clock w (m + 1) < vw_clock w 0 + of_int wait"
  shows "int m * poll < wait"
proof -
  have "(of_nat m * of_int poll :: rat) < of_int wait" using clock [of m] before by linarith
  then show ?thesis by (metis of_int_less_iff of_int_mult of_int_of_nat_eq)
qed

lemma deadline_reached:
  assumes clock: "\<And>n. vw_clock w 0 + of_nat n * of_int poll \<le> vw_clock w (n + 1)" and "1 \<le> poll" "0 \<le> wait"
  shows "vw_clock w 0 + of_int wait \<le> vw_clock w (nat wait + 1)"
proof (rule ccontr)
  assume "\<not> ?thesis"
  then have "vw_clock w (nat wait + 1) < vw_clock w 0 + of_int wait" by simp
  from attempts_bounded [OF clock this] have "wait * poll < wait" using \<open>0 \<le> wait\<close> by simp
  moreover have "wait * 1 \<le> wait * poll" using assms(2,3) by (rule mult_left_mono)
  ultimately show False by simp
qed

lemma least_stop:
  assumes "stop (n :: nat)"
  obtains m where "stop m" "\<And>j. j < m \<Longrightarrow> \<not> stop j"
  using assms exists_least_iff by metis


subsection \<open>Concrete runs\<close>

definition demo_args :: verify_args where
  "demo_args = \<lparr>va_expected_commit = demo_commit, va_frontend_url = ''f'', va_api_url = ''a'', va_timeout = 8,
     va_wait_seconds = 30, va_poll_seconds = 15, va_max_response_bytes = 10\<rparr>"

text \<open>Endpoints that come up at attempt \<open>up\<close>, and a clock that reads 15 seconds more each time.\<close>

definition demo_decode :: "string \<Rightarrow> string + json" where
  "demo_decode body = Inr (JDict (
     [(''commit'', JStr demo_commit), (''version'', JStr (take 8 demo_commit))]
   @ (if body = ''f'' then [(''artifact_tree'', JDict
       [(''schema_version'', JInt 1), (''sha256'', JStr (replicate 64 CHR ''a'')), (''file_count'', JInt 3),
        (''compile_revision'', JStr demo_commit), (''provenance'', JStr ''unattested'')])] else [])))"

definition demo_world :: "nat \<Rightarrow> verify_world" where
  "demo_world up = \<lparr>
     vw_frontend = (\<lambda>k. if k < up then URLError ''down'' else
       Response 200 [(''Cache-Control'', ''no-store'')] ''f'' None ''f''),
     vw_api = (\<lambda>k. if k < up then URLError ''down'' else
       Response 200 [(''X-Weltgewebe-Api-Build'', demo_commit), (''X-Weltgewebe-Build'', take 8 demo_commit)] ''a'' None ''a''),
     vw_clock = (\<lambda>k. 15 * of_nat k), vw_utc = (\<lambda>_. ''t''), vw_store = (\<lambda>_ _. None)\<rparr>"

lemma demo_args_ok: "check_verify_args demo_args = Inr demo_commit"
  by code_simp


end
