(* ===== verification/Live_State.thy ===== *)
theory Live_State
  imports Release_Verify
begin

text \<open>
  \<open>src/scripts/ops/classify_production_live_state.py\<close>: classify a stored verification receipt
  against the main lineage.  \<open>classify\<close> is the decision procedure, \<open>with_schaubild\<close> adds the release
  convergence of the Schaubild service, \<open>fingerprint\<close> is the identity of an alert and
  \<open>classify_main\<close> the command with its exit code.

  Git is a parameter: \<open>git args\<close> is the return code and the standard output of \<open>git -C repo args\<close>.
  SHA-256 is the parameter \<open>sha256\<close> (hexadecimal digest of a text), and ISO timestamps the parameter
  \<open>fromiso\<close>: None when \<open>fromisoformat\<close> raises, otherwise whether the result has a time zone.  \<open>now\<close> is
  \<open>int(time.time())\<close>.
\<close>

definition NON_ALERTING_STATES :: "string list" where
  "NON_ALERTING_STATES = [''current'', ''superseded'', ''pending'']"

definition SCHAUBILD_SCHEMA :: string where
  "SCHAUBILD_SCHEMA = ''weltgewebe-schauwerk-release-convergence.v1''"

record classification =
  cl_schema_version :: int
  cl_state :: string
  cl_alert :: bool
  cl_expected_commit :: string
  cl_main_commit :: string
  cl_live_commit :: "string option"
  cl_reason :: string
  cl_frontend_commit :: "string option"
  cl_api_commit :: "string option"
  cl_schaubild :: "string option"
  cl_causes :: "string list"

definition NEWLINE :: string where
  "NEWLINE = [CHR 0x0A]"

definition fingerprint :: "(string \<Rightarrow> string) \<Rightarrow> classification \<Rightarrow> string" where
  "fingerprint sha256 c =
     (let identity =
            (if cl_live_commit c = None
                \<and> (or_else (cl_frontend_commit c) [] \<noteq> [] \<or> or_else (cl_api_commit c) [] \<noteq> [])
             then cl_state c @ '':'' @ or_else (cl_frontend_commit c) ''none'' @ ''/''
                  @ or_else (cl_api_commit c) ''none''
             else cl_state c @ '':'' @ or_else (cl_live_commit c) ''none'');
          identity' =
            (if cl_causes c \<noteq> []
             then identity @ ''#'' @ take 12 (sha256 (join NEWLINE (sort (cl_causes c))))
             else identity)
      in (case cl_schaubild c of
            Some s \<Rightarrow> if s \<noteq> [] then identity' @ ''+schaubild-'' @ s else identity'
          | None \<Rightarrow> identity'))"

fun is_commit :: "json \<Rightarrow> bool" where
  "is_commit (JStr s) = is_commit_str s"
| "is_commit _ = False"

type_synonym git_run = "string list \<Rightarrow> int \<times> string"

definition git_is_ancestor :: "git_run \<Rightarrow> string \<Rightarrow> string \<Rightarrow> bool option" where
  "git_is_ancestor git ancestor descendant =
     (let returncode = fst (git [''merge-base'', ''--is-ancestor'', ancestor, descendant]) in
      if returncode = 0 then Some True else if returncode = 1 then Some False else None)"

definition git_commit_time :: "git_run \<Rightarrow> string \<Rightarrow> int option" where
  "git_commit_time git commit =
     (let (returncode, out) = git [''show'', ''-s'', ''--format=%ct'', commit]; raw = strip out in
      if returncode \<noteq> 0 \<or> raw = [] \<or> \<not> list_all is_digit raw then None else py_int raw)"

definition git_rollout_start :: "git_run \<Rightarrow> string \<Rightarrow> string \<Rightarrow> int option" where
  "git_rollout_start git live target =
     (let (returncode, out) = git [''rev-list'', ''--first-parent'', ''--reverse'', live @ ''..'' @ target];
          lines = split_ws out
      in if returncode \<noteq> 0 \<or> lines = [] then None else git_commit_time git (hd lines))"

definition no_attribute :: "json \<Rightarrow> string \<Rightarrow> string" where
  "no_attribute v attr = repr_str (type_name v) @ '' object has no attribute '' @ repr_str attr"

text \<open>The local function \<open>endpoint\<close> of \<open>revalidate_against\<close>; the left value is \<open>str(exc)\<close>.\<close>

definition revalidate_tree :: "json \<Rightarrow> string + artifact_tree_result option" where
  "revalidate_tree tree =
     (case tree of
        JDict d \<Rightarrow>
          (case dict_get d ''error'' of
             None \<Rightarrow> Inl ''artifact_tree has no parser result''
           | Some err \<Rightarrow>
               (let checked = parse_artifact_tree
                      [(''artifact_tree'', JDict (filter (\<lambda>(k, v). k \<noteq> ''error'') d))];
                    checked_error = (case checked of None \<Rightarrow> None | Some t \<Rightarrow> at_error t)
                in if py_eq (case checked_error of None \<Rightarrow> JNull | Some e \<Rightarrow> JStr e) err
                   then Inr checked
                   else Inl ''artifact_tree parser result contradicts declaration''))
      | _ \<Rightarrow> Inr None)"

definition revalidate_headers :: "json \<Rightarrow> string + (string \<times> string) list" where
  "revalidate_headers headers =
     (if \<not> truthy headers then Inr []
      else (case headers of
              JDict h \<Rightarrow> Inr (fold (\<lambda>(k, v) acc. dict_set acc (lower k) (py_str v)) h [])
            | _ \<Rightarrow> Inl (no_attribute headers ''items'')))"

definition revalidate_endpoint :: "json \<Rightarrow> string + endpoint_result" where
  "revalidate_endpoint raw =
     (case raw of
        JDict r \<Rightarrow>
          bindE (revalidate_tree (jget r ''artifact_tree'')) (\<lambda>checked_tree.
          bindE (revalidate_headers (jget r ''headers'')) (\<lambda>headers.
            Inr \<lparr>er_url = (if truthy (jget r ''url'') then py_str (jget r ''url'') else []),
                 er_status = jget r ''status'', er_commit = jget r ''commit'',
                 er_version = jget r ''version'', er_headers = headers,
                 er_error = jget r ''error'', er_artifact_tree = checked_tree\<rparr>))
      | _ \<Rightarrow> Inl (no_attribute raw ''get''))"

definition require_key :: "dict \<Rightarrow> string \<Rightarrow> string + json" where
  "require_key d k = (case dict_get d k of None \<Rightarrow> Inl (repr_str k) | Some v \<Rightarrow> Inr v)"

definition revalidate_against :: "dict \<Rightarrow> string \<Rightarrow> string list" where
  "revalidate_against receipt commit =
     (case bindE (require_key receipt ''frontend'') (\<lambda>f.
           bindE (revalidate_endpoint f) (\<lambda>frontend.
           bindE (require_key receipt ''api'') (\<lambda>a.
           bindE (revalidate_endpoint a) (\<lambda>api. Inr (evaluate [] commit frontend api))))) of
        Inl exc \<Rightarrow> [''receipt cannot be revalidated against '' @ commit @ '': '' @ exc]
      | Inr result \<Rightarrow> vr_reasons result)"

text \<open>The local functions of \<open>classify\<close>: \<open>result\<close>, \<open>failed\<close> and \<open>lag\<close>.\<close>

definition cl_result ::
  "string \<Rightarrow> string \<Rightarrow> string option \<Rightarrow> string option \<Rightarrow>
   string \<Rightarrow> string option \<Rightarrow> string \<Rightarrow> string list \<Rightarrow> classification" where
  "cl_result expected_commit main_commit obs_frontend obs_api state live reason causes =
     \<lparr>cl_schema_version = 1, cl_state = state, cl_alert = (state \<notin> set NON_ALERTING_STATES),
      cl_expected_commit = expected_commit, cl_main_commit = main_commit, cl_live_commit = live,
      cl_reason = reason, cl_frontend_commit = obs_frontend, cl_api_commit = obs_api,
      cl_schaubild = None, cl_causes = causes\<rparr>"

definition cl_lag ::
  "(string \<Rightarrow> string option \<Rightarrow> string \<Rightarrow> string list \<Rightarrow> classification) \<Rightarrow>
   dict \<Rightarrow> int \<Rightarrow> int \<Rightarrow> (string \<Rightarrow> string \<Rightarrow> int option) \<Rightarrow> string \<Rightarrow> string \<Rightarrow> classification" where
  "cl_lag result receipt now grace rollout_start live target =
     (let failures = revalidate_against receipt live in
      if failures \<noteq> [] then result ''invalid'' (Some live) (join ''; '' failures) failures
      else (case rollout_start live target of
          None \<Rightarrow> result ''stale'' (Some live)
                    (''rollout start after '' @ live @ '' is unknown; treating lag as stale'') []
        | Some owed_since \<Rightarrow>
            (let age = now - owed_since in
             if age < 0
             then result ''stale'' (Some live)
                    (''the first commit after '' @ live @ '' is dated '' @ str_int (- age) @ ''s in the future'') []
             else if age < grace
             then result ''pending'' (Some live)
                    (''older main commit '' @ live @ '' is live; rollout towards '' @ target @ '' is owed for ''
                     @ str_int age @ ''s (grace '' @ str_int grace @ ''s)'') []
             else result ''stale'' (Some live)
                    (''older main commit '' @ live @ '' is still live '' @ str_int age
                     @ ''s after the next main commit landed'') [])))"

definition readback_failures :: "dict \<Rightarrow> dict \<Rightarrow> string list" where
  "readback_failures frontend api =
     concat (map (\<lambda>(name, endpoint).
         if truthy (jget endpoint ''error'') \<or> \<not> py_eq (jget endpoint ''status'') (JInt 200)
         then [name @ '' readback failed: HTTP '' @ py_repr (jget endpoint ''status'')
               @ '', error '' @ py_repr (jget endpoint ''error'')]
         else [])
       [(''frontend'', frontend), (''api'', api)])"

definition proof_failures :: "dict \<Rightarrow> string \<Rightarrow> string \<Rightarrow> string list" where
  "proof_failures receipt expected_commit live =
     (if \<not> py_eq (jget receipt ''schema_version'') (JInt 3)
      then [''production verifier receipt schema_version is not 3''] else [])
   @ (if \<not> py_eq (jget receipt ''expected_commit'') (JStr expected_commit)
      then [''production verifier receipt expected_commit mismatch''] else [])
   @ (if \<not> py_eq (jget receipt ''reasons'') (JList [])
      then [''production verifier receipt pass contradicts reasons''] else [])
   @ revalidate_against receipt live"

definition classify_live ::
  "(string \<Rightarrow> string option \<Rightarrow> string \<Rightarrow> string list \<Rightarrow> classification) \<Rightarrow>
   dict \<Rightarrow> string \<Rightarrow> string \<Rightarrow> int \<Rightarrow> int \<Rightarrow> (string \<Rightarrow> string \<Rightarrow> bool option) \<Rightarrow>
   (string \<Rightarrow> string \<Rightarrow> int option) \<Rightarrow> string \<Rightarrow> classification" where
  "classify_live result receipt expected_commit main_commit now grace is_ancestor rollout_start live =
     (let lag = cl_lag result receipt now grace rollout_start;
          off_main = result ''divergent'' (Some live)
                       (''live commit '' @ live @ '' is not on main '' @ main_commit) []
      in
      if live = expected_commit
      then (if jget receipt ''pass'' = JBool True
            then (let fails = proof_failures receipt expected_commit live in
                  if fails \<noteq> [] then result ''invalid'' (Some live) (join ''; '' fails) fails
                  else if main_commit = expected_commit
                  then result ''current'' (Some live) ''expected commit is live and consistent'' []
                  else if is_ancestor live main_commit = Some True then lag live main_commit
                  else off_main)
            else (let causes = (case jget receipt ''reasons'' of
                                  JList (r # rs) \<Rightarrow> map py_str (r # rs)
                                | _ \<Rightarrow> [''receipt did not pass''])
                  in result ''invalid'' (Some live) (join ''; '' causes) causes))
      else
      (let expected_is_older = is_ancestor expected_commit live in
       if expected_is_older = Some True
       then (if is_ancestor live main_commit = Some True
             then (if live \<noteq> main_commit then lag live main_commit
                   else (let failures = revalidate_against receipt live in
                         if failures \<noteq> []
                         then result ''invalid'' (Some live) (join ''; '' failures) failures
                         else result ''superseded'' (Some live)
                                (''newer main commit '' @ live @ '' containing '' @ expected_commit
                                 @ '' is live'') []))
             else off_main)
       else
       (let live_is_older = is_ancestor live expected_commit in
        if live_is_older = Some True then lag live expected_commit
        else if expected_is_older = None \<or> live_is_older = None
        then result ''divergent'' (Some live)
               (''live commit '' @ live @ '' is unknown to the main history'') []
        else result ''divergent'' (Some live)
               (''live commit '' @ live @ '' diverges from '' @ expected_commit) [])))"

definition commit_or_none :: "json \<Rightarrow> string option" where
  "commit_or_none v = (case v of JStr s \<Rightarrow> if is_commit_str s then Some s else None | _ \<Rightarrow> None)"

definition classify ::
  "dict option \<Rightarrow> string \<Rightarrow> string \<Rightarrow> int \<Rightarrow> int \<Rightarrow> (string \<Rightarrow> string \<Rightarrow> bool option) \<Rightarrow>
   (string \<Rightarrow> string \<Rightarrow> int option) \<Rightarrow> classification" where
  "classify receipt_opt expected_commit main_commit now grace is_ancestor rollout_start =
     (case receipt_opt of
        None \<Rightarrow> cl_result expected_commit main_commit None None ''monitor_failure'' None
                  ''production live receipt is missing or unreadable'' []
      | Some receipt \<Rightarrow>
         (let frontend = as_dict (jget receipt ''frontend'');
              api = as_dict (jget receipt ''api'');
              frontend_commit = jget frontend ''commit'';
              api_commit = jget api ''commit'';
              result = cl_result expected_commit main_commit
                         (commit_or_none frontend_commit) (commit_or_none api_commit);
              failed = (\<lambda>state live reason. result state live reason [reason]);
              readback = readback_failures frontend api
          in
          if readback \<noteq> [] then result ''outage'' None (join ''; '' readback) readback
          else (case (commit_or_none frontend_commit, commit_or_none api_commit) of
              (Some fc, Some ac) \<Rightarrow>
                (if fc \<noteq> ac
                 then failed ''divergent'' None (''frontend serves '' @ fc @ '', API serves '' @ ac)
                 else classify_live result receipt expected_commit main_commit now grace
                        is_ancestor rollout_start fc)
            | _ \<Rightarrow> failed ''divergent'' None
                     (''live commit is not a full SHA on both endpoints: frontend ''
                      @ py_repr frontend_commit @ '', API '' @ py_repr api_commit))))"

definition is_image_digest :: "string \<Rightarrow> bool" where
  "is_image_digest s = (starts_with ''sha256:'' s \<and> is_sha256_str (drop 7 s))"

definition schaubild_proof_problem :: "(string \<Rightarrow> bool option) \<Rightarrow> dict \<Rightarrow> string option" where
  "schaubild_proof_problem fromiso payload =
     (let schema = jget payload ''schema_version'';
          locked = jget payload ''locked_source_commit'';
          desired = jget payload ''desired_source_commit'';
          digest = jget payload ''locked_image_digest'';
          run_id = jget payload ''desired_workflow_run_id'';
          published = jget payload ''desired_published_at''
      in if \<not> py_eq schema (JStr SCHAUBILD_SCHEMA)
         then Some (''schema '' @ py_repr schema @ '', expected '' @ repr_str SCHAUBILD_SCHEMA)
         else if \<not> (is_commit locked \<and> is_commit desired) \<or> \<not> py_eq locked desired
         then Some (''no agreeing release pair: locked '' @ py_repr locked @ '', desired '' @ py_repr desired)
         else if \<not> (case digest of JStr s \<Rightarrow> is_image_digest s | _ \<Rightarrow> False)
         then Some (''locked_image_digest '' @ py_repr digest @ '' is not a sha256 image digest'')
         else if \<not> (case run_id of JInt i \<Rightarrow> 0 < i | _ \<Rightarrow> False)
         then Some (''desired_workflow_run_id '' @ py_repr run_id @ '' is not a positive integer'')
         else if \<not> (is_str published
                    \<and> fromiso (replace_all ''Z'' ''+00:00'' (py_str published)) = Some True)
         then Some (''desired_published_at '' @ py_repr published @ '' is not a timestamp with timezone'')
         else None)"

text \<open>The file contents as decoded, or the text of the exception of reading and decoding it.\<close>

definition schaubild_failure :: "(string \<Rightarrow> bool option) \<Rightarrow> string + json \<Rightarrow> string option" where
  "schaubild_failure fromiso contents =
     (case contents of
        Inl exc \<Rightarrow> Some (''Schaubild release convergence receipt is unreadable: '' @ exc)
      | Inr (JDict payload) \<Rightarrow>
          (if \<not> py_eq (jget payload ''state'') (JStr ''current'')
              \<or> jget payload ''action_required'' \<noteq> JBool False
           then Some (''Schaubild release convergence is not current: state ''
                 @ py_repr (jget payload ''state'') @ '', action_required ''
                 @ py_repr (jget payload ''action_required'')
                 @ concat (map (\<lambda>key. case dict_get payload key of None \<Rightarrow> []
                                  | Some v \<Rightarrow> '', '' @ key @ '' '' @ py_repr v)
                     [''locked_source_commit'', ''desired_source_commit'', ''error'']))
           else (case schaubild_proof_problem fromiso payload of
                   Some problem \<Rightarrow>
                     Some (''Schaubild release convergence receipt reports current without proof: '' @ problem)
                 | None \<Rightarrow> None))
      | Inr _ \<Rightarrow> Some ''Schaubild release convergence receipt is not an object'')"

definition with_schaubild :: "classification \<Rightarrow> string option \<Rightarrow> classification" where
  "with_schaubild c failure =
     (case failure of
        None \<Rightarrow> c
      | Some f \<Rightarrow>
          if cl_alert c
          then c\<lparr>cl_reason := cl_reason c @ ''; '' @ f, cl_schaubild := Some ''also'',
                 cl_causes := cl_causes c @ [f]\<rparr>
          else c\<lparr>cl_state := ''invalid'', cl_alert := True, cl_reason := f,
                 cl_schaubild := Some ''only'', cl_causes := [f]\<rparr>)"

definition load_receipt :: "string + json \<Rightarrow> dict option" where
  "load_receipt contents = (case contents of Inr (JDict d) \<Rightarrow> Some d | _ \<Rightarrow> None)"

definition opt_json :: "string option \<Rightarrow> json" where
  "opt_json v = (case v of None \<Rightarrow> JNull | Some s \<Rightarrow> JStr s)"

text \<open>\<open>asdict(classification)\<close> with the fingerprint: the payload written to \<open>--output\<close>.\<close>

definition classification_payload :: "(string \<Rightarrow> string) \<Rightarrow> classification \<Rightarrow> dict" where
  "classification_payload sha256 c =
     [(''schema_version'', JInt (cl_schema_version c)), (''state'', JStr (cl_state c)),
      (''alert'', JBool (cl_alert c)), (''expected_commit'', JStr (cl_expected_commit c)),
      (''main_commit'', JStr (cl_main_commit c)), (''live_commit'', opt_json (cl_live_commit c)),
      (''reason'', JStr (cl_reason c)), (''frontend_commit'', opt_json (cl_frontend_commit c)),
      (''api_commit'', opt_json (cl_api_commit c)), (''schaubild'', opt_json (cl_schaubild c)),
      (''causes'', JList (map JStr (cl_causes c))),
      (''fingerprint'', JStr (fingerprint sha256 c))]"

text \<open>\<open>main\<close>: the exit code, and the payload when the arguments are accepted.\<close>

definition classify_main ::
  "git_run \<Rightarrow> (string \<Rightarrow> string) \<Rightarrow> (string \<Rightarrow> bool option) \<Rightarrow> int \<Rightarrow> string \<Rightarrow> string \<Rightarrow> int \<Rightarrow>
   string + json \<Rightarrow> (string + json) option \<Rightarrow> int \<times> dict option" where
  "classify_main git sha256 fromiso now expected_commit main_commit grace receipt_file schaubild_file =
     (if \<not> is_commit_str expected_commit \<or> \<not> is_commit_str main_commit then (2, None)
      else if grace < 0 then (2, None)
      else
      (let c = classify (load_receipt receipt_file) expected_commit main_commit now grace
                 (git_is_ancestor git) (git_rollout_start git);
           c' = (case schaubild_file of None \<Rightarrow> c
                 | Some contents \<Rightarrow> with_schaubild c (schaubild_failure fromiso contents))
       in (if cl_alert c' then 1 else 0, Some (classification_payload sha256 c'))))"

subsection \<open>The report constructor of a classification\<close>

text \<open>
  \<open>classify\<close> builds every report through one local function \<open>result\<close>.  What the decision procedure
  relies on is that \<open>result\<close> records state, live commit and causes, and derives the alert flag from
  the state; the branches are analysed once under that contract.
\<close>

locale reporter =
  fixes result :: "string \<Rightarrow> string option \<Rightarrow> string \<Rightarrow> string list \<Rightarrow> classification"
  assumes state [simp]: "cl_state (result s l r cs) = s"
    and live [simp]: "cl_live_commit (result s l r cs) = l"
    and alert [simp]: "cl_alert (result s l r cs) \<longleftrightarrow> s \<notin> set NON_ALERTING_STATES"
begin

lemma lag_live: "cl_live_commit (cl_lag result receipt now grace rs l t) = Some l"
  by (simp add: cl_lag_def Let_def split: option.split)

lemma lag_state: "cl_state (cl_lag result receipt now grace rs l t) \<in> {''invalid'', ''stale'', ''pending''}"
  by (simp add: cl_lag_def Let_def split: option.split)

lemma lag_alert:
  "cl_alert (cl_lag result receipt now grace rs l t) \<longleftrightarrow>
   cl_state (cl_lag result receipt now grace rs l t) \<notin> set NON_ALERTING_STATES"
  by (simp add: cl_lag_def Let_def split: option.split)

lemma lag_pending_iff:
  "cl_state (cl_lag result receipt now grace rs l t) = ''pending'' \<longleftrightarrow>
     revalidate_against receipt l = [] \<and> (\<exists>s. rs l t = Some s \<and> s \<le> now \<and> now < s + grace)"
  by (auto simp: cl_lag_def Let_def split: option.splits)

lemma classify_live_live:
  "cl_live_commit (classify_live result receipt e m now grace anc rs l) = Some l"
  by (simp add: classify_live_def Let_def lag_live split: json.split list.split)

lemma classify_live_alert:
  "cl_alert (classify_live result receipt e m now grace anc rs l) \<longleftrightarrow>
   cl_state (classify_live result receipt e m now grace anc rs l) \<notin> set NON_ALERTING_STATES"
  by (simp add: classify_live_def Let_def lag_alert split: json.split list.split)

lemma lag_state_ne:
  "cl_state (cl_lag result receipt now grace rs l t) \<noteq> ''current''"
  "cl_state (cl_lag result receipt now grace rs l t) \<noteq> ''superseded''"
  "cl_state (cl_lag result receipt now grace rs l t) \<noteq> ''divergent''"
  using lag_state [of receipt now grace rs l t] by auto

lemma classify_live_state:
  "cl_state (classify_live result receipt e m now grace anc rs l)
     \<in> {''current'', ''superseded'', ''pending'', ''stale'', ''divergent'', ''invalid''}"
  using lag_state [of receipt now grace rs l m] lag_state [of receipt now grace rs l e]
  by (auto simp: classify_live_def Let_def split: json.split list.split)

lemma classify_live_current_iff:
  "cl_state (classify_live result receipt e m now grace anc rs l) = ''current'' \<longleftrightarrow>
     l = e \<and> m = e \<and> jget receipt ''pass'' = JBool True \<and> proof_failures receipt e l = []"
  by (simp add: classify_live_def Let_def lag_state_ne split: json.split list.split)

lemma classify_live_superseded_iff:
  "cl_state (classify_live result receipt e m now grace anc rs l) = ''superseded'' \<longleftrightarrow>
     l \<noteq> e \<and> l = m \<and> anc e l = Some True \<and> anc l m = Some True \<and> revalidate_against receipt l = []"
  by (auto simp: classify_live_def Let_def lag_state_ne split: json.split list.split)

lemma classify_live_pending:
  assumes "cl_state (classify_live result receipt e m now grace anc rs l) = ''pending''"
  shows "revalidate_against receipt l = [] \<and>
    (\<exists>t s. t \<in> {e, m} \<and> anc l t = Some True \<and> rs l t = Some s \<and> s \<le> now \<and> now < s + grace)"
  using assms
  by (auto simp: classify_live_def Let_def lag_pending_iff split: json.splits list.splits if_splits)

end

interpretation rep: reporter "cl_result e m f a" for e m f a
  by unfold_locales (simp_all add: cl_result_def)

lemmas classify_live_facts =
  rep.classify_live_live rep.classify_live_alert rep.classify_live_state
  rep.classify_live_current_iff rep.classify_live_superseded_iff

lemma commit_or_none_Some: "commit_or_none v = Some s \<longleftrightarrow> v = JStr s \<and> is_commit_str s"
  by (auto simp: commit_or_none_def split: json.splits if_splits)

text \<open>The three ways through \<open>classify\<close>: no receipt, no single live commit, one live commit.\<close>

lemma classify_cases:
  obtains (none) "r = None"
      "classify r e m now g anc rs = cl_result e m None None ''monitor_failure'' None
         ''production live receipt is missing or unreadable'' []"
  | (split) receipt f a state reason causes where "r = Some receipt"
      "state \<in> {''outage'', ''divergent''}"
      "classify r e m now g anc rs = cl_result e m f a state None reason causes"
  | (live) receipt fd ad l where "r = Some receipt"
      "jget receipt ''frontend'' = JDict fd" "jget receipt ''api'' = JDict ad"
      "readback_failures fd ad = []" "jget fd ''commit'' = JStr l" "jget ad ''commit'' = JStr l"
      "is_commit_str l"
      "classify r e m now g anc rs =
         classify_live (cl_result e m (Some l) (Some l)) receipt e m now g anc rs l"
proof (cases r)
  case None
  with none show thesis by (simp add: classify_def)
next
  case (Some receipt)
  let ?fd = "as_dict (jget receipt ''frontend'')" and ?ad = "as_dict (jget receipt ''api'')"
  let ?fc = "commit_or_none (jget ?fd ''commit'')" and ?ac = "commit_or_none (jget ?ad ''commit'')"
  consider (bad) "readback_failures ?fd ?ad \<noteq> [] \<or> ?fc = None \<or> ?ac = None \<or> ?fc \<noteq> ?ac"
    | (one) l where "readback_failures ?fd ?ad = []" "?fc = Some l" "?ac = Some l"
    by (cases ?fc; cases ?ac) auto
  then show thesis
  proof cases
    case bad
    then consider (rb) "readback_failures ?fd ?ad \<noteq> []"
      | (sha) "readback_failures ?fd ?ad = []" "?fc = None \<or> ?ac = None"
      | (ne) fc ac where "readback_failures ?fd ?ad = []" "?fc = Some fc" "?ac = Some ac" "fc \<noteq> ac"
      by (cases ?fc; cases ?ac) auto
    then show thesis
    proof cases
      case rb
      show thesis
        by (rule split [OF Some, of "''outage''" ?fc ?ac]) (simp_all add: classify_def Some Let_def rb)
    next
      case sha
      show thesis
        by (rule split [OF Some, of "''divergent''" ?fc ?ac])
          (use sha in \<open>auto simp: classify_def Some Let_def split: option.splits\<close>)
    next
      case ne
      show thesis
        by (rule split [OF Some, of "''divergent''" ?fc ?ac]) (use ne in \<open>simp_all add: classify_def Some Let_def\<close>)
    qed
  next
    case (one l)
    then have "jget receipt ''frontend'' = JDict ?fd" "jget receipt ''api'' = JDict ?ad"
      by (cases "jget receipt ''frontend''"; cases "jget receipt ''api''"; simp add: commit_or_none_def)+
    moreover have "classify r e m now g anc rs =
        classify_live (cl_result e m (Some l) (Some l)) receipt e m now g anc rs l"
      using one Some by (simp add: classify_def Let_def)
    moreover from one(2,3) have "jget ?fd ''commit'' = JStr l" "jget ?ad ''commit'' = JStr l"
        "is_commit_str l"
      by (simp_all add: commit_or_none_Some)
    ultimately show thesis using live [OF Some, of ?fd ?ad l] one(1) by blast
  qed
qed

lemma revalidate_against_Nil:
  assumes "revalidate_against receipt c = []"
  obtains f a frontend api where "dict_get receipt ''frontend'' = Some f"
    "dict_get receipt ''api'' = Some a" "revalidate_endpoint f = Inr frontend"
    "revalidate_endpoint a = Inr api" "vr_pass (evaluate [] c frontend api)"
  using assms
  by (auto simp: revalidate_against_def require_key_def evaluate_pass bindE_def
      split: sum.splits option.splits)

subsection \<open>Concrete receipts\<close>

definition demo_tree :: "string \<Rightarrow> json" where
  "demo_tree c = JDict [(''schema_version'', JInt 1), (''sha256'', JStr (replicate 64 CHR ''0'')),
     (''file_count'', JInt 12), (''compile_revision'', JStr c), (''provenance'', JStr ''unattested''),
     (''error'', JNull)]"

definition demo_receipt :: "string \<Rightarrow> dict" where
  "demo_receipt c =
     [(''schema_version'', JInt 3), (''expected_commit'', JStr c), (''pass'', JBool True),
      (''reasons'', JList []),
      (''frontend'', JDict [(''url'', JStr ''f''), (''status'', JInt 200), (''commit'', JStr c),
         (''version'', JStr (take 8 c)), (''headers'', JDict [(''Cache-Control'', JStr ''no-store'')]),
         (''error'', JNull), (''artifact_tree'', demo_tree c)]),
      (''api'', JDict [(''url'', JStr ''a''), (''status'', JInt 200), (''commit'', JStr c),
         (''version'', JNull), (''headers'', JDict [(''X-Weltgewebe-Api-Build'', JStr c),
         (''x-weltgewebe-build'', JStr (take 8 c))]), (''error'', JNull)])]"

definition demo_commit' :: string where
  "demo_commit' = replicate 40 CHR ''b''"

lemma demo_current:
  "cl_state (classify (Some (demo_receipt demo_commit)) demo_commit demo_commit 0 0
     (\<lambda>_ _. None) (\<lambda>_ _. None)) = ''current''"
  by code_simp

lemma demo_superseded:
  "cl_state (classify (Some (demo_receipt demo_commit')) demo_commit demo_commit' 0 0
     (\<lambda>_ _. Some True) (\<lambda>_ _. None)) = ''superseded''"
  by code_simp

lemma demo_pending:
  "cl_state (classify (Some (demo_receipt demo_commit)) demo_commit demo_commit' 1300 1200
     (\<lambda>_ _. Some True) (\<lambda>_ _. Some 200)) = ''pending''"
  by code_simp

subsection \<open>Properties\<close>

definition ALL_STATES :: "string list" where
  "ALL_STATES = [''current'', ''superseded'', ''pending'', ''stale'', ''divergent'', ''invalid'',
     ''outage'', ''monitor_failure'']"

lemma cl_result_simps [simp]:
  "cl_state (cl_result e m f a s l r cs) = s"
  "cl_alert (cl_result e m f a s l r cs) \<longleftrightarrow> s \<notin> set NON_ALERTING_STATES"
  "cl_live_commit (cl_result e m f a s l r cs) = l"
  by (simp_all add: cl_result_def)

lemma classify_state_alert:
  "cl_state (classify r e m now g anc rs) \<in> set ALL_STATES
   \<and> (cl_alert (classify r e m now g anc rs) \<longleftrightarrow>
        cl_state (classify r e m now g anc rs) \<notin> set NON_ALERTING_STATES)"
proof (cases rule: classify_cases [of r e m now g anc rs])
  case (live receipt fd ad l)
  then show ?thesis
    using rep.classify_live_alert rep.classify_live_state [of e m "Some l" "Some l" receipt e m now g anc rs l]
    by (auto simp: ALL_STATES_def)
qed (auto simp: ALL_STATES_def)

lemma with_schaubild_state_alert:
  assumes "cl_state c \<in> set ALL_STATES" and "cl_alert c \<longleftrightarrow> cl_state c \<notin> set NON_ALERTING_STATES"
  shows "cl_state (with_schaubild c f) \<in> set ALL_STATES
   \<and> (cl_alert (with_schaubild c f) \<longleftrightarrow> cl_state (with_schaubild c f) \<notin> set NON_ALERTING_STATES)"
  using assms by (auto simp: with_schaubild_def ALL_STATES_def NON_ALERTING_STATES_def split: option.splits)

text \<open>
  C1. Recovery is never claimed without proof: \<open>current\<close> is reported only when the expected commit is
  main's head, both stored endpoints answered 200 with it, the receipt passed with no reasons, and
  re-evaluating the endpoints against this commit passes every release check.
\<close>

theorem classify_current_sound:
  assumes "cl_state (classify r e m now g anc rs) = ''current''"
  shows "m = e \<and> cl_live_commit (classify r e m now g anc rs) = Some e
    \<and> (\<exists>receipt fd ad frontend api. r = Some receipt \<and> jget receipt ''pass'' = JBool True
        \<and> jget receipt ''reasons'' = JList []
        \<and> jget receipt ''frontend'' = JDict fd \<and> jget receipt ''api'' = JDict ad
        \<and> readback_failures fd ad = []
        \<and> revalidate_endpoint (JDict fd) = Inr frontend \<and> revalidate_endpoint (JDict ad) = Inr api
        \<and> vr_pass (evaluate [] e frontend api))"
proof (cases rule: classify_cases [of r e m now g anc rs])
  case (live receipt fd ad l)
  with assms have cur: "l = e" "m = e" "jget receipt ''pass'' = JBool True"
      "proof_failures receipt e l = []"
    by (auto simp: rep.classify_live_current_iff)
  then have ra: "revalidate_against receipt e = []"
    and re: "py_eq (jget receipt ''reasons'') (JList [])"
    by (auto simp: proof_failures_def split: if_splits)
  from ra obtain f a frontend api where "dict_get receipt ''frontend'' = Some f"
      "dict_get receipt ''api'' = Some a" "revalidate_endpoint f = Inr frontend"
      "revalidate_endpoint a = Inr api" "vr_pass (evaluate [] e frontend api)"
    by (rule revalidate_against_Nil)
  moreover from re have "jget receipt ''reasons'' = JList []"
    by (cases "jget receipt ''reasons''") auto
  ultimately show ?thesis
    using live cur by (auto simp: rep.classify_live_live jget_def)
qed (use assms in auto)

theorem classify_current_sound_witness:
  "let c = classify (Some (demo_receipt demo_commit)) demo_commit demo_commit 0 0 (\<lambda>_ _. None) (\<lambda>_ _. None)
   in cl_state c = ''current'' \<and> cl_live_commit c = Some demo_commit"
  using classify_current_sound [OF demo_current] demo_current by (simp add: Let_def)

text \<open>
  \<open>superseded\<close> is reported only when main's head, a different commit that contains the expected
  one, is live on both endpoints and passes every release check of its own.
\<close>

theorem classify_superseded_sound:
  assumes "cl_state (classify r e m now g anc rs) = ''superseded''"
  shows "m \<noteq> e \<and> anc e m = Some True \<and> cl_live_commit (classify r e m now g anc rs) = Some m
    \<and> (\<exists>receipt f a frontend api. r = Some receipt
        \<and> dict_get receipt ''frontend'' = Some f \<and> dict_get receipt ''api'' = Some a
        \<and> revalidate_endpoint f = Inr frontend \<and> revalidate_endpoint a = Inr api
        \<and> vr_pass (evaluate [] m frontend api))"
proof (cases rule: classify_cases [of r e m now g anc rs])
  case (live receipt fd ad l)
  with assms have sup: "l \<noteq> e" "l = m" "anc e l = Some True" "revalidate_against receipt m = []"
    by (auto simp: rep.classify_live_superseded_iff)
  from sup(4) obtain f a frontend api where "dict_get receipt ''frontend'' = Some f"
      "dict_get receipt ''api'' = Some a" "revalidate_endpoint f = Inr frontend"
      "revalidate_endpoint a = Inr api" "vr_pass (evaluate [] m frontend api)"
    by (rule revalidate_against_Nil)
  with sup live show ?thesis by (auto simp: rep.classify_live_live)
qed (use assms in auto)

theorem classify_superseded_sound_witness:
  "let c = classify (Some (demo_receipt demo_commit')) demo_commit demo_commit' 0 0
             (\<lambda>_ _. Some True) (\<lambda>_ _. None)
   in cl_state c = ''superseded'' \<and> cl_live_commit c = Some demo_commit'"
  using classify_superseded_sound [OF demo_superseded] demo_superseded by (simp add: Let_def)

text \<open>
  C13. The grace period is bounded: \<open>pending\<close> is reported only while less than the grace period has
  passed since the first commit after the live one landed, never for a landing time in the future, and
  only when the live commit passes every release check.
\<close>

theorem classify_pending_bounded:
  assumes "cl_state (classify r e m now g anc rs) = ''pending''"
  shows "\<exists>receipt live target owed_since. r = Some receipt
    \<and> cl_live_commit (classify r e m now g anc rs) = Some live \<and> target \<in> {e, m}
    \<and> anc live target = Some True \<and> revalidate_against receipt live = []
    \<and> rs live target = Some owed_since \<and> owed_since \<le> now \<and> now < owed_since + g"
proof (cases rule: classify_cases [of r e m now g anc rs])
  case (live receipt fd ad l)
  with assms show ?thesis
    using rep.classify_live_pending [of e m "Some l" "Some l" receipt e m now g anc rs l]
    by (auto simp: rep.classify_live_live)
qed (use assms in auto)

theorem classify_pending_bounded_witness:
  "let c = classify (Some (demo_receipt demo_commit)) demo_commit demo_commit' 1300 1200
             (\<lambda>_ _. Some True) (\<lambda>_ _. Some 200)
   in cl_state c = ''pending'' \<and> (\<exists>owed_since. owed_since \<le> 1300 \<and> 1300 < owed_since + (1200::int))"
  using classify_pending_bounded [OF demo_pending] demo_pending by (auto simp: Let_def)

text \<open>
  The command exits with 0 exactly when its arguments are valid, the reported state is current,
  superseded or pending, and the Schaubild receipt, when one is given, is current with a full proof.
  It exits with 2 exactly on invalid arguments and with 1 on every alert.
\<close>

theorem classify_main_exit_code:
  "fst (classify_main git sha fromiso now e m g receipt_file sb) =
    (if \<not> (is_commit_str e \<and> is_commit_str m \<and> 0 \<le> g) then 2
     else if cl_state (classify (load_receipt receipt_file) e m now g (git_is_ancestor git)
               (git_rollout_start git)) \<in> {''current'', ''superseded'', ''pending''}
             \<and> (case sb of None \<Rightarrow> True | Some contents \<Rightarrow> schaubild_failure fromiso contents = None)
     then 0 else 1)"
proof -
  let ?c = "classify (load_receipt receipt_file) e m now g (git_is_ancestor git) (git_rollout_start git)"
  have "cl_alert ?c \<longleftrightarrow> cl_state ?c \<notin> {''current'', ''superseded'', ''pending''}"
    using classify_state_alert [of "load_receipt receipt_file" e m now g] by (simp add: NON_ALERTING_STATES_def)
  then show ?thesis
    by (auto simp: classify_main_def Let_def with_schaubild_def split: option.split)
qed

end
