(* ===== verification/Alert_Issue.thy ===== *)
theory Alert_Issue
  imports Live_State
begin

text \<open>
  \<open>src/scripts/ops/production_alert_issue.py\<close>: deliver a classification as one deduplicated GitHub
  issue.  \<open>reconcile\<close> and \<open>drill\<close> work through an issue client; \<open>gh_client\<close> is the code's own client
  on top of one HTTP request function (GitHub itself, a parameter), and \<open>fake_client\<close> the in-memory
  client of the repository's tests.

  An operation takes the world \<open>'w\<close> and returns the outcome and the new world, so that every request
  sent before an exception keeps its effect.  The locale \<open>issue_board\<close> states what \<open>reconcile\<close> needs
  of a client: which alerts are open, which comments they have, and how each operation changes that.
\<close>

definition ALERT_LABEL :: string where "ALERT_LABEL = ''production-alert''"
definition DRILL_LABEL :: string where "DRILL_LABEL = ''production-alert-drill''"
definition ALERT_BOT_LOGIN :: string where "ALERT_BOT_LOGIN = ''github-actions[bot]''"
definition ALERT_BOT_ID :: int where "ALERT_BOT_ID = 41898282"

definition ALERTING_STATES :: "string list" where
  "ALERTING_STATES = [''stale'', ''divergent'', ''invalid'', ''outage'', ''monitor_failure'']"

text \<open>\<open>HTTPErr\<close> and \<open>OSErr\<close> are OSErrors, \<open>ValueErr\<close> a ValueError; \<open>Uncaught\<close> is any other exception.\<close>

datatype client_error = HTTPErr int | OSErr string | ValueErr string | Uncaught string | OutOfFuel

fun is_os_or_value :: "client_error \<Rightarrow> bool" where
  "is_os_or_value (Uncaught _) = False"
| "is_os_or_value OutOfFuel = False"
| "is_os_or_value _ = True"

type_synonym ('w, 'a) io = "'w \<Rightarrow> (client_error + 'a) \<times> 'w"

definition returnS :: "'a \<Rightarrow> ('w, 'a) io" where
  "returnS x w = (Inr x, w)"

definition raiseS :: "client_error \<Rightarrow> ('w, 'a) io" where
  "raiseS e w = (Inl e, w)"

definition bindS :: "('w, 'a) io \<Rightarrow> ('a \<Rightarrow> ('w, 'b) io) \<Rightarrow> ('w, 'b) io" where
  "bindS m f w = (case m w of (Inl e, w') \<Rightarrow> (Inl e, w') | (Inr x, w') \<Rightarrow> f x w')"

text \<open>\<open>try: m except (OSError, ValueError): h\<close>.\<close>

definition catchS :: "('w, 'a) io \<Rightarrow> (client_error \<Rightarrow> ('w, 'a) io) \<Rightarrow> ('w, 'a) io" where
  "catchS m h w = (case m w of
      (Inl e, w') \<Rightarrow> if is_os_or_value e then h e w' else (Inl e, w')
    | (Inr x, w') \<Rightarrow> (Inr x, w'))"

record 'w issue_client =
  ic_open_issues :: "string \<Rightarrow> ('w, dict list) io"
  ic_ensure_assignee :: "dict \<Rightarrow> ('w, unit) io"
  ic_comments :: "json \<Rightarrow> ('w, json list) io"
  ic_create_issue :: "string \<Rightarrow> string \<Rightarrow> string \<Rightarrow> ('w, dict) io"
  ic_comment :: "json \<Rightarrow> string \<Rightarrow> ('w, unit) io"
  ic_close :: "json \<Rightarrow> ('w, unit) io"

definition marker :: "string \<Rightarrow> string" where
  "marker fp = ''<!-- production-alert-fingerprint: '' @ fp @ '' -->''"

definition details :: "dict \<Rightarrow> string \<Rightarrow> string" where
  "details c run_url = join NEWLINE
     [''- Zustand: `'' @ py_str (jget c ''state'') @ ''`'',
      ''- Grund: '' @ py_str (jget c ''reason''),
      ''- Erwarteter Commit: `'' @ py_str (jget c ''expected_commit'') @ ''`'',
      ''- Live-Commit: `'' @ py_str (jget c ''live_commit'') @ ''`'',
      ''- Frontend-Commit: `'' @ py_str (jget c ''frontend_commit'') @ ''`'',
      ''- API-Commit: `'' @ py_str (jget c ''api_commit'') @ ''`'',
      ''- main: `'' @ py_str (jget c ''main_commit'') @ ''`'',
      ''- Lauf: '' @ run_url]"

definition trusted_alert_author :: "dict \<Rightarrow> bool" where
  "trusted_alert_author entry =
     (case jget entry ''user'' of
        JDict user \<Rightarrow> py_eq (jget user ''id'') (JInt ALERT_BOT_ID)
                    \<and> py_eq (jget user ''login'') (JStr ALERT_BOT_LOGIN)
      | _ \<Rightarrow> False)"

text \<open>
  \<open>FINGERPRINT_RE.finditer\<close>: the groups of the matches of the marker pattern, left to right.  The
  group takes every character up to the next white space, which must begin the closing text.
\<close>

definition FP_PREFIX :: string where
  "FP_PREFIX = ''<!-- production-alert-fingerprint: ''"

definition fp_match :: "string \<Rightarrow> (string \<times> string) option" where
  "fp_match s =
     (if starts_with FP_PREFIX s
      then (let rest = drop (length FP_PREFIX) s;
                g = takeWhile (\<lambda>c. \<not> is_ws c) rest;
                after = dropWhile (\<lambda>c. \<not> is_ws c) rest
            in if g \<noteq> [] \<and> starts_with '' -->'' after then Some (g, drop 4 after) else None)
      else None)"

lemma fp_match_length: "fp_match s = Some (g, rest) \<Longrightarrow> length rest < length s"
proof -
  assume m: "fp_match s = Some (g, rest)"
  then obtain t where t: "s = FP_PREFIX @ t" "rest = drop 4 (dropWhile (\<lambda>c. \<not> is_ws c) t)"
    by (auto simp: fp_match_def Let_def starts_with_iff split: if_splits)
  have "length rest \<le> length t" unfolding t(2)
    using length_dropWhile_le [of "\<lambda>c. \<not> is_ws c" t] by simp
  then show ?thesis by (simp add: t(1) FP_PREFIX_def)
qed

function find_fps :: "string \<Rightarrow> string list" where
  "find_fps s =
     (case s of [] \<Rightarrow> []
      | c # cs \<Rightarrow> (case fp_match s of
                     Some (g, rest) \<Rightarrow> g # find_fps rest
                   | None \<Rightarrow> find_fps cs))"
  by pat_completeness auto
termination by (relation "measure length") (auto dest: fp_match_length)

declare find_fps.simps [simp del]

text \<open>\<open>entry.get("body") or ""\<close>; GitHub sends a string or null.\<close>

definition entry_body :: "dict \<Rightarrow> string" where
  "entry_body entry = (case jget entry ''body'' of JStr s \<Rightarrow> s | _ \<Rightarrow> [])"

definition latest_fingerprint :: "dict \<Rightarrow> json list \<Rightarrow> string option" where
  "latest_fingerprint issue comments =
     fold (\<lambda>entry fp. case entry of
         JDict d \<Rightarrow> if trusted_alert_author d
                    then (case find_fps (entry_body d) of [] \<Rightarrow> fp | gs \<Rightarrow> Some (last gs)) else fp
       | _ \<Rightarrow> fp)
       (JDict issue # comments) None"

definition monitor_failure :: "(string \<Rightarrow> string) \<Rightarrow> string \<Rightarrow> dict" where
  "monitor_failure sha256 reason =
     [(''state'', JStr ''monitor_failure''), (''alert'', JBool True), (''reason'', JStr reason),
      (''expected_commit'', JNull), (''main_commit'', JNull), (''live_commit'', JNull),
      (''fingerprint'', JStr (''monitor_failure:none#'' @ take 12 (sha256 reason)))]"

definition classification_fingerprint :: "dict \<Rightarrow> string" where
  "classification_fingerprint c =
     (if truthy (jget c ''fingerprint'') then py_str (jget c ''fingerprint'')
      else py_str (jget c ''state'') @ '':none'')"

definition issue_number :: "dict \<Rightarrow> ('w, json) io" where
  "issue_number issue = (case dict_get issue ''number'' of
      None \<Rightarrow> raiseS (Uncaught ''KeyError: number'') | Some n \<Rightarrow> returnS n)"

definition alert_text :: "dict \<Rightarrow> string \<Rightarrow> string" where
  "alert_text c run_url =
     ''Der Production-Live-Contract meldet einen Zustand, der Handeln braucht.'' @ NEWLINE @ NEWLINE
     @ details c run_url @ NEWLINE @ NEWLINE
     @ ''Dieses Issue wird geschlossen, sobald ein Lauf den aktuellen ''
     @ ''main-Stand wieder als live und konsistent nachweist.''"

definition change_text :: "dict \<Rightarrow> string \<Rightarrow> string" where
  "change_text c run_url =
     ''Der Alarm hat sich ge'' @ [CHR 0xE4] @ ''ndert.'' @ NEWLINE @ NEWLINE @ details c run_url"

definition with_marker :: "string \<Rightarrow> string \<Rightarrow> string" where
  "with_marker text fp = text @ NEWLINE @ NEWLINE @ marker fp"

definition recovery_body :: "dict \<Rightarrow> string \<Rightarrow> string" where
  "recovery_body c run_url =
     ''Erholt: Der aktuelle main-Stand ist wieder live und konsistent.'' @ NEWLINE @ NEWLINE
     @ details c run_url"

definition reconcile :: "'w issue_client \<Rightarrow> dict \<Rightarrow> string \<Rightarrow> ('w, string) io" where
  "reconcile client c run_url =
     bindS (ic_open_issues client ALERT_LABEL) (\<lambda>open_alerts.
     let state = jget c ''state'';
         issue = (case open_alerts of [] \<Rightarrow> None | i # _ \<Rightarrow> Some i)
     in
     if jget c ''alert'' = JBool True
     then (let fp = classification_fingerprint c in
           case issue of
             None \<Rightarrow>
               bindS (ic_create_issue client (''Produktionsalarm: '' @ py_str state)
                        (with_marker (alert_text c run_url) fp) ALERT_LABEL) (\<lambda>_. returnS ''opened'')
           | Some i \<Rightarrow>
               bindS (issue_number i) (\<lambda>n.
               bindS (ic_comments client n) (\<lambda>cs.
               let changed = (latest_fingerprint i cs \<noteq> Some fp) in
               bindS (if changed then ic_comment client n (with_marker (change_text c run_url) fp) else returnS ()) (\<lambda>_.
               bindS (ic_ensure_assignee client i) (\<lambda>_.
               returnS (if changed then ''updated'' else ''unchanged''))))))
     else (case issue of
             Some i \<Rightarrow>
               if py_eq state (JStr ''current'')
               then bindS (issue_number i) (\<lambda>n.
                    bindS (ic_comment client n (recovery_body c run_url)) (\<lambda>_.
                    bindS (ic_close client n) (\<lambda>_. returnS ''resolved'')))
               else bindS (ic_ensure_assignee client i) (\<lambda>_. returnS ''unchanged'')
           | None \<Rightarrow> returnS ''unchanged''))"

text \<open>\<open>drill\<close>: the \<open>finally\<close> closes the issue whatever the comment did, and its failure wins.\<close>

definition drill :: "'w issue_client \<Rightarrow> string \<Rightarrow> ('w, string) io" where
  "drill client run_url =
     bindS (ic_create_issue client ''Produktionsalarm-Probe''
       (''Kontrollierter Testalarm des Production-Live-Contracts. Wenn diese ''
        @ ''Meldung angekommen ist, funktioniert die Zustellung.'' @ NEWLINE @ NEWLINE @ ''- Lauf: '' @ run_url)
       DRILL_LABEL) (\<lambda>issue.
     (\<lambda>w. case bindS (issue_number issue)
               (\<lambda>n. ic_comment client n ''Probe beendet; das Issue wird geschlossen.'') w of
            (outcome, w') \<Rightarrow>
              (case bindS (issue_number issue) (ic_close client) w' of
                 (Inl e, w'') \<Rightarrow> (Inl e, w'')
               | (Inr _, w'') \<Rightarrow> (case outcome of Inl e \<Rightarrow> (Inl e, w'') | Inr _ \<Rightarrow> (Inr ''drill'', w'')))))"

definition no_space_text :: "json \<Rightarrow> bool" where
  "no_space_text v = (case v of JStr s \<Rightarrow> s \<noteq> [] \<and> list_all (\<lambda>c. \<not> is_ws c) s | _ \<Rightarrow> False)"

definition schema_problem :: "dict \<Rightarrow> string option" where
  "schema_problem payload =
     (let live = jget payload ''live_commit'' in
      if \<not> py_eq (jget payload ''schema_version'') (JInt 1)
      then Some (''schema_version '' @ py_repr (jget payload ''schema_version''))
      else if \<not> is_commit (jget payload ''expected_commit'')
      then Some ''expected_commit is not a full SHA''
      else if \<not> is_commit (jget payload ''main_commit'')
      then Some ''main_commit is not a full SHA''
      else if live \<noteq> JNull \<and> \<not> is_commit live
      then Some ''live_commit is neither null nor a full SHA''
      else if \<not> is_str (jget payload ''reason'') then Some ''reason is not a string''
      else if \<not> no_space_text (jget payload ''fingerprint'') then Some ''no usable fingerprint''
      else if py_eq (jget payload ''state'') (JStr ''current'')
              \<and> \<not> (py_eq live (jget payload ''expected_commit'')
                   \<and> py_eq (jget payload ''expected_commit'') (jget payload ''main_commit''))
      then Some ''current without the expected main head live''
      else None)"

text \<open>The argument is None without a path, else the decoded file or the text of the exception.\<close>

definition load_classification :: "(string \<Rightarrow> string) \<Rightarrow> (string + json) option \<Rightarrow> dict" where
  "load_classification sha256 file =
     (case file of
        None \<Rightarrow> monitor_failure sha256 ''no classification was produced''
      | Some (Inl exc) \<Rightarrow> monitor_failure sha256 (''classification is unreadable: '' @ exc)
      | Some (Inr contents) \<Rightarrow>
          (case contents of
             JDict payload \<Rightarrow>
               (case jget payload ''state'' of
                  JStr state \<Rightarrow>
                    (let alert = jget payload ''alert'' in
                     if state \<notin> set (ALERTING_STATES @ NON_ALERTING_STATES)
                     then monitor_failure sha256 (''classification has unknown state '' @ repr_str state)
                     else if alert \<noteq> JBool (state \<in> set ALERTING_STATES)
                     then monitor_failure sha256 (''classification alert flag '' @ py_repr alert
                            @ '' contradicts state '' @ repr_str state)
                     else (case schema_problem payload of
                             Some problem \<Rightarrow>
                               monitor_failure sha256 (''classification is malformed: '' @ problem)
                           | None \<Rightarrow> payload))
                | _ \<Rightarrow> monitor_failure sha256 ''classification has no state'')
           | _ \<Rightarrow> monitor_failure sha256 ''classification has no state''))"

subsection \<open>The GitHub client\<close>

text \<open>
  \<open>request w method path payload\<close> is one call of \<open>GitHubIssueClient._request\<close>: the decoded answer
  (None for an empty body is JNull) or the HTTP or transport error, and the changed server.
\<close>

type_synonym 'w gh_request = "string \<Rightarrow> string \<Rightarrow> json option \<Rightarrow> ('w, json) io"

definition repo_char :: "char \<Rightarrow> bool" where
  "repo_char c = (let n = of_char c :: nat in
     (65 \<le> n \<and> n \<le> 90) \<or> (97 \<le> n \<and> n \<le> 122) \<or> is_digit c \<or> c \<in> set ''_.-'')"

definition login_char :: "char \<Rightarrow> bool" where
  "login_char c = (let n = of_char c :: nat in
     (65 \<le> n \<and> n \<le> 90) \<or> (97 \<le> n \<and> n \<le> 122) \<or> is_digit c)"

definition gh_init :: "string \<Rightarrow> string option \<Rightarrow> client_error + string option" where
  "gh_init repository assignee =
     (if \<not> (case split_on CHR ''/'' repository of
              [a, b] \<Rightarrow> a \<noteq> [] \<and> b \<noteq> [] \<and> list_all repo_char a \<and> list_all repo_char b | _ \<Rightarrow> False)
      then Inl (ValueErr (''invalid repository '' @ repr_str repository))
      else if (case assignee of None \<Rightarrow> False
               | Some [] \<Rightarrow> True
               | Some (c # cs) \<Rightarrow> \<not> (login_char c \<and> length cs \<le> 38
                                    \<and> list_all (\<lambda>d. login_char d \<or> d = CHR ''-'') cs))
      then Inl (ValueErr ''invalid alert assignee'')
      else Inr assignee)"

definition gh_open_issues :: "'w gh_request \<Rightarrow> string \<Rightarrow> ('w, dict list) io" where
  "gh_open_issues request label =
     bindS (request ''GET'' (''/issues?state=open&labels='' @ label
              @ ''&sort=created&direction=asc&per_page=100'') None) (\<lambda>issues.
     (case issues of
        JList xs \<Rightarrow>
          if list_all is_dict xs
          then (let result = filter (\<lambda>i. ''pull_request'' \<notin> set (dict_keys i)) (map as_dict xs) in
                returnS (if label = ALERT_LABEL then filter trusted_alert_author result else result))
          else raiseS (Uncaught ''issue is not an object'')
      | _ \<Rightarrow> raiseS (Uncaught ''issues is not an array'')))"

definition gh_has_assignee :: "string option \<Rightarrow> dict \<Rightarrow> bool" where
  "gh_has_assignee assignee issue =
     (case assignee of
        None \<Rightarrow> False
      | Some login \<Rightarrow>
          (case jget issue ''assignees'' of
             JList accounts \<Rightarrow>
               list_ex (\<lambda>account. case account of
                   JDict a \<Rightarrow> (case jget a ''login'' of JStr s \<Rightarrow> casefold s = casefold login | _ \<Rightarrow> False)
                 | _ \<Rightarrow> False) accounts
           | _ \<Rightarrow> False))"

definition gh_require_assignee :: "string option \<Rightarrow> dict \<Rightarrow> ('w, unit) io" where
  "gh_require_assignee assignee issue =
     (if or_else assignee [] \<noteq> [] \<and> \<not> gh_has_assignee assignee issue
      then raiseS (ValueErr (''issue #'' @ py_str (jget issue ''number'') @ '' has no verified alert assignee''))
      else returnS ())"

definition gh_ensure_assignee :: "'w gh_request \<Rightarrow> string option \<Rightarrow> dict \<Rightarrow> ('w, unit) io" where
  "gh_ensure_assignee request assignee issue =
     (if or_else assignee [] = [] then raiseS (ValueErr ''production alert assignee is not configured'')
      else if gh_has_assignee assignee issue then returnS ()
      else (case jget issue ''number'' of
          JInt n \<Rightarrow>
            if n < 1 then raiseS (ValueErr ''alert issue has invalid number'')
            else bindS (request ''POST'' (''/issues/'' @ str_int n @ ''/assignees'')
                     (Some (JDict [(''assignees'', JList [JStr (or_else assignee [])])]))) (\<lambda>updated.
                 case updated of
                   JDict u \<Rightarrow> gh_require_assignee assignee u
                 | _ \<Rightarrow> raiseS (Uncaught ''issue is not an object''))
        | _ \<Rightarrow> raiseS (ValueErr ''alert issue has invalid number'')))"

text \<open>The paging loop of \<open>comments\<close>; each page costs one unit of fuel.\<close>

fun gh_comments_loop :: "nat \<Rightarrow> 'w gh_request \<Rightarrow> string \<Rightarrow> nat \<Rightarrow> json list \<Rightarrow> ('w, json list) io" where
  "gh_comments_loop 0 request number page acc = raiseS OutOfFuel"
| "gh_comments_loop (Suc fuel) request number page acc =
     bindS (request ''GET'' (''/issues/'' @ number @ ''/comments?per_page=100&page='' @ str_nat page) None)
       (\<lambda>batch. case (if truthy batch then batch else JList []) of
           JList b \<Rightarrow> if length b < 100 then returnS (acc @ b)
                      else gh_comments_loop fuel request number (page + 1) (acc @ b)
         | _ \<Rightarrow> raiseS (Uncaught ''comments is not an array''))"

definition gh_comments :: "nat \<Rightarrow> 'w gh_request \<Rightarrow> json \<Rightarrow> ('w, json list) io" where
  "gh_comments fuel request number = gh_comments_loop fuel request (py_str number) 1 []"

definition gh_ensure_label :: "'w gh_request \<Rightarrow> string \<Rightarrow> ('w, unit) io" where
  "gh_ensure_label request label =
     (\<lambda>w. case request ''POST'' ''/labels'' (Some (JDict [(''name'', JStr label), (''color'', JStr ''b60205'')])) w of
        (Inl e, w') \<Rightarrow> if e = HTTPErr 422 then (Inr (), w') else (Inl e, w')
      | (Inr _, w') \<Rightarrow> (Inr (), w'))"

definition gh_comment :: "'w gh_request \<Rightarrow> json \<Rightarrow> string \<Rightarrow> ('w, unit) io" where
  "gh_comment request number body =
     bindS (request ''POST'' (''/issues/'' @ py_str number @ ''/comments'') (Some (JDict [(''body'', JStr body)])))
       (\<lambda>_. returnS ())"

definition gh_close :: "'w gh_request \<Rightarrow> json \<Rightarrow> ('w, unit) io" where
  "gh_close request number =
     bindS (request ''PATCH'' (''/issues/'' @ py_str number)
        (Some (JDict [(''state'', JStr ''closed''), (''state_reason'', JStr ''completed'')])))
       (\<lambda>_. returnS ())"

definition has_label :: "string \<Rightarrow> dict \<Rightarrow> bool" where
  "has_label label issue =
     (case jget issue ''labels'' of
        JList items \<Rightarrow> list_ex (\<lambda>item. case item of JDict d \<Rightarrow> py_eq (jget d ''name'') (JStr label) | _ \<Rightarrow> False) items
      | _ \<Rightarrow> False)"

definition gh_create_issue ::
  "'w gh_request \<Rightarrow> string option \<Rightarrow> string \<Rightarrow> string \<Rightarrow> string \<Rightarrow> ('w, dict) io" where
  "gh_create_issue request assignee title body label =
     bindS (gh_ensure_label request label) (\<lambda>_.
     bindS (request ''POST'' ''/issues''
        (Some (JDict [(''title'', JStr title), (''body'', JStr body), (''labels'', JList [JStr label])]))) (\<lambda>created.
     (case created of
        JDict issue \<Rightarrow>
          bindS (catchS
            (if \<not> has_label label issue
             then raiseS (ValueErr (''issue #'' @ py_str (jget issue ''number'') @ '' was created without label ''
                                    @ repr_str label))
             else if or_else assignee [] \<noteq> [] then gh_ensure_assignee request assignee issue
             else returnS ())
            (\<lambda>exc.
              (case jget issue ''number'' of
                 JInt n \<Rightarrow>
                   if label = DRILL_LABEL \<and> 0 < n
                   then bindS (catchS (gh_close request (JInt n))
                          (\<lambda>_. raiseS (ValueErr (''drill issue #'' @ str_int n
                                  @ '' is unverified and could not be closed''))))
                          (\<lambda>_. raiseS exc)
                   else raiseS exc
               | _ \<Rightarrow> raiseS exc)))
            (\<lambda>_. returnS issue)
      | _ \<Rightarrow> raiseS (Uncaught ''issue is not an object''))))"

definition gh_client :: "nat \<Rightarrow> 'w gh_request \<Rightarrow> string option \<Rightarrow> 'w issue_client" where
  "gh_client fuel request assignee =
     \<lparr>ic_open_issues = gh_open_issues request,
      ic_ensure_assignee = gh_ensure_assignee request assignee,
      ic_comments = gh_comments fuel request,
      ic_create_issue = gh_create_issue request assignee,
      ic_comment = gh_comment request,
      ic_close = gh_close request\<rparr>"

text \<open>\<open>main\<close>: the exit code; None when an exception other than the caught ones escapes.\<close>

definition alert_main ::
  "nat \<Rightarrow> 'w gh_request \<Rightarrow> (string \<Rightarrow> string) \<Rightarrow> string \<Rightarrow> string \<Rightarrow> string \<Rightarrow> bool \<Rightarrow>
   (string + json) option \<Rightarrow> string \<Rightarrow> 'w \<Rightarrow> int option \<times> 'w" where
  "alert_main fuel request sha256 token repository assignee is_drill file run_url w =
     (if token = [] \<or> repository = [] \<or> assignee = [] then (Some 2, w)
      else (case gh_init repository (Some assignee) of
          Inl _ \<Rightarrow> (Some 1, w)
        | Inr a \<Rightarrow>
            (let client = gh_client fuel request a in
             case (if is_drill then drill client run_url w
                   else reconcile client (load_classification sha256 file) run_url w) of
               (Inr _, w') \<Rightarrow> (Some 0, w')
             | (Inl e, w') \<Rightarrow> (if is_os_or_value e then Some 1 else None, w'))))"

subsection \<open>The in-memory client of the tests\<close>

record fake_issue =
  fi_title :: string
  fi_body :: string
  fi_labels :: "string list"
  fi_open :: bool
  fi_comments :: "string list"

type_synonym fake_issues = "fake_issue list"

definition bot_user :: json where
  "bot_user = JDict [(''login'', JStr ALERT_BOT_LOGIN), (''id'', JInt ALERT_BOT_ID)]"

definition fake_dict :: "nat \<Rightarrow> fake_issue \<Rightarrow> dict" where
  "fake_dict n i = [(''number'', JInt (int n)), (''title'', JStr (fi_title i)), (''body'', JStr (fi_body i)),
     (''user'', bot_user)]"

definition fake_open_issues :: "string \<Rightarrow> (fake_issues, dict list) io" where
  "fake_open_issues label w =
     (Inr (map (\<lambda>(k, i). fake_dict (k + 1) i)
        (filter (\<lambda>(k, i). fi_open i \<and> label \<in> set (fi_labels i)) (enumerate 0 w))), w)"

definition fake_comments :: "json \<Rightarrow> (fake_issues, json list) io" where
  "fake_comments number w =
     (case number of
        JInt n \<Rightarrow> if 1 \<le> n \<and> nat n \<le> length w
                  then (Inr (map (\<lambda>b. JDict [(''body'', JStr b), (''user'', bot_user)])
                               (fi_comments (w ! (nat n - 1)))), w)
                  else (Inl (Uncaught ''IndexError''), w)
      | _ \<Rightarrow> (Inl (Uncaught ''TypeError''), w))"

definition fake_create_issue :: "string \<Rightarrow> string \<Rightarrow> string \<Rightarrow> (fake_issues, dict) io" where
  "fake_create_issue title body label w =
     (let i = \<lparr>fi_title = title, fi_body = body, fi_labels = [label], fi_open = True, fi_comments = []\<rparr>
      in (Inr (fake_dict (length w + 1) i), w @ [i]))"

definition fake_update :: "json \<Rightarrow> (fake_issue \<Rightarrow> fake_issue) \<Rightarrow> (fake_issues, unit) io" where
  "fake_update number f w =
     (case number of
        JInt n \<Rightarrow> if 1 \<le> n \<and> nat n \<le> length w then (Inr (), w[nat n - 1 := f (w ! (nat n - 1))])
                  else (Inl (Uncaught ''IndexError''), w)
      | _ \<Rightarrow> (Inl (Uncaught ''TypeError''), w))"

definition fake_client :: "fake_issues issue_client" where
  "fake_client =
     \<lparr>ic_open_issues = fake_open_issues,
      ic_ensure_assignee = (\<lambda>_. returnS ()),
      ic_comments = fake_comments,
      ic_create_issue = fake_create_issue,
      ic_comment = (\<lambda>n body. fake_update n (\<lambda>i. i\<lparr>fi_comments := fi_comments i @ [body]\<rparr>)),
      ic_close = (\<lambda>n. fake_update n (\<lambda>i. i\<lparr>fi_open := False\<rparr>))\<rparr>"

subsection \<open>Markers in texts\<close>

lemma NL_is_ws [simp]: "is_ws (CHR 0x0A)"
  by (simp add: is_ws_def)

definition clean_fp :: "string \<Rightarrow> bool" where
  "clean_fp fp = (fp \<noteq> [] \<and> list_all (\<lambda>c. \<not> is_ws c) fp)"

lemma clean_fpD: "clean_fp fp \<Longrightarrow> c \<in> set fp \<Longrightarrow> \<not> is_ws c"
  by (simp add: clean_fp_def list_all_iff)

lemma takeWhile_clean: "list_all (\<lambda>c. \<not> is_ws c) fp \<Longrightarrow>
  takeWhile (\<lambda>c. \<not> is_ws c) (fp @ CHR '' '' # t) = fp \<and>
  dropWhile (\<lambda>c. \<not> is_ws c) (fp @ CHR '' '' # t) = CHR '' '' # t"
  by (induction fp) (auto simp: is_ws_def)

lemma fp_match_marker: "clean_fp fp \<Longrightarrow> fp_match (marker fp @ t) = Some (fp, t)"
proof -
  assume c: "clean_fp fp"
  have m: "marker fp @ t = FP_PREFIX @ (fp @ CHR '' '' # ''-->'' @ t)"
    by (simp add: marker_def FP_PREFIX_def)
  from c have "takeWhile (\<lambda>c. \<not> is_ws c) (fp @ CHR '' '' # ''-->'' @ t) = fp"
    "dropWhile (\<lambda>c. \<not> is_ws c) (fp @ CHR '' '' # ''-->'' @ t) = CHR '' '' # ''-->'' @ t"
    using takeWhile_clean [of fp "''-->'' @ t"] by (auto simp: clean_fp_def)
  then show ?thesis using c
    by (simp add: m fp_match_def Let_def starts_with_iff clean_fp_def)
qed

lemma find_fps_marker: "clean_fp fp \<Longrightarrow> find_fps (marker fp) = [fp]"
  using fp_match_marker [of fp "[]"]
  by (subst find_fps.simps) (simp add: marker_def find_fps.simps [of "[]"])

text \<open>A match never crosses a line break, so the markers after one are found whatever precedes it.\<close>

lemma prefix_before_sep: "t @ u = a @ x # b \<Longrightarrow> x \<notin> set t \<Longrightarrow> \<exists>v. a = t @ v \<and> u = v @ x # b"
proof (induction t arbitrary: a)
  case (Cons c t)
  then show ?case by (cases a) auto
qed simp

lemma fp_match_split:
  assumes "fp_match (a @ CHR 0x0A # b) = Some (g, rest)"
  shows "\<exists>v. rest = v @ CHR 0x0A # b \<and> length v < length a"
proof -
  let ?P = "\<lambda>c. \<not> is_ws c"
  from assms obtain t where t: "a @ CHR 0x0A # b = FP_PREFIX @ t" and g: "g = takeWhile ?P t"
      and st: "starts_with '' -->'' (dropWhile ?P t)" and r: "rest = drop 4 (dropWhile ?P t)"
    by (auto simp: fp_match_def Let_def starts_with_iff [of FP_PREFIX] split: if_splits)
  from st have "dropWhile ?P t = '' -->'' @ rest"
    by (auto simp: starts_with_iff r)
  then have eq: "(FP_PREFIX @ g @ '' -->'') @ rest = a @ CHR 0x0A # b"
    using t g takeWhile_dropWhile_id [of ?P t] by simp
  have "CHR 0x0A \<notin> set g" unfolding g by (auto dest: set_takeWhileD)
  then have "CHR 0x0A \<notin> set (FP_PREFIX @ g @ '' -->'')" by (simp add: FP_PREFIX_def)
  from prefix_before_sep [OF eq this] obtain v where
    "a = (FP_PREFIX @ g @ '' -->'') @ v" "rest = v @ CHR 0x0A # b" by blast
  then show ?thesis by (auto simp: FP_PREFIX_def)
qed

lemma find_fps_after_break: "\<exists>xs. find_fps (a @ CHR 0x0A # b) = xs @ find_fps b"
proof (induction "length a" arbitrary: a rule: less_induct)
  case less
  show ?case
  proof (cases "fp_match (a @ CHR 0x0A # b)")
    case None
    then show ?thesis
    proof (cases a)
      case Nil
      with None have "find_fps (a @ CHR 0x0A # b) = find_fps b"
        by (subst find_fps.simps) simp
      then show ?thesis by auto
    next
      case (Cons c cs)
      with None have "find_fps (a @ CHR 0x0A # b) = find_fps (cs @ CHR 0x0A # b)"
        by (subst find_fps.simps) simp
      with less Cons show ?thesis by auto
    qed
  next
    case (Some gr)
    then obtain g rest where gr: "fp_match (a @ CHR 0x0A # b) = Some (g, rest)" by (cases gr) auto
    from fp_match_split [OF gr] obtain v where v: "rest = v @ CHR 0x0A # b" "length v < length a" by blast
    from gr have "find_fps (a @ CHR 0x0A # b) = g # find_fps rest"
      by (subst find_fps.simps) (cases "a @ CHR 0x0A # b", auto)
    with less [OF v(2)] v show ?thesis by (metis append_Cons)
  qed
qed

lemma with_marker_fps: "clean_fp fp \<Longrightarrow> \<exists>xs. find_fps (with_marker t fp) = xs @ [fp]"
  using find_fps_after_break [of "t @ NEWLINE" "marker fp"]
  by (simp add: with_marker_def NEWLINE_def find_fps_marker)

definition bot_comment :: "string \<Rightarrow> json" where
  "bot_comment body = JDict [(''body'', JStr body), (''user'', bot_user)]"

lemma trusted_bot [simp]:
  "trusted_alert_author [(''body'', JStr b), (''user'', bot_user)]"
  "trusted_alert_author (fake_dict n i)"
  by (simp_all add: trusted_alert_author_def bot_user_def fake_dict_def jget_def dict_get_def)

lemma latest_fingerprint_snoc:
  "find_fps body = xs @ [fp] \<Longrightarrow> latest_fingerprint i (cs @ [bot_comment body]) = Some fp"
  by (cases xs) (simp_all add: latest_fingerprint_def bot_comment_def entry_body_def jget_def dict_get_def)

lemma latest_fingerprint_issue:
  "trusted_alert_author i \<Longrightarrow> find_fps (entry_body i) = xs @ [fp] \<Longrightarrow> latest_fingerprint i [] = Some fp"
  by (cases xs) (simp_all add: latest_fingerprint_def)

text \<open>The fingerprint the first open alert shows last.\<close>

definition shown_fp :: "('w \<Rightarrow> dict list) \<Rightarrow> ('w \<Rightarrow> json \<Rightarrow> json list) \<Rightarrow> 'w \<Rightarrow> string option" where
  "shown_fp alerts cmts w = (case alerts w of [] \<Rightarrow> None
     | i # _ \<Rightarrow> (case dict_get i ''number'' of None \<Rightarrow> None | Some n \<Rightarrow> latest_fingerprint i (cmts w n)))"

subsection \<open>What \<open>reconcile\<close> needs of a client\<close>

locale issue_board =
  fixes client :: "'w issue_client"
    and alerts :: "'w \<Rightarrow> dict list"
    and cmts :: "'w \<Rightarrow> json \<Rightarrow> json list"
    and ok :: "'w \<Rightarrow> bool"
  assumes open_spec: "ok w \<Longrightarrow> ic_open_issues client ALERT_LABEL w = (Inr (alerts w), w)"
    and numbered: "ok w \<Longrightarrow> i \<in> set (alerts w) \<Longrightarrow> \<exists>n. dict_get i ''number'' = Some n"
    and comments_spec: "ok w \<Longrightarrow> i \<in> set (alerts w) \<Longrightarrow> dict_get i ''number'' = Some n \<Longrightarrow>
      ic_comments client n w = (Inr (cmts w n), w)"
    and comment_spec: "ok w \<Longrightarrow> i \<in> set (alerts w) \<Longrightarrow> dict_get i ''number'' = Some n \<Longrightarrow>
      \<exists>w'. ic_comment client n body w = (Inr (), w') \<and> ok w' \<and> alerts w' = alerts w
         \<and> cmts w' n = cmts w n @ [bot_comment body]"
    and assignee_spec: "ok w \<Longrightarrow> i \<in> set (alerts w) \<Longrightarrow>
      \<exists>w'. ic_ensure_assignee client i w = (Inr (), w') \<and> ok w' \<and> alerts w' = alerts w
         \<and> cmts w' = cmts w"
    and create_spec: "ok w \<Longrightarrow> alerts w = [] \<Longrightarrow>
      \<exists>i n w'. ic_create_issue client title body ALERT_LABEL w = (Inr i, w') \<and> ok w' \<and> alerts w' = [i]
         \<and> dict_get i ''number'' = Some n \<and> trusted_alert_author i \<and> entry_body i = body
         \<and> cmts w' n = []"
    and close_spec: "ok w \<Longrightarrow> i \<in> set (alerts w) \<Longrightarrow> dict_get i ''number'' = Some n \<Longrightarrow>
      \<exists>w'. ic_close client n w = (Inr (), w') \<and> ok w'
         \<and> alerts w' = filter (\<lambda>j. dict_get j ''number'' \<noteq> Some n) (alerts w)"
begin

lemma reconcile_open:
  assumes "ok w" and "jget c ''alert'' = JBool True" and "alerts w = []"
    and "clean_fp (classification_fingerprint c)"
  shows "\<exists>w'. reconcile client c url w = (Inr ''opened'', w') \<and> ok w' \<and> length (alerts w') = 1
    \<and> shown_fp alerts cmts w' = Some (classification_fingerprint c)"
proof -
  let ?fp = "classification_fingerprint c" and ?t = "''Produktionsalarm: '' @ py_str (jget c ''state'')"
  obtain i n w' where w': "ic_create_issue client ?t (with_marker (alert_text c url) ?fp) ALERT_LABEL w = (Inr i, w')"
      "ok w'" "alerts w' = [i]" "dict_get i ''number'' = Some n" "trusted_alert_author i"
      "entry_body i = with_marker (alert_text c url) ?fp" "cmts w' n = []"
    using create_spec [OF assms(1,3), of ?t "with_marker (alert_text c url) ?fp"] by blast
  have "latest_fingerprint i [] = Some ?fp"
    using with_marker_fps [OF assms(4), of "alert_text c url"] w'(5,6) latest_fingerprint_issue by metis
  then have "shown_fp alerts cmts w' = Some ?fp" using w' by (simp add: shown_fp_def)
  then show ?thesis using w' assms
    by (simp add: reconcile_def bindS_def returnS_def open_spec Let_def)
qed

lemma reconcile_repeat:
  assumes "ok w" and "jget c ''alert'' = JBool True" and "alerts w \<noteq> []"
    and clean: "clean_fp (classification_fingerprint c)"
  defines "changed \<equiv> shown_fp alerts cmts w \<noteq> Some (classification_fingerprint c)"
  shows "\<exists>w'. reconcile client c url w = (Inr (if changed then ''updated'' else ''unchanged''), w') \<and> ok w'
    \<and> alerts w' = alerts w \<and> shown_fp alerts cmts w' = Some (classification_fingerprint c)
    \<and> (\<not> changed \<longrightarrow> cmts w' = cmts w)"
proof -
  let ?fp = "classification_fingerprint c"
  from assms(3) obtain i js where al: "alerts w = i # js" by (cases "alerts w") auto
  then have i: "i \<in> set (alerts w)" by simp
  from numbered [OF assms(1) i] obtain n where n: "dict_get i ''number'' = Some n" by blast
  have ch: "changed \<longleftrightarrow> latest_fingerprint i (cmts w n) \<noteq> Some ?fp"
    by (simp add: changed_def shown_fp_def al n)
  have com: "ic_comments client n w = (Inr (cmts w n), w)"
    by (rule comments_spec [OF assms(1) i n])
  show ?thesis
  proof (cases changed)
    case True
    let ?b = "with_marker (change_text c url) ?fp"
    obtain w1 where w1: "ic_comment client n ?b w = (Inr (), w1)" "ok w1" "alerts w1 = alerts w"
        "cmts w1 n = cmts w n @ [bot_comment ?b]"
      using comment_spec [OF assms(1) i n] by blast
    obtain w2 where w2: "ic_ensure_assignee client i w1 = (Inr (), w2)" "ok w2" "alerts w2 = alerts w1"
        "cmts w2 = cmts w1"
      using assignee_spec [OF w1(2)] i w1(3) by auto
    obtain xs where "find_fps ?b = xs @ [?fp]" using with_marker_fps [OF clean] by blast
    then have "shown_fp alerts cmts w2 = Some ?fp"
      using w1 w2 al n by (simp add: shown_fp_def latest_fingerprint_snoc)
    then show ?thesis using True ch w1 w2 al n com assms
      by (simp add: reconcile_def bindS_def returnS_def open_spec Let_def issue_number_def)
  next
    case False
    obtain w2 where w2: "ic_ensure_assignee client i w = (Inr (), w2)" "ok w2" "alerts w2 = alerts w"
        "cmts w2 = cmts w"
      using assignee_spec [OF assms(1) i] by blast
    then have "shown_fp alerts cmts w2 = Some ?fp" using False al n ch by (simp add: shown_fp_def)
    then show ?thesis using False ch w2 al n com assms
      by (simp add: reconcile_def bindS_def returnS_def open_spec Let_def issue_number_def)
  qed
qed

lemma reconcile_alert:
  assumes "ok w" and "jget c ''alert'' = JBool True" and "clean_fp (classification_fingerprint c)"
  shows "\<exists>a w'. reconcile client c url w = (Inr a, w') \<and> ok w' \<and> alerts w' \<noteq> []
    \<and> length (alerts w') = max 1 (length (alerts w)) \<and> shown_fp alerts cmts w' = Some (classification_fingerprint c)"
proof (cases "alerts w = []")
  case True
  from reconcile_open [OF assms(1,2) True assms(3), of url] obtain w' where
    "reconcile client c url w = (Inr ''opened'', w')" "ok w'" "length (alerts w') = 1"
    "shown_fp alerts cmts w' = Some (classification_fingerprint c)" by blast
  then show ?thesis using True by (metis One_nat_def length_0_conv list.size(3) max_0R zero_neq_one)
next
  case False
  from reconcile_repeat [OF assms(1,2) False assms(3), of url] obtain a w' where
    w': "reconcile client c url w = (Inr a, w')" "ok w'" "alerts w' = alerts w"
    "shown_fp alerts cmts w' = Some (classification_fingerprint c)" by blast
  with False have "length (alerts w') = max 1 (length (alerts w))"
    by (cases "alerts w") auto
  with w' False show ?thesis by auto
qed

lemma reconcile_quiet:
  assumes "ok w" and "jget c ''alert'' \<noteq> JBool True" and "jget c ''state'' \<noteq> JStr ''current''"
  shows "\<exists>w'. reconcile client c url w = (Inr ''unchanged'', w') \<and> ok w' \<and> alerts w' = alerts w
    \<and> cmts w' = cmts w"
proof (cases "alerts w")
  case Nil
  then show ?thesis using assms by (simp add: reconcile_def bindS_def returnS_def open_spec Let_def)
next
  case (Cons i js)
  with assignee_spec [OF assms(1), of i] assms show ?thesis
    by (auto simp: reconcile_def bindS_def returnS_def open_spec Let_def)
qed

lemma reconcile_current:
  assumes "ok w" and "jget c ''alert'' \<noteq> JBool True" and "jget c ''state'' = JStr ''current''"
    and "alerts w = i # js" and "dict_get i ''number'' = Some n"
  shows "\<exists>w'. reconcile client c url w = (Inr ''resolved'', w') \<and> ok w'
    \<and> alerts w' = filter (\<lambda>j. dict_get j ''number'' \<noteq> Some n) js"
proof -
  have i: "i \<in> set (alerts w)" using assms(4) by simp
  obtain w1 where w1: "ic_comment client n (recovery_body c url) w = (Inr (), w1)" "ok w1" "alerts w1 = alerts w"
    using comment_spec [OF assms(1) i assms(5)] by blast
  obtain w2 where w2: "ic_close client n w1 = (Inr (), w2)" "ok w2"
      "alerts w2 = filter (\<lambda>j. dict_get j ''number'' \<noteq> Some n) (alerts w1)"
    using close_spec [OF w1(2), of i n] i w1(3) assms(5) by auto
  with w1 assms show ?thesis
    by (simp add: reconcile_def bindS_def returnS_def open_spec Let_def issue_number_def)
qed

end

subsection \<open>The test client keeps the contract\<close>

definition fake_alerts :: "fake_issues \<Rightarrow> dict list" where
  "fake_alerts w = map (\<lambda>(k, i). fake_dict (k + 1) i)
     (filter (\<lambda>(k, i). fi_open i \<and> ALERT_LABEL \<in> set (fi_labels i)) (enumerate 0 w))"

definition fake_cmts :: "fake_issues \<Rightarrow> json \<Rightarrow> json list" where
  "fake_cmts w n = (case n of
      JInt k \<Rightarrow> if 1 \<le> k \<and> nat k \<le> length w then map bot_comment (fi_comments (w ! (nat k - 1))) else []
    | _ \<Rightarrow> [])"

lemma fake_dict_number [simp]: "dict_get (fake_dict k i) ''number'' = Some (JInt (int k))"
  by (simp add: fake_dict_def dict_get_def)

lemma in_fake_alerts:
  "i \<in> set (fake_alerts w) \<longleftrightarrow> (\<exists>k < length w. i = fake_dict (k + 1) (w ! k) \<and> fi_open (w ! k)
     \<and> ALERT_LABEL \<in> set (fi_labels (w ! k)))"
  by (auto simp: fake_alerts_def in_set_enumerate_eq)

lemma fake_alerts_update:
  assumes "k < length w" and "\<And>n. fake_dict n (f (w ! k)) = fake_dict n (w ! k)"
    and "fi_open (f (w ! k)) = fi_open (w ! k)" and "fi_labels (f (w ! k)) = fi_labels (w ! k)"
  shows "fake_alerts (w[k := f (w ! k)]) = fake_alerts w"
proof -
  have e: "enumerate 0 (w[k := f (w ! k)]) = map (\<lambda>(j, i). (j, if j = k then f (w ! k) else i)) (enumerate 0 w)"
    by (rule nth_equalityI) (auto simp: nth_enumerate_eq nth_list_update)
  have "filter (\<lambda>(j, i). fi_open i \<and> ALERT_LABEL \<in> set (fi_labels i)) (enumerate 0 (w[k := f (w ! k)]))
      = map (\<lambda>(j, i). (j, if j = k then f (w ! k) else i))
          (filter (\<lambda>(j, i). fi_open i \<and> ALERT_LABEL \<in> set (fi_labels i)) (enumerate 0 w))"
    unfolding e filter_map using assms(3,4)
    by (intro arg_cong [where f = "map _"] filter_cong) (auto simp: in_set_enumerate_eq split: if_splits)
  then show ?thesis
    unfolding fake_alerts_def using assms(2)
    by (auto simp: in_set_enumerate_eq)
qed

lemma fake_alerts_close:
  assumes "k < length w"
  shows "fake_alerts (w[k := (w ! k)\<lparr>fi_open := False\<rparr>]) =
    filter (\<lambda>j. dict_get j ''number'' \<noteq> Some (JInt (int k + 1))) (fake_alerts w)"
proof -
  let ?g = "\<lambda>(j, i). (j, if j = k then (w ! k)\<lparr>fi_open := False\<rparr> else i)"
  let ?P = "\<lambda>(j, i). fi_open i \<and> ALERT_LABEL \<in> set (fi_labels i)"
  have e: "enumerate 0 (w[k := (w ! k)\<lparr>fi_open := False\<rparr>]) = map ?g (enumerate 0 w)"
    by (rule nth_equalityI) (auto simp: nth_enumerate_eq nth_list_update)
  have f: "filter (?P \<circ> ?g) (enumerate 0 w) = filter (\<lambda>x. fst x \<noteq> k) (filter ?P (enumerate 0 w))"
    unfolding filter_filter by (rule filter_cong) (auto simp: in_set_enumerate_eq split: if_splits)
  have "fake_alerts (w[k := (w ! k)\<lparr>fi_open := False\<rparr>]) =
      map (\<lambda>(j, i). fake_dict (j + 1) i) (filter (\<lambda>x. fst x \<noteq> k) (filter ?P (enumerate 0 w)))"
    unfolding fake_alerts_def e filter_map f by auto
  also have "\<dots> = filter (\<lambda>j. dict_get j ''number'' \<noteq> Some (JInt (int k + 1))) (fake_alerts w)"
    unfolding fake_alerts_def filter_map
    by (rule arg_cong [where f = "map _"], rule filter_cong) auto
  finally show ?thesis .
qed

lemma fake_alerts_create:
  "fake_alerts (w @ [\<lparr>fi_title = t, fi_body = b, fi_labels = [ALERT_LABEL], fi_open = True, fi_comments = []\<rparr>])
   = fake_alerts w @ [fake_dict (length w + 1)
       \<lparr>fi_title = t, fi_body = b, fi_labels = [ALERT_LABEL], fi_open = True, fi_comments = []\<rparr>]"
  by (simp add: fake_alerts_def enumerate_append_eq)

lemma fake_entry_body [simp]: "entry_body (fake_dict n i) = fi_body i"
  by (simp add: entry_body_def fake_dict_def jget_def dict_get_def)

interpretation fake: issue_board fake_client fake_alerts fake_cmts "\<lambda>_. True"
proof
  fix w :: fake_issues and i :: dict and n :: json and body :: string
  assume i: "i \<in> set (fake_alerts w)" and n: "dict_get i ''number'' = Some n"
  then obtain k where k: "k < length w" "n = JInt (int k + 1)"
    by (auto simp: in_fake_alerts)
  show "ic_comments fake_client n w = (Inr (fake_cmts w n), w)"
    using k by (simp add: fake_client_def fake_comments_def fake_cmts_def bot_comment_def nat_add_distrib)
  show "\<exists>w'. ic_comment fake_client n body w = (Inr (), w') \<and> True \<and> fake_alerts w' = fake_alerts w
      \<and> fake_cmts w' n = fake_cmts w n @ [bot_comment body]"
    using k fake_alerts_update [of k w "\<lambda>i. i\<lparr>fi_comments := fi_comments i @ [body]\<rparr>"]
    by (simp add: fake_client_def fake_update_def fake_cmts_def nat_add_distrib fake_dict_def)
  show "\<exists>w'. ic_close fake_client n w = (Inr (), w') \<and> True
      \<and> fake_alerts w' = filter (\<lambda>j. dict_get j ''number'' \<noteq> Some n) (fake_alerts w)"
    using k fake_alerts_close [of k w]
    by (simp add: fake_client_def fake_update_def nat_add_distrib)
next
  fix w :: fake_issues and title body :: string
  assume "fake_alerts w = []"
  then show "\<exists>i n w'. ic_create_issue fake_client title body ALERT_LABEL w = (Inr i, w') \<and> True
      \<and> fake_alerts w' = [i] \<and> dict_get i ''number'' = Some n \<and> trusted_alert_author i
      \<and> entry_body i = body \<and> fake_cmts w' n = []"
    by (simp add: fake_client_def fake_create_issue_def Let_def fake_alerts_create fake_cmts_def nat_add_distrib)
qed (auto simp: fake_client_def fake_open_issues_def fake_alerts_def in_set_enumerate_eq returnS_def)

subsection \<open>Properties\<close>


definition demo_alert :: dict where
  "demo_alert = [(''state'', JStr ''outage''), (''alert'', JBool True), (''fingerprint'', JStr ''outage:none'')]"

lemma demo_alert_facts: "jget demo_alert ''alert'' = JBool True"
  "classification_fingerprint demo_alert = ''outage:none''" "clean_fp ''outage:none''"
  by (simp_all add: demo_alert_def jget_def dict_get_def classification_fingerprint_def clean_fp_def is_ws_def)




text \<open>The documented paging of the comment list: page \<open>p\<close> holds comments \<open>100 (p - 1)\<close> and up.\<close>

definition serves_pages :: "'w gh_request \<Rightarrow> string \<Rightarrow> json list \<Rightarrow> bool" where
  "serves_pages request number cs =
     (\<forall>p w. 1 \<le> p \<longrightarrow>
        request ''GET'' (''/issues/'' @ number @ ''/comments?per_page=100&page='' @ str_nat p) None w =
          (Inr (JList (take 100 (drop (100 * (p - 1)) cs))), w))"

lemma gh_comments_loop_pages:
  assumes "serves_pages request number cs" and "1 \<le> p" and "length (drop (100 * (p - 1)) cs) < 100 * fuel"
  shows "gh_comments_loop fuel request number p acc w = (Inr (acc @ drop (100 * (p - 1)) cs), w)"
  using assms(2,3)
proof (induction fuel arbitrary: p acc)
  case (Suc fuel)
  let ?d = "drop (100 * (p - 1)) cs"
  have req: "request ''GET'' (''/issues/'' @ number @ ''/comments?per_page=100&page='' @ str_nat p) None w =
      (Inr (JList (take 100 ?d)), w)"
    using assms(1) Suc.prems(1) by (simp add: serves_pages_def)
  have sel: "(if truthy (JList xs) then JList xs else JList []) = JList xs" for xs by simp
  show ?case
  proof (cases "length ?d < 100")
    case True
    then show ?thesis using req by (simp add: bindS_def sel returnS_def del: truthy.simps)
  next
    case False
    have nx: "drop (100 * (p + 1 - 1)) cs = drop 100 ?d"
      using Suc.prems(1) by (cases p) (simp_all add: algebra_simps)
    have "gh_comments_loop fuel request number (p + 1) (acc @ take 100 ?d) w =
        (Inr ((acc @ take 100 ?d) @ drop 100 ?d), w)"
      using Suc.IH [of "p + 1" "acc @ take 100 ?d"] Suc.prems False by (simp only: nx) simp
    with False req show ?thesis by (simp add: bindS_def sel min_def del: truthy.simps drop_drop)
  qed
qed simp

text \<open>
  C22. Reading the comments follows every page and ends: against a server that pages as documented, fuel
  for one page more than the full ones suffices and the result is the whole comment list in order.
\<close>

theorem gh_comments_complete:
  assumes "serves_pages request (py_str number) cs" and "length cs div 100 < fuel"
  shows "gh_comments fuel request number w = (Inr cs, w)"
proof -
  have "length (drop (100 * (1 - 1)) cs) < 100 * fuel"
    using assms(2) by (simp add: div_less_iff_less_mult mult.commute)
  from gh_comments_loop_pages [OF assms(1) _ this, of "[]" w] show ?thesis
    by (simp add: gh_comments_def)
qed

lemma str_nat_one: "1 \<le> p \<Longrightarrow> str_nat p = ''1'' \<longleftrightarrow> p = 1"
proof (cases "p < 10")
  case True
  then have "p \<in> {0, 1, 2, 3, 4, 5, 6, 7, 8, 9}" by auto
  then show ?thesis by (auto simp: str_nat_def digits_nat.simps char_of_eq_iff)
next
  case False
  have "digits_nat (p div 10) \<noteq> []" by (subst digits_nat.simps) simp
  with False show ?thesis by (auto simp: str_nat_def digits_nat.simps [of p] append_eq_Cons_conv)
qed

theorem gh_comments_complete_witness:
  "gh_comments 1 (\<lambda>_ path _ w. (Inr (JList (if path = ''/issues/7/comments?per_page=100&page=1''
      then [bot_comment ''a'', bot_comment ''b''] else [])), w)) (JInt 7) (0::nat)
   = (Inr [bot_comment ''a'', bot_comment ''b''], 0)"
proof (rule gh_comments_complete)
  have "py_str (JInt 7) = ''7''" by (simp add: str_int_def digits_nat.simps char_of_eq_iff)
  then show "serves_pages (\<lambda>_ path _ w. (Inr (JList (if path = ''/issues/7/comments?per_page=100&page=1''
      then [bot_comment ''a'', bot_comment ''b''] else [])), w)) (py_str (JInt 7))
      [bot_comment ''a'', bot_comment ''b'']"
    by (auto simp: serves_pages_def str_nat_one)
qed simp

end
