(* ===== verification/Release_Pipeline.thy ===== *)
theory Release_Pipeline
  imports Release_Loop Alert_Issue
begin

text \<open>
  How the three release tools fit together: the receipt the verifier writes is read by the classifier,
  which parses the stored endpoints again, and the classification it writes is read by the alert issue
  tool, which refuses malformed ones.  The lemmas show that each reader accepts what its writer produces;
  the properties are in the root theory.
\<close>

subsection \<open>From the verifier to the classifier\<close>

lemma lower_char_idem: "lower_char (lower_char c) = lower_char c"
proof -
  define n where "n = (of_char c :: nat)"
  then have c: "c = char_of n" and n: "n < 256" by simp_all
  show ?thesis unfolding c using n by (auto simp: lower_char_def Let_def)
qed

lemma lower_idem [simp]: "lower (lower s) = lower s"
  by (simp add: lower_def lower_char_idem)

lemma normalize_headers_fold_lower:
  "(\<forall>k \<in> set (dict_keys d). lower k = k) \<Longrightarrow>
   k \<in> set (dict_keys (fold (\<lambda>(key, value) normalized. let k = lower key in
      dict_set normalized k (g normalized k value)) items d)) \<Longrightarrow> lower k = k"
proof (induction items arbitrary: d)
  case (Cons kv items)
  have "\<forall>k \<in> set (dict_keys (dict_set d (lower (fst kv)) (g d (lower (fst kv)) (snd kv)))). lower k = k"
    using Cons.prems(1) by (auto simp: dict_set_keys)
  from Cons.IH [OF this] Cons.prems(2) show ?case by (cases kv) (simp add: Let_def)
qed auto

lemma normalize_headers_lower: "k \<in> set (dict_keys (normalize_headers items)) \<Longrightarrow> lower k = k"
  unfolding normalize_headers_def
  by (rule normalize_headers_fold_lower [rotated]) (auto simp: dict_keys_def)

text \<open>What the reader gives back unchanged: lower-case distinct header names, an accepted or absent tree.\<close>

definition stored_headers :: "(string \<times> string) list \<Rightarrow> bool" where
  "stored_headers h = (distinct (dict_keys h) \<and> (\<forall>k \<in> set (dict_keys h). lower k = k))"

definition stored_tree :: "artifact_tree_result \<Rightarrow> bool" where
  "stored_tree t = (at_error t = None \<and> at_schema_version t = Some 1
     \<and> (\<exists>s. at_sha256 t = Some s \<and> is_sha256_str s)
     \<and> (\<exists>n. at_file_count t = Some n \<and> 1 \<le> n \<and> n \<le> MAX_SAFE_INTEGER)
     \<and> (\<exists>s. at_compile_revision t = Some s \<and> is_commit_str s)
     \<and> (\<exists>s. at_provenance t = Some s \<and> s \<noteq> []))"

lemma stored_headers_Nil: "stored_headers []"
  by (simp add: stored_headers_def dict_keys_def)

lemma stored_headers_normalized: "stored_headers (normalize_headers items)"
  unfolding stored_headers_def using normalize_headers_distinct normalize_headers_lower by blast

lemma fold_dict_set_fresh:
  "distinct (dict_keys acc @ dict_keys h) \<Longrightarrow> (\<forall>k \<in> set (dict_keys h). lower k = k) \<Longrightarrow>
   fold (\<lambda>(k, v) acc. dict_set acc (lower k) (py_str v)) (map (\<lambda>(k, v). (k, JStr v)) h) acc = acc @ h"
proof (induction h arbitrary: acc)
  case (Cons kv h)
  obtain k v where kv: "kv = (k, v)" by (cases kv)
  with Cons.prems have "k \<notin> set (dict_keys acc)" "lower k = k" by (auto simp: dict_keys_def)
  then have "dict_set acc (lower k) v = acc @ [(k, v)]" by (simp add: dict_set_fresh)
  with Cons kv show ?case by (simp add: dict_keys_def)
qed simp

lemma revalidate_headers_stored:
  "stored_headers h \<Longrightarrow> revalidate_headers (JDict (map (\<lambda>(k, v). (k, JStr v)) h)) = Inr h"
  using fold_dict_set_fresh [of "[]" h]
  by (cases h) (simp_all add: revalidate_headers_def stored_headers_def dict_keys_def)

lemma parse_artifact_tree_stored:
  assumes "parse_artifact_tree d = Some t" "at_error t = None" shows "stored_tree t"
proof (cases "dict_get d ''artifact_tree''")
  case (Some v)
  show ?thesis
  proof (cases v)
    case (JDict raw)
    have single: "(if c then [x] else []) = [] \<longleftrightarrow> \<not> c" for c and x :: string by simp
    have none: "(if c then Some x else None) = None \<longleftrightarrow> \<not> c" for c and x :: string by simp
    have holds: "(case o' of None \<Rightarrow> False | Some y \<Rightarrow> P y) \<longleftrightarrow> (\<exists>y. o' = Some y \<and> P y)"
      for o' and P :: "'a \<Rightarrow> bool" by (cases o') auto
    note t = assms(1) [unfolded parse_artifact_tree_def Some JDict option.case json.case Let_def option.inject]
    show ?thesis
      using assms(2) unfolding t [symmetric] stored_tree_def artifact_tree_result.select_convs
      by (simp only: none append_is_Nil_conv single holds not_not simp_thms)
  qed (use assms Some in \<open>auto simp: parse_artifact_tree_def\<close>)
qed (use assms in \<open>simp add: parse_artifact_tree_def\<close>)

lemma stored_tree_keys: "sorted_diff ARTIFACT_TREE_KEYS ARTIFACT_TREE_KEYS = []"
  by (simp add: sorted_diff_Nil)

lemma revalidate_tree_stored: "stored_tree t \<Longrightarrow> revalidate_tree (tree_as_dict t) = Inr (Some t)"
proof -
  assume t: "stored_tree t"
  then obtain s n c p where f: "at_schema_version t = Some 1" "at_sha256 t = Some s" "at_file_count t = Some n"
    "at_compile_revision t = Some c" "at_provenance t = Some p" "at_error t = None"
    and v: "is_sha256_str s" "1 \<le> n" "n \<le> MAX_SAFE_INTEGER" "is_commit_str c" "p \<noteq> []"
    by (auto simp: stored_tree_def)
  let ?raw = "[(''schema_version'', JInt 1), (''sha256'', JStr s), (''file_count'', JInt n),
      (''compile_revision'', JStr c), (''provenance'', JStr p)]"
  have "dict_keys ?raw = ARTIFACT_TREE_KEYS" by (simp add: dict_keys_def ARTIFACT_TREE_KEYS_def)
  then have "parse_artifact_tree [(''artifact_tree'', JDict ?raw)] = Some t"
    using f v by (cases t)
      (simp add: parse_artifact_tree_def dict_get_def jget_def stored_tree_keys Let_def)
  then show ?thesis
    by (simp add: revalidate_tree_def tree_as_dict_def opt_to_json_def f dict_get_def)
qed

definition stored_endpoint :: "endpoint_result \<Rightarrow> bool" where
  "stored_endpoint r = (stored_headers (er_headers r) \<and>
     (case er_artifact_tree r of None \<Rightarrow> True | Some t \<Rightarrow> stored_tree t))"

text \<open>Reading a stored endpoint back gives the endpoint.\<close>

lemma revalidate_endpoint_stored:
  assumes "stored_endpoint r" shows "revalidate_endpoint (endpoint_as_dict r) = Inr r"
proof -
  have "revalidate_tree (opt_to_json tree_as_dict (er_artifact_tree r)) = Inr (er_artifact_tree r)"
    using assms revalidate_tree_stored
    by (cases "er_artifact_tree r") (auto simp: stored_endpoint_def opt_to_json_def revalidate_tree_def)
  moreover have "revalidate_headers (JDict (map (\<lambda>(k, v). (k, JStr v)) (er_headers r))) = Inr (er_headers r)"
    using assms by (simp add: stored_endpoint_def revalidate_headers_stored)
  ultimately show ?thesis
    by (simp add: revalidate_endpoint_def endpoint_as_dict_def jget_def dict_get_def)
qed

lemma fetched_tree:
  "fetch_endpoint decode url timeout n outcome = Inr r \<Longrightarrow>
   er_artifact_tree r = None \<or> (\<exists>d. er_artifact_tree r = parse_artifact_tree d)"
  by (auto simp: fetch_endpoint_def plain_endpoint_def endpoint_of_payload_def Let_def
      split: if_splits http_outcome.splits sum.splits json.splits)

lemma error_text_nonempty:
  "list_all (\<lambda>x. x \<noteq> []) es \<Longrightarrow> (if es \<noteq> [] then Some (join ''; '' es) else None) \<noteq> Some []"
  by (cases es rule: remdups_adj.cases) auto

text \<open>The parser never leaves an empty error text.\<close>

lemma parse_artifact_tree_error: "parse_artifact_tree d = Some t \<Longrightarrow> at_error t \<noteq> Some []"
proof (cases "dict_get d ''artifact_tree''")
  case (Some v)
  have single: "list_all (\<lambda>x. x \<noteq> []) (if c then [x] else []) \<longleftrightarrow> (c \<longrightarrow> x \<noteq> [])" for c and x :: string by simp
  assume t: "parse_artifact_tree d = Some t"
  show ?thesis
  proof (cases v)
    case (JDict raw)
    note t' = t [unfolded parse_artifact_tree_def Some JDict option.case json.case Let_def option.inject]
    show ?thesis unfolding t' [symmetric] artifact_tree_result.select_convs
      by (rule error_text_nonempty) (simp only: list_all_append single, simp)
  qed (use t Some in \<open>auto simp: parse_artifact_tree_def\<close>)
qed (simp add: parse_artifact_tree_def)

lemma fetched_tree_error:
  assumes "fetch_endpoint decode url timeout n outcome = Inr r" "er_artifact_tree r = Some t"
  shows "at_error t \<noteq> Some []"
proof -
  have "er_artifact_tree r = None \<or> (\<exists>d. er_artifact_tree r = parse_artifact_tree d)"
    using assms(1) by (rule fetched_tree)
  with assms(2) obtain d where "parse_artifact_tree d = Some t" by auto
  then show ?thesis by (rule parse_artifact_tree_error)
qed

lemma fetch_endpoint_stored:
  assumes "fetch_endpoint decode url timeout n outcome = Inr r"
    and "case er_artifact_tree r of None \<Rightarrow> True | Some t \<Rightarrow> at_error t = None"
  shows "stored_endpoint r"
proof -
  have h: "stored_headers (er_headers r)"
    using assms(1)
    by (auto simp: fetch_endpoint_def plain_endpoint_def endpoint_of_payload_def Let_def stored_headers_Nil
        stored_headers_normalized split: if_splits http_outcome.splits sum.splits json.splits)
  have "er_artifact_tree r = None \<or> (\<exists>d. er_artifact_tree r = parse_artifact_tree d)"
    using assms(1) by (rule fetched_tree)
  with assms(2) h show ?thesis
    by (auto simp: stored_endpoint_def parse_artifact_tree_stored split: option.splits)
qed

lemma evaluate_fields [simp]:
  "vr_frontend (evaluate t e f a) = f" "vr_api (evaluate t e f a) = a" "vr_schema_version (evaluate t e f a) = 3"
  "vr_expected_commit (evaluate t e f a) = e"
  by (simp_all add: evaluate_def Let_def split: prod.split)

lemma result_as_json_get:
  "jget (result_as_json r) ''pass'' = JBool (vr_pass r)"
  "jget (result_as_json r) ''schema_version'' = JInt (vr_schema_version r)"
  "jget (result_as_json r) ''expected_commit'' = JStr (vr_expected_commit r)"
  "jget (result_as_json r) ''reasons'' = JList (map JStr (vr_reasons r))"
  "dict_get (result_as_json r) ''frontend'' = Some (endpoint_as_dict (vr_frontend r))"
  "dict_get (result_as_json r) ''api'' = Some (endpoint_as_dict (vr_api r))"
  by (simp_all add: result_as_json_def jget_def dict_get_def)

lemma endpoint_as_dict_get:
  "jget (as_dict (endpoint_as_dict r)) ''commit'' = er_commit r"
  "jget (as_dict (endpoint_as_dict r)) ''status'' = er_status r"
  "jget (as_dict (endpoint_as_dict r)) ''error'' = er_error r"
  by (simp_all add: endpoint_as_dict_def jget_def dict_get_def)

text \<open>Checking the stored receipt again gives the reasons of the first evaluation.\<close>

lemma revalidate_stored:
  assumes "stored_endpoint f" "stored_endpoint a"
  shows "revalidate_against (result_as_json (evaluate t e f a)) c = vr_reasons (evaluate [] c f a)"
  using assms by (simp add: revalidate_against_def require_key_def result_as_json_get revalidate_endpoint_stored)

lemma evaluate_reasons_time: "vr_reasons (evaluate t e f a) = vr_reasons (evaluate t' e f a)"
  by (simp add: evaluate_reasons)

lemma classify_passing_receipt:
  assumes stored: "stored_endpoint f" "stored_endpoint a" and pass: "vr_pass (evaluate t e f a)" and e: "is_commit_str e"
  shows "classify (Some (result_as_json (evaluate t e f a))) e e now grace anc rs =
    cl_result e e (Some e) (Some e) ''current'' (Some e) ''expected commit is live and consistent'' []"
proof -
  let ?r = "result_as_json (evaluate t e f a)"
  from pass have rs: "vr_reasons (evaluate t e f a) = []" by (simp add: evaluate_pass)
  then have parts: "endpoint_reasons e ''frontend'' f = []" "endpoint_reasons e ''api'' a = []"
    by (simp_all add: evaluate_reasons)
  have commits: "er_commit f = JStr e" "er_commit a = JStr e"
    and ok: "\<not> truthy (er_error f)" "\<not> truthy (er_error a)" "py_eq (er_status f) (JInt 200)" "py_eq (er_status a) (JInt 200)"
    using parts by (simp_all add: endpoint_reasons_Nil)
  have proof_ok: "proof_failures ?r e e = []"
    using rs evaluate_reasons_time [of t e f a "[]"]
    by (simp add: proof_failures_def result_as_json_get revalidate_stored [OF stored])
  have endpoints: "jget ?r ''frontend'' = endpoint_as_dict f" "jget ?r ''api'' = endpoint_as_dict a"
    by (simp_all add: jget_def result_as_json_get)
  have "readback_failures (as_dict (endpoint_as_dict f)) (as_dict (endpoint_as_dict a)) = []"
    using ok by (simp add: readback_failures_def endpoint_as_dict_get)
  moreover have "commit_or_none (JStr e) = Some e" using e by (simp add: commit_or_none_def)
  ultimately show ?thesis
    using proof_ok pass
    by (simp add: classify_def endpoints endpoint_as_dict_get commits classify_live_def Let_def result_as_json_get)
qed

subsection \<open>From the classifier to the alert issue\<close>

text \<open>What the loader requires of a classification.\<close>

definition classification_wf :: "classification \<Rightarrow> bool" where
  "classification_wf c = (cl_schema_version c = 1
     \<and> cl_state c \<in> set (ALERTING_STATES @ NON_ALERTING_STATES)
     \<and> (cl_alert c \<longleftrightarrow> cl_state c \<in> set ALERTING_STATES)
     \<and> is_commit_str (cl_expected_commit c) \<and> is_commit_str (cl_main_commit c)
     \<and> (\<forall>s \<in> {cl_live_commit c, cl_frontend_commit c, cl_api_commit c}.
           case s of None \<Rightarrow> True | Some x \<Rightarrow> is_commit_str x)
     \<and> (case cl_schaubild c of None \<Rightarrow> True | Some x \<Rightarrow> x \<in> {''also'', ''only''})
     \<and> (cl_state c = ''current'' \<longrightarrow>
          cl_live_commit c = Some (cl_expected_commit c) \<and> cl_expected_commit c = cl_main_commit c))"

definition no_space :: "string \<Rightarrow> bool" where
  "no_space s = list_all (\<lambda>c. \<not> is_ws c) s"

lemma no_space_append [simp]: "no_space (a @ b) \<longleftrightarrow> no_space a \<and> no_space b"
  by (simp add: no_space_def)

lemma no_space_Cons: "no_space (c # s) \<longleftrightarrow> \<not> is_ws c \<and> no_space s"
  by (simp add: no_space_def)

lemma no_space_Nil: "no_space []"
  by (simp add: no_space_def)

lemma no_space_take: "no_space s \<Longrightarrow> no_space (take n s)"
  by (auto simp: no_space_def list_all_iff dest: in_set_takeD)

lemma lower_hex_not_ws: "is_lower_hex c \<Longrightarrow> \<not> is_ws c"
  by (auto simp: is_lower_hex_def is_ws_def Let_def)

lemma no_space_commit: "is_commit_str s \<Longrightarrow> no_space s"
  by (auto simp: is_commit_str_def no_space_def list_all_iff lower_hex_not_ws)

lemma no_space_states: "list_all no_space (ALERTING_STATES @ NON_ALERTING_STATES)"
  "no_space ''none''" "no_space ''also''" "no_space ''only''" "no_space '':''" "no_space ''/''" "no_space ''#''"
  "no_space ''+schaubild-''"
  by code_simp+

lemma no_space_or_else:
  "(case s of None \<Rightarrow> True | Some x \<Rightarrow> is_commit_str x) \<Longrightarrow> no_space (or_else s ''none'')"
  using no_space_commit no_space_states(2) by (cases s) (simp_all add: or_else_def)

lemma fingerprint_no_space:
  assumes wf: "classification_wf c" and sha: "cl_causes c = [] \<or> (\<forall>x. no_space (sha256 x))"
  shows "no_space (fingerprint sha256 c) \<and> fingerprint sha256 c \<noteq> []"
proof -
  have st: "no_space (cl_state c)"
    using wf no_space_states(1) unfolding classification_wf_def list_all_iff by blast
  have o: "no_space (or_else (cl_live_commit c) ''none'')" "no_space (or_else (cl_frontend_commit c) ''none'')"
    "no_space (or_else (cl_api_commit c) ''none'')"
    using wf by (simp_all only: classification_wf_def ball_simps insert_iff no_space_or_else)
  have sb: "no_space x" if "cl_schaubild c = Some x" for x
    using wf that no_space_states(3,4) by (auto simp: classification_wf_def)
  have h: "no_space (take 12 (sha256 x))" if "cl_causes c \<noteq> []" for x
    using sha that by (simp add: no_space_take)
  show ?thesis
    unfolding fingerprint_def Let_def
    using st o h sb by (simp add: no_space_Cons no_space_Nil is_ws_def split: option.split)
qed

lemma payload_get:
  "jget (classification_payload sha256 c) ''state'' = JStr (cl_state c)"
  "jget (classification_payload sha256 c) ''alert'' = JBool (cl_alert c)"
  "jget (classification_payload sha256 c) ''schema_version'' = JInt (cl_schema_version c)"
  "jget (classification_payload sha256 c) ''expected_commit'' = JStr (cl_expected_commit c)"
  "jget (classification_payload sha256 c) ''main_commit'' = JStr (cl_main_commit c)"
  "jget (classification_payload sha256 c) ''live_commit'' = opt_json (cl_live_commit c)"
  "jget (classification_payload sha256 c) ''reason'' = JStr (cl_reason c)"
  "jget (classification_payload sha256 c) ''fingerprint'' = JStr (fingerprint sha256 c)"
  by (simp_all add: classification_payload_def jget_def dict_get_def)

lemma load_classification_payload:
  assumes wf: "classification_wf c" and sha: "cl_causes c = [] \<or> (\<forall>x. no_space (sha256 x))"
  shows "load_classification sha256 (Some (Inr (JDict (classification_payload sha256 c)))) = classification_payload sha256 c"
proof -
  have fp: "no_space_text (JStr (fingerprint sha256 c))"
    using fingerprint_no_space [OF assms] by (simp add: no_space_text_def no_space_def)
  have live: "opt_json (cl_live_commit c) = JNull \<or> is_commit (opt_json (cl_live_commit c))"
    using wf by (cases "cl_live_commit c") (simp_all add: classification_wf_def opt_json_def)
  have cur: "opt_json (cl_live_commit c) = JStr (cl_expected_commit c) \<and> cl_expected_commit c = cl_main_commit c"
    if "cl_state c = ''current''"
    using wf that by (simp add: classification_wf_def opt_json_def)
  have "schema_problem (classification_payload sha256 c) = None"
    using wf fp live cur unfolding schema_problem_def payload_get Let_def
    by (simp add: classification_wf_def)
  moreover have "cl_state c \<in> set (ALERTING_STATES @ NON_ALERTING_STATES)"
    "cl_alert c = (cl_state c \<in> set ALERTING_STATES)"
    using wf by (simp_all only: classification_wf_def)
  ultimately show ?thesis
    unfolding load_classification_def option.case sum.case json.case payload_get Let_def by simp
qed

text \<open>A property of every report of \<open>result\<close> is one of the classification.\<close>

lemma cl_lag_any:
  assumes P: "\<And>s l r cs. P (result s l r cs)"
  shows "P (cl_lag result receipt now g rs live target)"
  unfolding cl_lag_def Let_def by (simp only: P simp_thms split: if_split option.split)

lemma classify_live_any:
  assumes P: "\<And>s l r cs. P (result s l r cs)"
  shows "P (classify_live result receipt e m now g anc rs live)"
  unfolding classify_live_def Let_def
  by (simp only: P cl_lag_any [where P = P, OF P] simp_thms split: if_split)

definition classified :: "string \<Rightarrow> string \<Rightarrow> classification \<Rightarrow> bool" where
  "classified e m c = (cl_schema_version c = 1 \<and> cl_expected_commit c = e \<and> cl_main_commit c = m
     \<and> cl_schaubild c = None
     \<and> (\<forall>s \<in> {cl_frontend_commit c, cl_api_commit c}. case s of None \<Rightarrow> True | Some x \<Rightarrow> is_commit_str x))"

lemma classify_classified: "classified e m (classify r e m now g anc rs)"
proof -
  have base: "classified e m (cl_result e m (commit_or_none x) (commit_or_none y) s l r' cs)" for x y s l r' cs
    by (simp add: classified_def cl_result_def commit_or_none_Some split: option.split)
  have none: "classified e m (cl_result e m None None s l r' cs)" for s l r' cs
    by (simp add: classified_def cl_result_def)
  have live: "classified e m (classify_live (cl_result e m (commit_or_none x) (commit_or_none y)) rc e m now g anc rs l)"
    for x y rc l
    by (rule classify_live_any [where P = "classified e m"]) (rule base)
  show ?thesis
    unfolding classify_def Let_def
    by (simp only: base none live simp_thms split: option.split if_split prod.split)
qed

lemma classify_live_commit:
  "case cl_live_commit (classify r e m now g anc rs) of None \<Rightarrow> True | Some x \<Rightarrow> is_commit_str x"
  by (cases rule: classify_cases [of r e m now g anc rs]) (auto simp: rep.classify_live_live)

lemma classify_current_live:
  "cl_state (classify r e m now g anc rs) = ''current'' \<Longrightarrow> m = e \<and> cl_live_commit (classify r e m now g anc rs) = Some e"
  by (cases rule: classify_cases [of r e m now g anc rs])
    (auto simp: rep.classify_live_live rep.classify_live_current_iff)

lemma all_states: "set ALL_STATES = set (ALERTING_STATES @ NON_ALERTING_STATES)"
  "set ALERTING_STATES = set ALL_STATES - set NON_ALERTING_STATES"
  by code_simp+

lemma classify_wf:
  assumes "is_commit_str e" "is_commit_str m" shows "classification_wf (classify r e m now g anc rs)"
  using assms classify_classified [of e m r now g anc rs] classify_live_commit [of r e m now g anc rs]
    classify_current_live [of r e m now g anc rs] classify_state_alert [of r e m now g anc rs]
  unfolding classification_wf_def classified_def all_states by auto

lemma with_schaubild_wf: "classification_wf c \<Longrightarrow> classification_wf (with_schaubild c f)"
proof (cases f)
  case (Some x)
  assume wf: "classification_wf c"
  have "''invalid'' \<in> set ALERTING_STATES" by (simp add: ALERTING_STATES_def)
  with wf Some show ?thesis
    by (auto simp: classification_wf_def with_schaubild_def)
qed (simp add: with_schaubild_def)

lemma classify_main_payload:
  assumes "classify_main git sha256 fromiso now e m grace receipt_file schaubild_file = (code, Some payload)"
  shows "\<exists>c. payload = classification_payload sha256 c \<and> classification_wf c \<and> code = (if cl_alert c then 1 else 0)"
proof -
  have "is_commit_str e" "is_commit_str m"
    using assms by (auto simp: classify_main_def split: if_splits)
  then have wf: "classification_wf (classify (load_receipt receipt_file) e m now grace
      (git_is_ancestor git) (git_rollout_start git))" by (rule classify_wf)
  show ?thesis
    using assms wf with_schaubild_wf [OF wf]
    by (cases schaubild_file) (auto simp: classify_main_def Let_def split: if_splits)
qed

subsection \<open>The receipt of a successful run\<close>

text \<open>A run that exits with 0 ended with an attempt that passed, and its receipt is the last one stored.\<close>

lemma verify_loop_Exit_0:
  assumes ret: "verify_loop decode w args e deadline k receipts = Some (ExitCode 0, rs)"
  shows "rs \<noteq> [] \<and> (\<exists>j. attempt decode w args e j = Inr (last rs) \<and> vr_pass (last rs))"
proof -
  let ?P = "\<lambda>d w a e dl (k :: nat) (receipts :: verification_result list) res. fst res = ExitCode 0 \<longrightarrow>
      snd res \<noteq> [] \<and> (\<exists>j. attempt d w a e j = Inr (last (snd res)) \<and> vr_pass (last (snd res)))"
  have "?P decode w args e deadline k receipts (ExitCode 0, rs)"
  proof (rule verify_loop.raw_induct [where P = ?P, OF _ ret])
    fix f d w a e dl k receipts and res :: "exit_status \<times> verification_result list"
    assume IH: "\<And>d w a e dl k receipts res. f d w a e dl k receipts = Some res \<Longrightarrow> ?P d w a e dl k receipts res"
      and eq: "(case attempt d w a e k of Inl exc \<Rightarrow> Some (Raised exc, receipts)
         | Inr result \<Rightarrow> (case vw_store w k result of Some exc \<Rightarrow> Some (Raised exc, receipts)
            | None \<Rightarrow> if vr_pass result then Some (ExitCode 0, receipts @ [result])
                else if dl \<le> vw_clock w (k + 1) then Some (ExitCode 1, receipts @ [result])
                else f d w a e dl (k + 1) (receipts @ [result]))) = Some res"
    show "?P d w a e dl k receipts res"
      using eq IH by (auto split: sum.splits option.splits if_splits)
  qed
  then show ?thesis by simp
qed

end
