(* ===== verification/Repo_Paths.thy ===== *)
theory Repo_Paths
  imports Py_Base "HOL-Library.Sublist"
begin

text \<open>
  Text helpers of the agent guards: stripping, \<open>partition\<close>, word runs, and repository paths as segment
  lists.  The locale \<open>path_scope\<close> is the contract of a scope test, a function that decides whether a
  path lies in a declared scope: what it accepts extends the segments of the scope, so nothing beside the
  scope (\<open>docs_bad/x\<close> for the scope \<open>docs\<close>) is accepted.  The preflight guard and the handoff
  validator each provide one.
\<close>

text \<open>What reading a text file gives, and what \<open>argparse\<close> gives back.\<close>

datatype read_result = NotAFile | OSErr string | BadEncoding | Content string

datatype 'a parse_outcome = UsageError string | SystemExit "int option" | Parsed 'a

definition strip_by :: "(char \<Rightarrow> bool) \<Rightarrow> string \<Rightarrow> string" where
  "strip_by p s = rstrip_by p (dropWhile p s)"

definition slash :: char where
  "slash = CHR 0x2F"

text \<open>\<open>replace("\\", "/")\<close>.\<close>

definition slashes :: "string \<Rightarrow> string" where
  "slashes s = map (\<lambda>c. if c = CHR 0x5C then slash else c) s"

text \<open>\<open>partition\<close> at one character: the text before and after its first occurrence.\<close>

definition partition_at :: "char \<Rightarrow> string \<Rightarrow> string \<times> string" where
  "partition_at c s = (takeWhile (\<lambda>x. x \<noteq> c) s, drop 1 (dropWhile (\<lambda>x. x \<noteq> c) s))"

text \<open>\<open>\w\<close> of \<open>re\<close> on Latin-1.\<close>

definition is_word :: "char \<Rightarrow> bool" where
  "is_word c = (let n = of_char c :: nat in
     (48 \<le> n \<and> n \<le> 57) \<or> (65 \<le> n \<and> n \<le> 90) \<or> n = 95 \<or> (97 \<le> n \<and> n \<le> 122)
     \<or> n = 170 \<or> n = 178 \<or> n = 179 \<or> n = 181 \<or> n = 185 \<or> n = 186 \<or> (188 \<le> n \<and> n \<le> 190)
     \<or> (192 \<le> n \<and> n \<noteq> 215 \<and> n \<noteq> 247))"

text \<open>The maximal runs of word characters; \<open>\bw\b\<close> occurs in a text iff \<open>w\<close> is one of them.\<close>

fun word_runs_acc :: "string \<Rightarrow> string \<Rightarrow> string list" where
  "word_runs_acc w [] = (if w = [] then [] else [w])"
| "word_runs_acc w (x # xs) =
     (if is_word x then word_runs_acc (w @ [x]) xs
      else (if w = [] then [] else [w]) @ word_runs_acc [] xs)"

definition word_runs :: "string \<Rightarrow> string list" where
  "word_runs s = word_runs_acc [] s"

abbreviation segments :: "string \<Rightarrow> string list" where
  "segments s \<equiv> split_on slash s"

subsection \<open>Stripping\<close>

lemma rstrip_by_id: "(s \<noteq> [] \<Longrightarrow> \<not> p (last s)) \<Longrightarrow> rstrip_by p s = s"
  by (cases s rule: rev_cases) (simp_all add: rstrip_by_def)

lemma dropWhile_hd_id: "(s \<noteq> [] \<Longrightarrow> \<not> p (hd s)) \<Longrightarrow> dropWhile p s = s"
  by (cases s) simp_all

lemma rstrip_by_append_ws: "(\<forall>c \<in> set t. p c) \<Longrightarrow> rstrip_by p (s @ t) = rstrip_by p s"
  by (simp add: rstrip_by_def dropWhile_append)

text \<open>A text with no stripped character at either end.\<close>

definition trimmed :: "(char \<Rightarrow> bool) \<Rightarrow> string \<Rightarrow> bool" where
  "trimmed p s = (s = [] \<or> (\<not> p (hd s) \<and> \<not> p (last s)))"

lemma strip_by_trimmed: "trimmed p s \<Longrightarrow> strip_by p s = s"
  by (auto simp: trimmed_def strip_by_def rstrip_by_id dropWhile_hd_id)

lemma strip_trimmed: "trimmed is_ws s \<Longrightarrow> strip s = s"
  by (auto simp: trimmed_def strip_def lstrip_def rstrip_by_id dropWhile_hd_id)

lemma trimmed_rstrip: "rstrip_by p s = [] \<or> \<not> p (last (rstrip_by p s))"
  unfolding rstrip_by_def
  by (metis hd_dropWhile last_rev rev_is_Nil_conv)

lemma rstrip_by_prefix: "\<exists>t. s = rstrip_by p s @ t \<and> (\<forall>c \<in> set t. p c)"
proof -
  have "s = rev (dropWhile p (rev s)) @ rev (takeWhile p (rev s))"
    by (metis rev_append rev_rev_ident takeWhile_dropWhile_id)
  then show ?thesis unfolding rstrip_by_def by (metis set_rev set_takeWhileD)
qed

lemma strip_by_is_trimmed: "trimmed p (strip_by p s)"
proof (cases "strip_by p s = []")
  case False
  let ?d = "dropWhile p s"
  obtain t where t: "?d = strip_by p s @ t" using rstrip_by_prefix strip_by_def by metis
  with False have "hd ?d = hd (strip_by p s)" "?d \<noteq> []" by auto
  then show ?thesis unfolding trimmed_def
    using hd_dropWhile [of p s] trimmed_rstrip [of p ?d] False by (auto simp: strip_by_def)
qed (simp add: trimmed_def)

lemma strip_is_strip_by: "strip s = strip_by is_ws s"
  by (simp add: strip_def strip_by_def lstrip_def)

lemma strip_idem [simp]: "strip (strip s) = strip s"
  using strip_by_is_trimmed [of is_ws s] strip_trimmed by (simp add: strip_is_strip_by)

lemma partition_at_first:
  "c \<notin> set a \<Longrightarrow> partition_at c (a @ c # b) = (a, b)"
  by (simp add: partition_at_def takeWhile_append dropWhile_append)

subsection \<open>Segments\<close>

lemma split_on_append: "split_on c (a @ c # b) = split_on c a @ split_on c b"
proof (induction a)
  case (Cons x a)
  then show ?case by (cases "split_on c a") (auto split: list.split)
qed simp

lemma join_append: "xs \<noteq> [] \<Longrightarrow> ys \<noteq> [] \<Longrightarrow> join sep (xs @ ys) = join sep xs @ sep @ join sep ys"
proof (induction sep xs rule: join.induct)
  case (2 sep x)
  then show ?case by (cases ys) simp_all
qed simp_all

text \<open>The string test for a path below a prefix is the prefix order on segments.\<close>

lemma segments_prefix:
  "s = p \<or> starts_with (p @ [slash]) s \<longleftrightarrow> prefix (segments p) (segments s)"
proof
  assume "s = p \<or> starts_with (p @ [slash]) s"
  then show "prefix (segments p) (segments s)"
    by (auto simp: starts_with_iff split_on_append)
next
  assume "prefix (segments p) (segments s)"
  then obtain r where r: "segments s = segments p @ r" by (auto simp: prefix_def)
  show "s = p \<or> starts_with (p @ [slash]) s"
  proof (cases "r = []")
    case True
    with r have "segments s = segments p" by simp
    then have "s = p" using join_split_on by metis
    then show ?thesis by blast
  next
    case False
    have "s = join [slash] (segments p @ r)" using r join_split_on [of slash s] by simp
    also have "\<dots> = p @ [slash] @ join [slash] r"
      using False join_split_on [of slash p] by (simp add: join_append)
    finally show ?thesis by (auto simp: starts_with_iff)
  qed
qed

subsection \<open>Scope tests\<close>

locale path_scope =
  fixes in_scope :: "string \<Rightarrow> string \<Rightarrow> bool"
    and path_segments :: "string \<Rightarrow> string list"
    and scope_segments :: "string \<Rightarrow> string list"
  assumes in_scope_prefix: "in_scope path scope \<Longrightarrow> prefix (scope_segments scope) (path_segments path)"
    and scope_nonempty: "in_scope path scope \<Longrightarrow> scope_segments scope \<noteq> []"
begin

definition covered :: "string list \<Rightarrow> string \<Rightarrow> bool" where
  "covered scopes path = list_ex (in_scope path) scopes"

lemma covered_mono: "set scopes \<subseteq> set scopes' \<Longrightarrow> covered scopes path \<Longrightarrow> covered scopes' path"
  by (auto simp: covered_def list_ex_iff)

lemma covered_segments:
  "covered scopes path \<Longrightarrow> \<exists>scope \<in> set scopes. prefix (scope_segments scope) (path_segments path)"
  by (auto simp: covered_def list_ex_iff dest: in_scope_prefix)

text \<open>A path that starts with another segment than every scope is not covered.\<close>

lemma foreign_root:
  assumes "\<forall>scope \<in> set scopes. scope_segments scope \<noteq> [] \<longrightarrow> hd (scope_segments scope) \<noteq> hd (path_segments path)"
  shows "\<not> covered scopes path"
proof
  assume "covered scopes path"
  then obtain scope where "scope \<in> set scopes" and s: "in_scope path scope"
    by (auto simp: covered_def list_ex_iff)
  with assms scope_nonempty [OF s] in_scope_prefix [OF s] show False
    by (metis hd_append2 prefix_def)
qed

end

end
