(* ===== verification/Agent_Preflight.thy ===== *)
theory Agent_Preflight
  imports Repo_Paths
begin

text \<open>
  \<open>src/scripts/agent/check_agent_preflight.py\<close>: the safety preflight of agent tasks.  It parses the flat
  task file, checks the declared metadata and compares the changed and deleted paths with the declared
  scope.  The file system is a parameter \<open>files\<close> that gives the decoded text of a path or why there is
  none.  \<open>argparse\<close> is represented by its outcome.  A task is what \<open>_parse_simple_yaml\<close> returns: each
  value a string or a list of strings.
\<close>

datatype preflight_error = UnicodeDecodeErr string | FileErr string

datatype yaml_val = YStr string | YList "string list"

type_synonym task = "(string \<times> yaml_val) list"

type_synonym report = "(string \<times> string) list"

definition GENERATED_PREFIX :: string where
  "GENERATED_PREFIX = ''docs/_generated/''"

definition WORKFLOW_PREFIX :: string where
  "WORKFLOW_PREFIX = ''.github/workflows/''"

definition INFRA_PREFIXES :: "string list" where
  "INFRA_PREFIXES = [''infra/'', ''deployment/'']"

text \<open>\<open>^\s*-\s*\[x\]\<close>, ignoring case: the blanks are followed by other characters, so they are dropped
  greedily.\<close>

definition done_checkbox :: "string \<Rightarrow> bool" where
  "done_checkbox line =
     (case lstrip line of
        c # rest \<Rightarrow> c = CHR ''-'' \<and> starts_with ''[x]'' (lower (lstrip rest))
      | [] \<Rightarrow> False)"

text \<open>\<open>"?status"?\s*:\s*"?done"?\<close> at the start of a text; the outer quotes are optional and match the
  empty text.\<close>

definition skip_quote :: "string \<Rightarrow> string" where
  "skip_quote s = (case s of c # r \<Rightarrow> if c = CHR 0x22 then r else s | [] \<Rightarrow> [])"

definition done_status_at :: "string \<Rightarrow> bool" where
  "done_status_at s =
     (starts_with ''status'' s \<and>
      (case lstrip (skip_quote (drop 6 s)) of
         c # rest \<Rightarrow> c = CHR '':'' \<and> starts_with ''done'' (skip_quote (lstrip rest))
       | [] \<Rightarrow> False))"

fun done_status_in :: "string \<Rightarrow> bool" where
  "done_status_in [] = False"
| "done_status_in (x # xs) = (done_status_at (x # xs) \<or> done_status_in xs)"

definition done_status :: "string \<Rightarrow> bool" where
  "done_status line = done_status_in (lower line)"

definition done_claim_hint :: "string \<Rightarrow> bool" where
  "done_claim_hint text =
     list_ex (\<lambda>w. lower w \<in> {''proof_ref'', ''claim'', ''claim_ref'', ''evidence''}) (word_runs text)"

text \<open>\<open>^[A-Z]+(-[A-Z]+)*-[0-9]{3}$\<close> on a stripped text.\<close>

definition is_upper :: "char \<Rightarrow> bool" where
  "is_upper c = (let n = of_char c :: nat in 65 \<le> n \<and> n \<le> 90)"

definition task_id_match :: "string \<Rightarrow> bool" where
  "task_id_match s =
     (let parts = split_on CHR ''-'' s in
      length parts \<ge> 2
      \<and> list_all (\<lambda>p. p \<noteq> [] \<and> list_all is_upper p) (butlast parts)
      \<and> length (last parts) = 3 \<and> list_all is_digit (last parts))"

subsection \<open>The task file\<close>

definition is_quote :: "char \<Rightarrow> bool" where
  "is_quote c = (c = CHR 0x22 \<or> c = CHR 0x27)"

definition unquote :: "string \<Rightarrow> string" where
  "unquote s = strip_by is_quote s"

fun parse_line :: "task \<times> string option \<Rightarrow> string \<Rightarrow> task \<times> string option" where
  "parse_line (data, current_key) line =
     (let stripped = strip line in
      if stripped = [] \<or> starts_with ''#'' stripped then (data, current_key)
      else if starts_with '' '' line \<or> starts_with [CHR 0x09] line then
        (case current_key of
           Some k \<Rightarrow>
             if k \<noteq> [] \<and> starts_with ''- '' stripped then
               (case dict_get data k of
                  Some (YList xs) \<Rightarrow> (dict_set data k (YList (xs @ [unquote (strip (drop 2 stripped))])), current_key)
                | _ \<Rightarrow> (data, current_key))
             else (data, current_key)
         | None \<Rightarrow> (data, current_key))
      else if CHR '':'' \<in> set stripped then
        (let (raw_key, rest) = partition_at CHR '':'' stripped;
             key = strip raw_key; val_str = strip rest
         in if starts_with ''['' val_str \<and> ends_with '']'' val_str then
              (dict_set data key (YList (map (\<lambda>v. unquote (strip v))
                 (filter (\<lambda>v. strip v \<noteq> []) (split_on CHR '','' (butlast (drop 1 val_str)))))), None)
            else if val_str = [] then (dict_set data key (YList []), Some key)
            else (dict_set data key (YStr (unquote val_str)), None))
      else (data, current_key))"

definition front_matter :: "string list \<Rightarrow> string list" where
  "front_matter lines =
     (case lines of
        l # rest \<Rightarrow> if strip l = ''---'' then takeWhile (\<lambda>x. strip x \<noteq> ''---'') rest else lines
      | [] \<Rightarrow> [])"

definition parse_task_lines :: "string list \<Rightarrow> task" where
  "parse_task_lines lines = fst (foldl parse_line ([], None) (front_matter lines))"

text \<open>Reading in text mode turns \<open>\r\n\<close> and \<open>\r\<close> into \<open>\n\<close>.\<close>

fun universal_newlines :: "string \<Rightarrow> string" where
  "universal_newlines [] = []"
| "universal_newlines [x] = [if x = CHR 0x0D then CHR 0x0A else x]"
| "universal_newlines (x # y # xs) =
     (if x = CHR 0x0D
      then CHR 0x0A # (if y = CHR 0x0A then universal_newlines xs else universal_newlines (y # xs))
      else x # universal_newlines (y # xs))"

definition parse_simple_yaml :: "(string \<Rightarrow> read_result) \<Rightarrow> string \<Rightarrow> preflight_error + task" where
  "parse_simple_yaml files path =
     (case files path of
        Content raw \<Rightarrow> Inr (parse_task_lines (splitlines (universal_newlines raw)))
      | BadEncoding \<Rightarrow> Inl (UnicodeDecodeErr path)
      | _ \<Rightarrow> Inl (FileErr path))"

subsection \<open>The checks\<close>

definition yaml_truthy :: "yaml_val \<Rightarrow> bool" where
  "yaml_truthy v = (case v of YStr s \<Rightarrow> s \<noteq> [] | YList xs \<Rightarrow> xs \<noteq> [])"

definition yaml_text :: "yaml_val \<Rightarrow> string" where
  "yaml_text v = (case v of YStr s \<Rightarrow> s | YList xs \<Rightarrow> py_repr (JList (map JStr xs)))"

definition task_get :: "task \<Rightarrow> string \<Rightarrow> yaml_val \<Rightarrow> yaml_val" where
  "task_get t k d = (case dict_get t k of Some v \<Rightarrow> v | None \<Rightarrow> d)"

text \<open>\<open>bool(task.get(k))\<close>.\<close>

definition task_has :: "task \<Rightarrow> string \<Rightarrow> bool" where
  "task_has t k = (case dict_get t k of Some v \<Rightarrow> yaml_truthy v | None \<Rightarrow> False)"

definition item :: "string \<Rightarrow> string \<Rightarrow> report" where
  "item code message = [(''code'', code), (''message'', message)]"

definition item_at :: "string \<Rightarrow> string \<Rightarrow> string \<Rightarrow> report" where
  "item_at code message path = item code message @ [(''path'', path)]"

definition item_line :: "string \<Rightarrow> string \<Rightarrow> string \<Rightarrow> nat \<Rightarrow> report" where
  "item_line code message path lineno = item_at code message path @ [(''line'', str_nat lineno)]"

definition check_task_metadata :: "task \<Rightarrow> report list" where
  "check_task_metadata task =
     (case task_get task ''task_id'' (YStr []) of
        YStr s \<Rightarrow>
          if strip s = [] then [item ''MISSING_TASK_ID'' ''task_id fehlt oder ist leer'']
          else if \<not> task_id_match (strip s)
          then [item ''MISSING_TASK_ID'' (''task_id '' @ [CHR 0x27] @ s @ [CHR 0x27]
                  @ '' entspricht nicht dem erlaubten Format ([A-Z]+(-[A-Z]+)*-[0-9]{3})'')]
          else []
      | YList _ \<Rightarrow> [item ''MISSING_TASK_ID'' ''task_id fehlt oder ist leer''])
   @ (if task_has task ''task_type'' then []
      else [item ''MISSING_TASK_TYPE'' ''task_type fehlt oder ist leer''])
   @ (if task_has task ''allowed_paths'' then []
      else [item ''MISSING_ALLOWED_PATHS'' ''allowed_paths fehlt oder ist leer''])
   @ (if task_has task ''validation'' \<or> task_has task ''validation_commands'' then []
      else [item ''MISSING_VALIDATION'' (''Weder '' @ [CHR 0x27] @ ''validation'' @ [CHR 0x27] @ '' noch ''
              @ [CHR 0x27] @ ''validation_commands'' @ [CHR 0x27] @ '' vorhanden'')])
   @ (if task_has task ''expected_evidence'' \<or> task_has task ''evidence'' then []
      else [item ''MISSING_EXPECTED_EVIDENCE'' (''Weder '' @ [CHR 0x27] @ ''expected_evidence'' @ [CHR 0x27]
              @ '' noch '' @ [CHR 0x27] @ ''evidence'' @ [CHR 0x27] @ '' vorhanden'')])"

definition is_slash :: "char \<Rightarrow> bool" where
  "is_slash c = (c = slash)"

definition bare :: "string \<Rightarrow> string" where
  "bare path = strip_by is_slash (slashes path)"

definition is_under_allowed_path :: "string \<Rightarrow> string \<Rightarrow> bool" where
  "is_under_allowed_path path allowed =
     (let norm = bare path; pre = bare allowed in
      if pre = [] then False
      else norm = pre \<or> starts_with (pre @ [slash]) norm)"

definition check_path_scope :: "string list \<Rightarrow> string list \<Rightarrow> report list" where
  "check_path_scope changed_paths allowed_paths =
     (if allowed_paths = [] then []
      else map (\<lambda>path. item_at ''PATH_OUT_OF_SCOPE''
                 (''Pfad '' @ [CHR 0x27] @ path @ [CHR 0x27] @ '' liegt au'' @ [CHR 0xDF] @ ''erhalb von allowed_paths'') path)
        (filter (\<lambda>path. \<not> list_ex (is_under_allowed_path path) allowed_paths) changed_paths))"

definition check_generated_direct_edit :: "string list \<Rightarrow> report list" where
  "check_generated_direct_edit changed_paths =
     map (\<lambda>path. item_at ''GENERATED_DIRECT_EDIT''
            (''Direkte '' @ [CHR 0xC4] @ ''nderung an generiertem Artefakt '' @ [CHR 0x27] @ path @ [CHR 0x27]
             @ '' erkannt. docs/_generated/* darf nicht direkt editiert werden.'') path)
       (filter (\<lambda>path. starts_with GENERATED_PREFIX (slashes path)) changed_paths)"

text \<open>\<open>readlines\<close>: the lines with their line ends.\<close>

fun readlines_acc :: "string \<Rightarrow> string \<Rightarrow> string list" where
  "readlines_acc w [] = (if w = [] then [] else [w])"
| "readlines_acc w (x # xs) =
     (if x = CHR 0x0A then (w @ [x]) # readlines_acc [] xs else readlines_acc (w @ [x]) xs)"

definition readlines :: "string \<Rightarrow> string list" where
  "readlines raw = readlines_acc [] (universal_newlines raw)"

text \<open>The lines of a changed file: none when it is not a readable file, an error when it is not UTF-8.\<close>

definition lines_of :: "(string \<Rightarrow> read_result) \<Rightarrow> string \<Rightarrow> preflight_error + string list" where
  "lines_of files path =
     (case files path of
        Content raw \<Rightarrow> Inr (readlines raw)
      | BadEncoding \<Rightarrow> Inl (UnicodeDecodeErr path)
      | _ \<Rightarrow> Inr [])"

definition roadmap_line :: "string \<Rightarrow> nat \<times> string \<Rightarrow> report list" where
  "roadmap_line path nl =
     (let (lineno, line) = nl in
      if done_checkbox line \<and> \<not> done_claim_hint line
      then [item_line ''ROADMAP_DONE_WITHOUT_CLAIM''
             (''Roadmap-Haken '' @ [CHR 0x27] @ ''[x]'' @ [CHR 0x27] @ '' in '' @ [CHR 0x27] @ path @ [CHR 0x27] @ '':''
              @ str_nat lineno @ '' ohne Claim-/Proof-Bezug'') path lineno]
      else [])"

definition check_roadmap_done_without_claim ::
  "(string \<Rightarrow> read_result) \<Rightarrow> string list \<Rightarrow> preflight_error + report list" where
  "check_roadmap_done_without_claim files changed_paths =
     bindE (mapE (\<lambda>path.
       let norm = slashes path in
       if \<not> (starts_with ''docs/'' norm \<and> ends_with ''.md'' norm) then Inr []
       else bindE (lines_of files path) (\<lambda>ls. Inr (concat (map (roadmap_line path) (enumerate 1 ls)))))
       changed_paths) (\<lambda>fs. Inr (concat fs))"

text \<open>A \<open>status: done\<close> line without a hint in it or in the next line.\<close>

fun status_lines :: "string \<Rightarrow> nat \<Rightarrow> string list \<Rightarrow> report list" where
  "status_lines path lineno [] = []"
| "status_lines path lineno (line # rest) =
     (let ctx = line @ (case rest of next_line # _ \<Rightarrow> next_line | [] \<Rightarrow> []) in
      (if done_status line \<and> \<not> done_claim_hint ctx
       then [item_line ''STATUS_DONE_WITHOUT_PROOF''
              ([CHR 0x27] @ ''status: done'' @ [CHR 0x27] @ '' in '' @ [CHR 0x27] @ path @ [CHR 0x27] @ '':''
               @ str_nat lineno @ '' ohne proof_ref / Claim-Bezug'') path lineno]
       else []) @ status_lines path (lineno + 1) rest)"

definition check_status_done_without_proof ::
  "(string \<Rightarrow> read_result) \<Rightarrow> string list \<Rightarrow> preflight_error + report list" where
  "check_status_done_without_proof files changed_paths =
     bindE (mapE (\<lambda>path.
       let norm = slashes path in
       if \<not> list_ex (is_under_allowed_path norm) [''docs/tasks/'', ''docs/reports/''] then Inr []
       else if \<not> (ends_with ''.yaml'' norm \<or> ends_with ''.yml'' norm \<or> ends_with ''.json'' norm) then Inr []
       else bindE (lines_of files path) (\<lambda>ls. Inr (status_lines path 1 ls)))
       changed_paths) (\<lambda>fs. Inr (concat fs))"

definition check_workflow_change_task_type :: "string list \<Rightarrow> yaml_val \<Rightarrow> report list" where
  "check_workflow_change_task_type changed_paths task_type =
     (if list_ex (\<lambda>p. starts_with WORKFLOW_PREFIX (slashes p)) changed_paths \<and> task_type \<noteq> YStr ''ci_change''
      then [item ''WORKFLOW_CHANGE_WITHOUT_TASK_TYPE''
             ([CHR 0xC4] @ ''nderungen an .github/workflows/ erfordern task_type: ci_change, gefunden: ''
              @ [CHR 0x27] @ yaml_text task_type @ [CHR 0x27])]
      else [])"

definition check_infra_change_without_proof :: "string list \<Rightarrow> task \<Rightarrow> report list" where
  "check_infra_change_without_proof changed_paths task =
     (let infra_paths = filter (\<lambda>p. list_ex (\<lambda>pre. starts_with pre (slashes p)) INFRA_PREFIXES) changed_paths;
          task_type = task_get task ''task_type'' (YStr []);
          has_proof = task_has task ''proof_ref'' \<or> task_has task ''expected_evidence'' \<or> task_has task ''evidence''
      in if infra_paths = [] then []
         else if task_type \<notin> {YStr ''infra_change'', YStr ''deploy_change''} \<or> \<not> has_proof
         then map (\<lambda>path. item_at ''INFRA_CHANGE_WITHOUT_PROOF''
                (''Infra-/Deploy-Pfad '' @ [CHR 0x27] @ path @ [CHR 0x27] @ '' ge'' @ [CHR 0xE4] @ ''ndert, aber task_type (''
                 @ [CHR 0x27] @ yaml_text task_type @ [CHR 0x27] @ '') ist nicht '' @ [CHR 0x27] @ ''infra_change''
                 @ [CHR 0x27] @ ''/'' @ [CHR 0x27] @ ''deploy_change'' @ [CHR 0x27] @ '' oder proof/evidence fehlt'') path)
              infra_paths
         else [])"

definition delete_allowed :: "task \<Rightarrow> bool" where
  "delete_allowed task =
     (lower (yaml_text (task_get task ''delete_allowed'' (YStr ''false''))) \<in> {''true'', ''yes'', ''1''})"

definition check_delete_without_permission :: "string list \<Rightarrow> task \<Rightarrow> report list" where
  "check_delete_without_permission deleted_paths task =
     (if deleted_paths = [] then []
      else if \<not> delete_allowed task
      then map (\<lambda>path. item_at ''DELETE_WITHOUT_PERMISSION''
             (''L'' @ [CHR 0xF6] @ ''schung von '' @ [CHR 0x27] @ path @ [CHR 0x27]
              @ '' erkannt, aber delete_allowed ist nicht '' @ [CHR 0x27] @ ''true'' @ [CHR 0x27]) path) deleted_paths
      else [])"

definition scope_of :: "task \<Rightarrow> string list" where
  "scope_of task =
     (case task_get task ''allowed_paths'' (YList []) of YStr s \<Rightarrow> [s] | YList xs \<Rightarrow> xs)"

definition run_preflight ::
  "(string \<Rightarrow> read_result) \<Rightarrow> task \<Rightarrow> string list \<Rightarrow> string list \<Rightarrow> preflight_error + report list" where
  "run_preflight files task changed deleted =
     (let all_changed = changed @ deleted;
          task_type = (let v = task_get task ''task_type'' (YStr []) in if yaml_truthy v then v else YStr [])
      in
      bindE (check_roadmap_done_without_claim files changed) (\<lambda>roadmap.
      bindE (check_status_done_without_proof files changed) (\<lambda>status.
      Inr (check_task_metadata task
           @ check_path_scope all_changed (scope_of task)
           @ check_generated_direct_edit all_changed
           @ roadmap @ status
           @ check_workflow_change_task_type all_changed task_type
           @ check_infra_change_without_proof all_changed task
           @ check_delete_without_permission deleted task))))"

record preflight_args =
  pa_task_file :: string
  pa_changed_paths :: "string list"
  pa_deleted_paths :: "string list"
  pa_mode :: string

text \<open>The exit code and the findings that are printed.\<close>

definition preflight_main :: "(string \<Rightarrow> read_result) \<Rightarrow> preflight_args parse_outcome \<Rightarrow> preflight_error + int \<times> report list" where
  "preflight_main files outcome =
     (case outcome of
        UsageError _ \<Rightarrow> Inr (2, [])
      | SystemExit code \<Rightarrow> Inr (if code = Some 0 then 0 else 2, [])
      | Parsed args \<Rightarrow>
          if files (pa_task_file args) = NotAFile then Inr (2, [])
          else bindE (parse_simple_yaml files (pa_task_file args)) (\<lambda>task.
               bindE (run_preflight files task (pa_changed_paths args) (pa_deleted_paths args)) (\<lambda>findings.
               Inr (if pa_mode args = ''warn'' \<and> findings \<noteq> [] then 1 else 0, findings))))"

subsection \<open>The scope test\<close>

lemma is_under_iff:
  "is_under_allowed_path path allowed \<longleftrightarrow>
     bare allowed \<noteq> [] \<and> prefix (segments (bare allowed)) (segments (bare path))"
  by (simp add: is_under_allowed_path_def Let_def flip: segments_prefix)

interpretation preflight_scope: path_scope is_under_allowed_path "\<lambda>p. segments (bare p)" "\<lambda>s. segments (bare s)"
  by unfold_locales (simp_all add: is_under_iff)

lemma rstrip_by_keeps: "\<not> p c \<Longrightarrow> rstrip_by p (a @ c # b) = a @ c # rstrip_by p b"
  by (simp add: rstrip_by_def dropWhile_append)

lemma slashes_plain: "CHR 0x5C \<notin> set p \<Longrightarrow> slashes p = p"
  unfolding slashes_def by (rule map_idI) auto

lemma slashes_append [simp]: "slashes (a @ b) = slashes a @ slashes b"
  by (simp add: slashes_def)

lemma bare_plain: "CHR 0x5C \<notin> set p \<Longrightarrow> trimmed is_slash p \<Longrightarrow> bare p = p"
  by (simp add: bare_def slashes_plain strip_by_trimmed)

lemma bare_below:
  assumes "CHR 0x5C \<notin> set p" and "trimmed is_slash p" and "p \<noteq> []"
  shows "bare (p @ ''/../'' @ q) = p @ [slash] @ ''..'' @ rstrip_by is_slash (slashes (''/'' @ q))"
proof -
  have d: "dropWhile is_slash (p @ t) = p @ t" for t
    using assms(2,3) by (cases p) (auto simp: trimmed_def)
  have e: "slashes (p @ ''/../'' @ q) = (p @ [slash, CHR ''.'']) @ CHR ''.'' # slashes (''/'' @ q)"
    using slashes_plain [OF assms(1)] by (simp add: slashes_def slash_def)
  have "bare (p @ ''/../'' @ q) = rstrip_by is_slash ((p @ [slash, CHR ''.'']) @ CHR ''.'' # slashes (''/'' @ q))"
    unfolding bare_def strip_by_def e using d by simp
  also have "\<dots> = (p @ [slash, CHR ''.'']) @ CHR ''.'' # rstrip_by is_slash (slashes (''/'' @ q))"
    by (rule rstrip_by_keeps) (simp add: is_slash_def slash_def)
  finally show ?thesis by simp
qed

text \<open>
  The scope test is exact on path segments: a path is in the scope of an allowed entry precisely when
  the entry is not empty and its segments are a prefix of the segments of the path, so \<open>docs_bad/x\<close> is
  not in the scope of \<open>docs\<close>.
\<close>

theorem is_under_allowed_path_segments:
  "is_under_allowed_path path allowed \<longleftrightarrow>
     bare allowed \<noteq> [] \<and> (\<exists>below. segments (bare path) = segments (bare allowed) @ below)"
  by (simp add: is_under_iff prefix_def)

text \<open>
  C31. The scope check does not resolve parent segments: for every allowed entry \<open>p\<close>, a path that climbs
  out of it again, \<open>p/../q\<close>, raises no finding, whatever \<open>q\<close> is.
\<close>

theorem check_path_scope_misses_traversal:
  assumes "CHR 0x5C \<notin> set p" and "trimmed is_slash p" and "p \<noteq> []"
  shows "check_path_scope [p @ ''/../'' @ q] [p] = []"
proof -
  have "starts_with (p @ [slash]) (bare (p @ ''/../'' @ q))"
    unfolding bare_below [OF assms] by (auto simp: starts_with_iff)
  then show ?thesis
    using assms(3) by (simp add: check_path_scope_def is_under_allowed_path_def Let_def bare_plain [OF assms(1,2)])
qed

theorem check_path_scope_misses_traversal_witness:
  "check_path_scope [''docs'' @ ''/../'' @ ''.github/workflows/deploy.yml''] [''docs''] = []"
  by (rule check_path_scope_misses_traversal) (simp_all add: trimmed_def is_slash_def slash_def)

subsection \<open>What a clean preflight means\<close>

definition metadata_ok :: "task \<Rightarrow> bool" where
  "metadata_ok task =
     ((\<exists>s. task_get task ''task_id'' (YStr []) = YStr s \<and> strip s \<noteq> [] \<and> task_id_match (strip s))
      \<and> task_has task ''task_type'' \<and> task_has task ''allowed_paths''
      \<and> (task_has task ''validation'' \<or> task_has task ''validation_commands'')
      \<and> (task_has task ''expected_evidence'' \<or> task_has task ''evidence''))"

lemma check_task_metadata_Nil: "check_task_metadata task = [] \<longleftrightarrow> metadata_ok task"
  unfolding check_task_metadata_def metadata_ok_def by (auto split: yaml_val.splits)

lemma scope_of_nonempty: "metadata_ok task \<Longrightarrow> scope_of task \<noteq> []"
  by (auto simp: metadata_ok_def scope_of_def task_has_def task_get_def yaml_truthy_def
      split: option.splits yaml_val.splits)

lemma check_path_scope_Nil:
  "scopes \<noteq> [] \<Longrightarrow> check_path_scope paths scopes = [] \<longleftrightarrow> (\<forall>p \<in> set paths. preflight_scope.covered scopes p)"
  by (auto simp: check_path_scope_def preflight_scope.covered_def filter_empty_conv)

lemma concat_mapE_Nil:
  "bindE (mapE f xs) (\<lambda>fs. Inr (concat fs)) = Inr [] \<longleftrightarrow> (\<forall>x \<in> set xs. f x = Inr [])"
  by (induction xs) (auto simp: bindE_Inr_iff)

text \<open>Every ticked roadmap item of a changed Markdown document names its proof in the same line.\<close>

definition roadmap_ok :: "(string \<Rightarrow> read_result) \<Rightarrow> string \<Rightarrow> bool" where
  "roadmap_ok files path =
     (starts_with ''docs/'' (slashes path) \<and> ends_with ''.md'' (slashes path) \<longrightarrow>
      (case files path of
         BadEncoding \<Rightarrow> False
       | Content raw \<Rightarrow> \<forall>line \<in> set (readlines raw). done_checkbox line \<longrightarrow> done_claim_hint line
       | _ \<Rightarrow> True))"

lemma roadmap_lines_Nil:
  "concat (map (roadmap_line path) (enumerate n ls)) = [] \<longleftrightarrow>
     (\<forall>line \<in> set ls. done_checkbox line \<longrightarrow> done_claim_hint line)"
  by (induction ls arbitrary: n) (auto simp: roadmap_line_def)

lemma check_roadmap_Nil:
  "check_roadmap_done_without_claim files paths = Inr [] \<longleftrightarrow> (\<forall>p \<in> set paths. roadmap_ok files p)"
  unfolding check_roadmap_done_without_claim_def concat_mapE_Nil
  by (rule ball_cong)
    (auto simp: roadmap_ok_def lines_of_def Let_def roadmap_lines_Nil simp del: concat_eq_Nil_conv
      split: read_result.splits)

text \<open>Every \<open>status: done\<close> of a changed task or report file has its proof in that line or the next.\<close>

definition status_ok :: "(string \<Rightarrow> read_result) \<Rightarrow> string \<Rightarrow> bool" where
  "status_ok files path =
     (list_ex (is_under_allowed_path (slashes path)) [''docs/tasks/'', ''docs/reports/'']
      \<and> (ends_with ''.yaml'' (slashes path) \<or> ends_with ''.yml'' (slashes path) \<or> ends_with ''.json'' (slashes path)) \<longrightarrow>
      (case files path of
         BadEncoding \<Rightarrow> False
       | Content raw \<Rightarrow>
           let ls = readlines raw in
           \<forall>i < length ls. done_status (ls ! i) \<longrightarrow>
             done_claim_hint (ls ! i @ (if i + 1 < length ls then ls ! (i + 1) else []))
       | _ \<Rightarrow> True))"

lemma status_lines_Nil:
  "status_lines path n ls = [] \<longleftrightarrow>
     (\<forall>i < length ls. done_status (ls ! i) \<longrightarrow>
        done_claim_hint (ls ! i @ (if i + 1 < length ls then ls ! (i + 1) else [])))"
proof (induction ls arbitrary: n)
  case (Cons l ls)
  have "(case ls of m # _ \<Rightarrow> m | [] \<Rightarrow> []) = (if 0 < length ls then ls ! 0 else [])" by (cases ls) simp_all
  then show ?case using Cons [of "n + 1"]
    by (auto simp: Let_def All_less_Suc2)
qed simp

lemma check_status_Nil:
  "check_status_done_without_proof files paths = Inr [] \<longleftrightarrow> (\<forall>p \<in> set paths. status_ok files p)"
  unfolding check_status_done_without_proof_def concat_mapE_Nil
  by (rule ball_cong)
    (auto simp: status_ok_def lines_of_def Let_def status_lines_Nil split: read_result.splits)

definition infra_path :: "string \<Rightarrow> bool" where
  "infra_path p = list_ex (\<lambda>pre. starts_with pre (slashes p)) INFRA_PREFIXES"

lemma check_infra_Nil:
  "check_infra_change_without_proof paths task = [] \<longleftrightarrow>
     (\<exists>p \<in> set paths. infra_path p) \<longrightarrow>
       task_get task ''task_type'' (YStr []) \<in> {YStr ''infra_change'', YStr ''deploy_change''}
       \<and> (task_has task ''proof_ref'' \<or> task_has task ''expected_evidence'' \<or> task_has task ''evidence'')"
  by (auto simp: check_infra_change_without_proof_def Let_def filter_empty_conv infra_path_def)

lemma check_workflow_Nil:
  "check_workflow_change_task_type paths v = [] \<longleftrightarrow>
     (\<exists>p \<in> set paths. starts_with WORKFLOW_PREFIX (slashes p)) \<longrightarrow> v = YStr ''ci_change''"
  by (auto simp: check_workflow_change_task_type_def list_ex_iff)

text \<open>
  C29. A preflight without findings means what the guard promises, and conversely: the metadata are
  complete, every changed or deleted path is in the declared scope and outside the generated directory,
  ticked roadmap items and done statuses name their proof, workflow changes are declared as such, infra
  changes are declared and name a proof, and deletions are permitted.
\<close>

theorem run_preflight_clean_iff:
  "run_preflight files task changed deleted = Inr [] \<longleftrightarrow>
     metadata_ok task
     \<and> (\<forall>p \<in> set (changed @ deleted). preflight_scope.covered (scope_of task) p
          \<and> \<not> starts_with GENERATED_PREFIX (slashes p))
     \<and> (\<forall>p \<in> set changed. roadmap_ok files p \<and> status_ok files p)
     \<and> ((\<exists>p \<in> set (changed @ deleted). starts_with WORKFLOW_PREFIX (slashes p)) \<longrightarrow>
          task_get task ''task_type'' (YStr []) = YStr ''ci_change'')
     \<and> ((\<exists>p \<in> set (changed @ deleted). infra_path p) \<longrightarrow>
          task_get task ''task_type'' (YStr []) \<in> {YStr ''infra_change'', YStr ''deploy_change''})
     \<and> (deleted = [] \<or> delete_allowed task)"
    (is "?run \<longleftrightarrow> ?ok")
proof -
  define ty where "ty = (let v = task_get task ''task_type'' (YStr []) in if yaml_truthy v then v else YStr [])"
  have ty: "ty = YStr ''ci_change'' \<longleftrightarrow> task_get task ''task_type'' (YStr []) = YStr ''ci_change''"
    by (auto simp: ty_def Let_def yaml_truthy_def split: yaml_val.splits)
  have gen: "check_generated_direct_edit ps = [] \<longleftrightarrow> (\<forall>p \<in> set ps. \<not> starts_with GENERATED_PREFIX (slashes p))"
    for ps by (simp add: check_generated_direct_edit_def filter_empty_conv)
  have del: "check_delete_without_permission deleted task = [] \<longleftrightarrow> deleted = [] \<or> delete_allowed task"
    by (simp add: check_delete_without_permission_def)
  have ev: "metadata_ok task \<Longrightarrow> task_has task ''expected_evidence'' \<or> task_has task ''evidence''"
    by (simp add: metadata_ok_def)
  have "?run \<longleftrightarrow> check_task_metadata task = [] \<and> check_path_scope (changed @ deleted) (scope_of task) = []
      \<and> check_generated_direct_edit (changed @ deleted) = []
      \<and> check_roadmap_done_without_claim files changed = Inr []
      \<and> check_status_done_without_proof files changed = Inr []
      \<and> check_workflow_change_task_type (changed @ deleted) ty = []
      \<and> check_infra_change_without_proof (changed @ deleted) task = []
      \<and> check_delete_without_permission deleted task = []"
    unfolding run_preflight_def ty_def [symmetric] by (auto simp: bindE_Inr_iff Let_def)
  then show ?thesis
    unfolding check_task_metadata_Nil gen check_roadmap_Nil check_status_Nil check_workflow_Nil check_infra_Nil del ty
    using scope_of_nonempty check_path_scope_Nil ev by blast
qed

definition demo_task :: task where
  "demo_task = [(''task_id'', YStr ''AGENT-SAFE-001''), (''task_type'', YStr ''doc_change''),
     (''allowed_paths'', YList [''docs/'']), (''validation'', YStr ''make test''), (''evidence'', YList [''log''])]"

lemma demo_task_clean: "run_preflight (\<lambda>_. NotAFile) demo_task [''docs/a.md''] [] = Inr []"
  by code_simp

theorem run_preflight_clean_iff_witness:
  "preflight_scope.covered [''docs/''] ''docs/a.md'' \<and> metadata_ok demo_task"
  using demo_task_clean
  unfolding run_preflight_clean_iff by (simp add: scope_of_def task_get_def dict_get_def demo_task_def)

text \<open>
  The exit code of the preflight: 2 for a wrong call or a missing task file; with a readable task, 1
  exactly in warn mode with findings and otherwise 0, so report-only never fails on findings.
\<close>

theorem preflight_main_exit_code:
  "case preflight_main files outcome of
     Inl _ \<Rightarrow> (\<exists>args. outcome = Parsed args \<and> files (pa_task_file args) \<noteq> NotAFile)
   | Inr (code, findings) \<Rightarrow>
       code = (case outcome of
                 Parsed args \<Rightarrow> if files (pa_task_file args) = NotAFile then 2
                                else if pa_mode args = ''warn'' \<and> findings \<noteq> [] then 1 else 0
               | SystemExit c \<Rightarrow> if c = Some 0 then 0 else 2
               | UsageError _ \<Rightarrow> 2)"
  by (auto simp: preflight_main_def bindE_def split: parse_outcome.split sum.split)

subsection \<open>Reading back a written task file\<close>

text \<open>The flat form of the task files: scalars in one line, lists as indented items.\<close>

fun render_entry :: "string \<times> yaml_val \<Rightarrow> string list" where
  "render_entry (k, YStr s) = [k @ '': '' @ s]"
| "render_entry (k, YList xs) = (k @ '':'') # map (\<lambda>x. ''  - '' @ x) xs"

definition plain_key :: "string \<Rightarrow> bool" where
  "plain_key k = (k \<noteq> [] \<and> trimmed is_ws k \<and> CHR '':'' \<notin> set k \<and> hd k \<noteq> CHR ''#'')"

definition plain_text :: "string \<Rightarrow> bool" where
  "plain_text s = (s \<noteq> [] \<and> trimmed is_ws s \<and> trimmed is_quote s)"

fun plain_entry :: "string \<times> yaml_val \<Rightarrow> bool" where
  "plain_entry (k, YStr s) = (plain_key k \<and> plain_text s \<and> \<not> (starts_with ''['' s \<and> ends_with '']'' s))"
| "plain_entry (k, YList xs) = (plain_key k \<and> list_all plain_text xs)"

lemma strip_prefixed:
  assumes "plain_key k" and "t \<noteq> []" and "\<not> is_ws (last t)"
  shows "strip (k @ t) = k @ t"
  using assms by (intro strip_trimmed) (auto simp: trimmed_def plain_key_def)

lemma is_ws_facts [simp]: "\<not> is_ws CHR '':''" "is_ws CHR '' ''" "\<not> is_ws CHR ''-''"
  by (simp_all add: is_ws_def)

lemma unquote_plain: "plain_text s \<Longrightarrow> unquote s = s"
  by (simp add: unquote_def plain_text_def strip_by_trimmed)

lemma starts_with_hd: "starts_with [c] s \<longleftrightarrow> s \<noteq> [] \<and> hd s = c"
  by (cases s) (auto simp: starts_with_def)

lemma key_line:
  assumes "plain_key k"
  shows "starts_with ''#'' (k @ t) = False" "starts_with '' '' (k @ t) = False" "starts_with [CHR 0x09] (k @ t) = False"
  using assms by (auto simp: starts_with_hd plain_key_def trimmed_def is_ws_def)

lemma parse_scalar:
  assumes "plain_entry (k, YStr s)"
  shows "parse_line (data, ck) (k @ '': '' @ s) = (dict_set data k (YStr s), None)"
proof -
  from assms have k: "plain_key k" and s: "plain_text s" "\<not> (starts_with ''['' s \<and> ends_with '']'' s)" by simp_all
  have line: "strip (k @ '': '' @ s) = k @ '': '' @ s"
    using s by (intro strip_prefixed [OF k]) (auto simp: plain_text_def trimmed_def)
  have part: "partition_at CHR '':'' (k @ '': '' @ s) = (k, CHR '' '' # s)"
    using k by (simp add: partition_at_first plain_key_def)
  have v: "strip (CHR '' '' # s) = s"
    using s strip_trimmed [of s] by (simp add: strip_def lstrip_def plain_text_def)
  have "strip k = k" "s \<noteq> []" "unquote s = s"
    using k s by (auto simp: plain_key_def plain_text_def strip_trimmed unquote_plain)
  with s(2) show ?thesis
    using line part v key_line [OF k] by (auto simp: Let_def)
qed

lemma parse_list_key:
  assumes "plain_key k"
  shows "parse_line (data, ck) (k @ '':'') = (dict_set data k (YList []), Some k)"
proof -
  have line: "strip (k @ '':'') = k @ '':''" by (rule strip_prefixed [OF assms]) simp_all
  have part: "partition_at CHR '':'' (k @ '':'') = (k, [])"
    using assms partition_at_first [of _ k "[]"] by (simp add: plain_key_def)
  have "strip k = k" using assms by (simp add: plain_key_def strip_trimmed)
  moreover have "strip [] = []" by (simp add: strip_def lstrip_def rstrip_by_def)
  ultimately show ?thesis using starts_with_hd [of _ "[]"] by (simp add: line part key_line [OF assms] Let_def)
qed

lemma strip_item:
  assumes "plain_text x"
  shows "strip (''  - '' @ x) = ''- '' @ x"
proof -
  have "trimmed is_ws (''- '' @ x)" using assms by (auto simp: plain_text_def trimmed_def)
  from strip_trimmed [OF this] show ?thesis by (simp add: strip_def lstrip_def)
qed

lemma parse_item:
  assumes "plain_text x" and "k \<noteq> []" and "dict_get data k = Some (YList xs)"
  shows "parse_line (data, Some k) (''  - '' @ x) = (dict_set data k (YList (xs @ [x])), Some k)"
proof -
  note line = strip_item [OF assms(1)]
  have "strip x = x" using assms(1) by (simp add: plain_text_def strip_trimmed)
  then show ?thesis
    using assms line by (simp add: Let_def starts_with_def unquote_plain)
qed

lemma parse_items:
  assumes "list_all plain_text ys" and "k \<noteq> []" and "k \<notin> set (dict_keys d)"
  shows "foldl parse_line (d @ [(k, YList xs)], Some k) (map (\<lambda>x. ''  - '' @ x) ys) =
     (d @ [(k, YList (xs @ ys))], Some k)"
  using assms(1)
proof (induction ys arbitrary: xs)
  case (Cons y ys)
  have "parse_line (d @ [(k, YList xs)], Some k) (''  - '' @ y) = (d @ [(k, YList (xs @ [y]))], Some k)"
    using parse_item [of y k "d @ [(k, YList xs)]" xs] Cons.prems assms
    by (simp add: dict_get_last dict_set_last del: parse_line.simps)
  then show ?case using Cons by (simp del: parse_line.simps)
qed simp

lemma parse_entry:
  assumes "plain_entry e" and "fst e \<notin> set (dict_keys d)"
  shows "\<exists>ck'. foldl parse_line (d, ck) (render_entry e) = (d @ [e], ck')"
proof (cases e rule: render_entry.cases)
  case (1 k s)
  then show ?thesis using assms parse_scalar [of k s d ck]
    by (simp add: dict_set_fresh del: parse_line.simps)
next
  case (2 k xs)
  then have k: "plain_key k" "k \<noteq> []" "k \<notin> set (dict_keys d)" "list_all plain_text xs"
    using assms by (auto simp: plain_key_def)
  have "foldl parse_line (d, ck) (render_entry e) = (d @ [(k, YList ([] @ xs))], Some k)"
    unfolding 2 render_entry.simps foldl.simps parse_list_key [OF k(1)] dict_set_fresh [OF k(3)]
    by (rule parse_items [OF k(4,2,3)])
  with 2 show ?thesis by simp
qed

lemma parse_entries:
  assumes "list_all plain_entry t" and "distinct (dict_keys (d @ t))"
  shows "fst (foldl parse_line (d, ck) (concat (map render_entry t))) = d @ t"
  using assms
proof (induction t arbitrary: d ck)
  case (Cons e t)
  then obtain ck' where "foldl parse_line (d, ck) (render_entry e) = (d @ [e], ck')"
    using parse_entry [of e d ck] by (auto simp: dict_keys_def)
  with Cons show ?case by simp
qed simp

lemma render_not_rule:
  assumes "plain_entry e" and "l \<in> set (render_entry e)"
  shows "strip l \<noteq> ''---''"
proof (cases e rule: render_entry.cases)
  case (1 k s)
  then have "CHR '':'' \<in> set (strip l)"
    using assms strip_prefixed [of k "'': '' @ s"] by (auto simp: plain_text_def trimmed_def)
  then show ?thesis by auto
next
  case (2 k xs)
  show ?thesis
  proof (cases "l = k @ '':''")
    case True
    then have "CHR '':'' \<in> set (strip l)"
      using assms 2 strip_prefixed [of k "'':''"] by simp
    then show ?thesis by auto
  next
    case False
    then obtain x where "l = ''  - '' @ x" "plain_text x" using assms 2 by (auto simp: list_all_iff)
    then have "strip l = ''- '' @ x" by (simp only: strip_item)
    then show ?thesis by simp
  qed
qed

text \<open>
  The task file parser reads back what is written: for plain keys and texts, distinct keys and any
  text after the closing rule, parsing the framed rendering of a task gives that task, keys in order.
\<close>

theorem parse_task_lines_roundtrip:
  assumes "list_all plain_entry t" and "distinct (dict_keys t)"
  shows "parse_task_lines (''---'' # concat (map render_entry t) @ ''---'' # rest) = t"
proof -
  have rule: "strip ''---'' = ''---''" by (rule strip_trimmed) (simp add: trimmed_def)
  have "\<forall>l \<in> set (concat (map render_entry t)). strip l \<noteq> ''---''"
    using assms(1) render_not_rule by (auto simp: list_all_iff)
  then have "takeWhile (\<lambda>x. strip x \<noteq> ''---'') (concat (map render_entry t) @ ''---'' # rest)
      = concat (map render_entry t)"
    by (subst takeWhile_append2) (auto simp: rule)
  then show ?thesis
    using parse_entries [of t "[]" None] assms
    by (simp add: parse_task_lines_def front_matter_def rule)
qed

theorem parse_task_lines_roundtrip_witness:
  "parse_task_lines ([''---'', ''task_id: A-001'', ''allowed_paths:'', ''  - docs/'', ''---'', ''# text'']) =
     [(''task_id'', YStr ''A-001''), (''allowed_paths'', YList [''docs/''])]"
proof -
  let ?t = "[(''task_id'', YStr ''A-001''), (''allowed_paths'', YList [''docs/''])]"
  have "list_all plain_entry ?t" by code_simp
  moreover have "distinct (dict_keys ?t)" by (simp add: dict_keys_def)
  ultimately show ?thesis using parse_task_lines_roundtrip [of ?t "[''# text'']"] by simp
qed

end
