(* ===== verification/Json_Contract.thy ===== *)
theory Json_Contract
  imports Release_Verify
begin

text \<open>
  \<open>src/scripts/agent/json_contract.py\<close>: strict JSON loading and the Draft-07 subset validator of the
  agent contracts.  \<open>ensure_supported_schema\<close> rejects every schema construct the validator does not
  implement; \<open>validate_instance\<close> returns the sorted list of violations.

  Regular expressions are a parameter: \<open>re_compile p\<close> is None when the pattern \<open>p\<close> compiles, else the
  error text, and \<open>re_search p s\<close> whether \<open>p\<close> occurs in \<open>s\<close>.  The validator follows \<open>$ref\<close>, so its
  recursion need not end; the model counts recursion depth down and reports \<open>RecursionErr\<close> when it is
  used up, as Python does at its recursion limit.
\<close>

definition ANNOTATION_KEYS :: "string list" where
  "ANNOTATION_KEYS = [''$schema'', ''$id'', ''title'', ''description'', ''default'', ''examples'']"

definition ASSERTION_KEYS :: "string list" where
  "ASSERTION_KEYS = [''$ref'', ''allOf'', ''type'', ''required'', ''additionalProperties'', ''properties'',
     ''definitions'', ''enum'', ''minLength'', ''maxLength'', ''pattern'', ''minItems'', ''maxItems'',
     ''uniqueItems'', ''items'', ''additionalItems'']"

definition SUPPORTED_KEYS :: "string list" where
  "SUPPORTED_KEYS = ANNOTATION_KEYS @ ASSERTION_KEYS"

definition SUPPORTED_TYPES :: "string list" where
  "SUPPORTED_TYPES = [''object'', ''array'', ''string'', ''boolean'', ''null'']"

datatype contract_error = UnsupportedSchema string | TypeErr string | RecursionErr

datatype json_load_error = DuplicateKeyErr string | DecodeErr string

text \<open>\<open>decode\<close> stands for the JSON grammar: the message of a JSONDecodeError or the parsed document.\<close>

definition loads_json_strict :: "(string \<Rightarrow> string + json) \<Rightarrow> string \<Rightarrow> json_load_error + json" where
  "loads_json_strict decode raw =
     (case decode raw of
        Inl msg \<Rightarrow> Inl (DecodeErr msg)
      | Inr tree \<Rightarrow>
          (case strict_json tree of
             Inl (DuplicateKey k) \<Rightarrow> Inl (DuplicateKeyErr (''duplicate JSON key: '' @ k))
           | Inl (NonFinite t) \<Rightarrow> Inl (DecodeErr (''non-standard JSON constant: '' @ t))
           | Inr v \<Rightarrow> Inr v))"

fun pointer_walk :: "string \<Rightarrow> json \<Rightarrow> string list \<Rightarrow> contract_error + json" where
  "pointer_walk ref current [] = Inr current"
| "pointer_walk ref current (raw # tokens) =
     (let token = replace_all ''~0'' ''~'' (replace_all ''~1'' ''/'' raw) in
      case current of
        JDict d \<Rightarrow> (case dict_get d token of
                     Some v \<Rightarrow> pointer_walk ref v tokens
                   | None \<Rightarrow> Inl (UnsupportedSchema (''unresolvable schema reference: '' @ ref)))
      | _ \<Rightarrow> Inl (UnsupportedSchema (''unresolvable schema reference: '' @ ref)))"

definition pointer :: "dict \<Rightarrow> string \<Rightarrow> contract_error + dict" where
  "pointer rootS ref =
     (if \<not> starts_with ''#/'' ref
      then Inl (UnsupportedSchema (''only local JSON pointers are supported: '' @ ref))
      else bindE (pointer_walk ref (JDict rootS) (split_on CHR ''/'' (drop 2 ref))) (\<lambda>current.
        case current of
          JDict d \<Rightarrow> Inr d
        | _ \<Rightarrow> Inl (UnsupportedSchema (''schema reference does not resolve to an object: '' @ ref))))"

definition checkE :: "bool \<Rightarrow> string \<Rightarrow> contract_error + unit" where
  "checkE b msg = guardE b (UnsupportedSchema msg)"

text \<open>The keyword checks of one schema node, before its children, in the order of the code.\<close>

definition non_negative_int :: "json \<Rightarrow> bool" where
  "non_negative_int v = (case v of JInt i \<Rightarrow> 0 \<le> i | _ \<Rightarrow> False)"

definition check_type_keyword :: "string \<Rightarrow> json \<Rightarrow> contract_error + unit" where
  "check_type_keyword path t =
     (case t of
        JNull \<Rightarrow> Inr ()
      | JList _ \<Rightarrow> Inl (TypeErr ''unhashable type: list'')
      | JDict _ \<Rightarrow> Inl (TypeErr ''unhashable type: dict'')
      | JStr s \<Rightarrow> checkE (s \<in> set SUPPORTED_TYPES) (path @ ''.type is unsupported: '' @ s)
      | _ \<Rightarrow> Inl (UnsupportedSchema (path @ ''.type is unsupported: '' @ py_str t)))"

definition ensure_node :: "(string \<Rightarrow> string option) \<Rightarrow> string \<Rightarrow> dict \<Rightarrow> contract_error + unit" where
  "ensure_node re_compile path schema =
     (let unknown = sorted_diff (dict_keys schema) SUPPORTED_KEYS;
          ref = jget schema ''$ref''; required = jget schema ''required'';
          additional = jget schema ''additionalProperties''; enum = jget schema ''enum'';
          pattern = jget schema ''pattern''; unique_items = jget schema ''uniqueItems''
      in
      bindE (checkE (unknown = []) (path @ '': unsupported schema keyword(s): '' @ join '', '' unknown)) (\<lambda>_.
      bindE (checkE (ref = JNull \<or> is_str ref) (path @ ''.$ref must be a string'')) (\<lambda>_.
      bindE (check_type_keyword path (jget schema ''type'')) (\<lambda>_.
      bindE (checkE (required = JNull \<or> (case required of JList xs \<Rightarrow> list_all is_str xs | _ \<Rightarrow> False))
               (path @ ''.required must be an array of strings'')) (\<lambda>_.
      bindE (checkE (additional = JNull \<or> is_bool additional)
               (path @ ''.additionalProperties must be boolean'')) (\<lambda>_.
      bindE (checkE (enum = JNull \<or> is_list enum) (path @ ''.enum must be an array'')) (\<lambda>_.
      bindE (iterE (\<lambda>keyword.
               checkE (jget schema keyword = JNull \<or> non_negative_int (jget schema keyword))
                 (path @ ''.'' @ keyword @ '' must be a non-negative integer''))
             [''minLength'', ''maxLength'', ''minItems'', ''maxItems'']) (\<lambda>_.
      bindE (case pattern of
               JNull \<Rightarrow> Inr ()
             | JStr p \<Rightarrow> (case re_compile p of
                           None \<Rightarrow> Inr ()
                         | Some exc \<Rightarrow> Inl (UnsupportedSchema (path @ ''.pattern is invalid: '' @ exc)))
             | _ \<Rightarrow> Inl (UnsupportedSchema (path @ ''.pattern must be a string''))) (\<lambda>_.
      checkE (unique_items = JNull \<or> is_bool unique_items) (path @ ''.uniqueItems must be boolean''))))))))))"

lemma size_in_pairs: "(k, v) \<in> set d \<Longrightarrow> size v < size (JDict d)"
  by (induction d) auto

lemma size_in_list: "x \<in> set xs \<Longrightarrow> size x < size (JList xs)"
  by (induction xs) auto

lemma jget_in: "jget d k = v \<Longrightarrow> v \<noteq> JNull \<Longrightarrow> (k, v) \<in> set d"
  by (auto simp: jget_def dict_get_def split: option.splits dest: map_of_SomeD)

lemma jget_size: "jget d k = v \<Longrightarrow> v \<noteq> JNull \<Longrightarrow> size v < size (JDict d)"
  by (rule size_in_pairs) (rule jget_in)

text \<open>The children of a node with the paths they are checked under.\<close>

definition named_children :: "string \<Rightarrow> string \<Rightarrow> json \<Rightarrow> contract_error + (string \<times> json) list" where
  "named_children path keyword v =
     (case v of
        JNull \<Rightarrow> Inr []
      | JDict d \<Rightarrow> Inr (map (\<lambda>(name, child). (path @ ''.'' @ keyword @ ''.'' @ name, child)) d)
      | _ \<Rightarrow> Inl (UnsupportedSchema (path @ ''.'' @ keyword @ '' must be an object'')))"

definition indexed :: "string \<Rightarrow> json list \<Rightarrow> (string \<times> json) list" where
  "indexed path xs = map (\<lambda>(i, x). (path @ ''['' @ str_nat i @ '']'', x)) (enumerate 0 xs)"

definition items_children :: "string \<Rightarrow> json \<Rightarrow> contract_error + (string \<times> json) list" where
  "items_children path v =
     (case v of
        JNull \<Rightarrow> Inr []
      | JDict d \<Rightarrow> Inr [(path @ ''.items'', JDict d)]
      | JList xs \<Rightarrow> Inr (indexed (path @ ''.items'') xs)
      | _ \<Rightarrow> Inl (UnsupportedSchema (path @ ''.items must be an object or an array of schema objects'')))"

definition all_of_children :: "string \<Rightarrow> json \<Rightarrow> contract_error + (string \<times> json) list" where
  "all_of_children path v =
     (case v of
        JNull \<Rightarrow> Inr []
      | JList xs \<Rightarrow> Inr (indexed (path @ ''.allOf'') xs)
      | _ \<Rightarrow> Inl (UnsupportedSchema (path @ ''.allOf must be an array'')))"

lemma indexed_snd: "c \<in> set (indexed path xs) \<Longrightarrow> snd c \<in> set xs"
  by (auto simp: indexed_def in_set_enumerate_eq)

lemma named_children_size:
  "named_children p kw (jget d k) = Inr cs \<Longrightarrow> c \<in> set cs \<Longrightarrow> size (snd c) < size (JDict d)"
  using jget_size [of d k] size_in_pairs
  by (fastforce simp: named_children_def simp del: json.size split: json.splits)

lemma items_children_size:
  "items_children p (jget d k) = Inr cs \<Longrightarrow> c \<in> set cs \<Longrightarrow> size (snd c) < size (JDict d)"
  using jget_size [of d k] size_in_list
  by (fastforce simp: items_children_def simp del: json.size split: json.splits dest: indexed_snd)

lemma all_of_children_size:
  "all_of_children p (jget d k) = Inr cs \<Longrightarrow> c \<in> set cs \<Longrightarrow> size (snd c) < size (JDict d)"
  using jget_size [of d k] size_in_list
  by (fastforce simp: all_of_children_def simp del: json.size split: json.splits dest: indexed_snd)

function ensure_supported_schema ::
  "(string \<Rightarrow> string option) \<Rightarrow> string \<Rightarrow> json \<Rightarrow> contract_error + unit" where
  "ensure_supported_schema re_compile path schema =
     (case schema of
        JDict d \<Rightarrow>
          bindE (ensure_node re_compile path d) (\<lambda>_.
          bindE (named_children path ''properties'' (jget d ''properties'')) (\<lambda>cs.
          bindE (iterE (\<lambda>c. ensure_supported_schema re_compile (fst c) (snd c)) cs) (\<lambda>_.
          bindE (named_children path ''definitions'' (jget d ''definitions'')) (\<lambda>cs.
          bindE (iterE (\<lambda>c. ensure_supported_schema re_compile (fst c) (snd c)) cs) (\<lambda>_.
          bindE (items_children path (jget d ''items'')) (\<lambda>cs.
          bindE (iterE (\<lambda>c. ensure_supported_schema re_compile (fst c) (snd c)) cs) (\<lambda>_.
          bindE (checkE (jget d ''additionalItems'' = JNull \<or> is_bool (jget d ''additionalItems''))
                   (path @ ''.additionalItems must be boolean'')) (\<lambda>_.
          bindE (all_of_children path (jget d ''allOf'')) (\<lambda>cs.
          iterE (\<lambda>c. ensure_supported_schema re_compile (fst c) (snd c)) cs)))))))))
      | _ \<Rightarrow> Inl (UnsupportedSchema (path @ '': schema node must be an object'')))"
  by pat_completeness auto
termination
  by (relation "measure (\<lambda>(_, _, schema). size schema)")
    (auto simp del: json.size dest: named_children_size items_children_size all_of_children_size)

declare ensure_supported_schema.simps [simp del]

definition type_matches :: "json \<Rightarrow> string \<Rightarrow> contract_error + bool" where
  "type_matches inst expected =
     (if expected = ''object'' then Inr (is_dict inst)
      else if expected = ''array'' then Inr (is_list inst)
      else if expected = ''string'' then Inr (is_str inst)
      else if expected = ''boolean'' then Inr (is_bool inst)
      else if expected = ''null'' then Inr (inst = JNull)
      else Inl (UnsupportedSchema (''unsupported schema type: '' @ expected)))"

text \<open>\<open>json.dumps\<close> with sorted keys, compact separators and \<open>ensure_ascii=False\<close>.\<close>

definition dumps_char :: "char \<Rightarrow> string" where
  "dumps_char c = (let n = of_char c :: nat in
     if n = 34 \<or> n = 92 then [CHR 0x5C, c]
     else if n = 10 then [CHR 0x5C, CHR ''n'']
     else if n = 13 then [CHR 0x5C, CHR ''r'']
     else if n = 9 then [CHR 0x5C, CHR ''t'']
     else if n = 8 then [CHR 0x5C, CHR ''b'']
     else if n = 12 then [CHR 0x5C, CHR ''f'']
     else if n < 32 then [CHR 0x5C, CHR ''u'', CHR ''0'', CHR ''0'', hex_digit (n div 16), hex_digit (n mod 16)]
     else [c])"

definition dumps_str :: "string \<Rightarrow> string" where
  "dumps_str s = [CHR 0x22] @ concat (map dumps_char s) @ [CHR 0x22]"

fun canonical_json :: "json \<Rightarrow> string" where
  "canonical_json JNull = ''null''"
| "canonical_json (JBool b) = (if b then ''true'' else ''false'')"
| "canonical_json (JInt i) = str_int i"
| "canonical_json (JFloat f t) = (case f of Fin _ \<Rightarrow> t | PosInf \<Rightarrow> ''Infinity'' | NegInf \<Rightarrow> ''-Infinity'' | NaN \<Rightarrow> ''NaN'')"
| "canonical_json (JStr s) = dumps_str s"
| "canonical_json (JList xs) = ''['' @ join '','' (map canonical_json xs) @ '']''"
| "canonical_json (JDict d) =
     ''{'' @ join '','' (map snd (sort_key fst (map (\<lambda>(k, v). (k, dumps_str k @ '':'' @ canonical_json v)) d))) @ ''}''"

type_synonym finding = "string \<times> string"

text \<open>\<open>schema.get(key, default)\<close>.\<close>

definition get_or :: "dict \<Rightarrow> string \<Rightarrow> json \<Rightarrow> json" where
  "get_or d k v = (case dict_get d k of None \<Rightarrow> v | Some w \<Rightarrow> w)"

definition concatE :: "('a \<Rightarrow> 'e + 'b list) \<Rightarrow> 'a list \<Rightarrow> 'e + 'b list" where
  "concatE f xs = bindE (mapE f xs) (\<lambda>yss. Inr (concat yss))"

definition iter_list :: "json \<Rightarrow> contract_error + json list" where
  "iter_list v = (case v of JList xs \<Rightarrow> Inr xs | _ \<Rightarrow> Inl (TypeErr ''object is not iterable''))"

text \<open>The string assertions of one instance.\<close>

definition string_findings :: "(string \<Rightarrow> string \<Rightarrow> bool) \<Rightarrow> string \<Rightarrow> dict \<Rightarrow> string \<Rightarrow> finding list" where
  "string_findings re_search path schema s =
     (case jget schema ''minLength'' of
        JInt m \<Rightarrow> if int (length s) < m then [(path, ''length must be at least '' @ str_int m)] else []
      | _ \<Rightarrow> [])
   @ (case jget schema ''maxLength'' of
        JInt m \<Rightarrow> if int (length s) > m then [(path, ''length must be at most '' @ str_int m)] else []
      | _ \<Rightarrow> [])
   @ (case jget schema ''pattern'' of
        JStr p \<Rightarrow> if \<not> re_search p s then [(path, ''value does not match pattern '' @ p)] else []
      | _ \<Rightarrow> [])"

text \<open>The size and uniqueness assertions of an array; \<open>seen\<close> holds the canonical texts so far.\<close>

fun unique_findings :: "string \<Rightarrow> nat \<Rightarrow> string list \<Rightarrow> json list \<Rightarrow> finding list" where
  "unique_findings path i seen [] = []"
| "unique_findings path i seen (x # xs) =
     (let canonical = canonical_json x in
      (if canonical \<in> set seen then [(path @ ''['' @ str_nat i @ '']'', ''duplicate array item'')] else [])
      @ unique_findings path (i + 1) (canonical # seen) xs)"

definition array_findings :: "string \<Rightarrow> dict \<Rightarrow> json list \<Rightarrow> finding list" where
  "array_findings path schema xs =
     (case jget schema ''minItems'' of
        JInt m \<Rightarrow> if int (length xs) < m
                  then [(path, ''must contain at least '' @ str_int m @ '' item(s)'')] else []
      | _ \<Rightarrow> [])
   @ (case jget schema ''maxItems'' of
        JInt m \<Rightarrow> if int (length xs) > m
                  then [(path, ''must contain at most '' @ str_int m @ '' item(s)'')] else []
      | _ \<Rightarrow> [])
   @ (if jget schema ''uniqueItems'' = JBool True then unique_findings path 0 [] xs else [])"

definition additional_items_findings :: "string \<Rightarrow> dict \<Rightarrow> json list \<Rightarrow> finding list" where
  "additional_items_findings path schema xs =
     (case jget schema ''items'' of
        JList its \<Rightarrow>
          if length xs > length its \<and> jget schema ''additionalItems'' = JBool False
          then [(path @ ''['' @ str_nat (length its) @ '']'', ''additional array item is not allowed'')]
          else []
      | _ \<Rightarrow> [])"

text \<open>The pairs of element, schema and path that the \<open>items\<close> keyword has validated.\<close>

definition item_pairs :: "string \<Rightarrow> dict \<Rightarrow> json list \<Rightarrow> (string \<times> json \<times> json) list" where
  "item_pairs path schema xs =
     (case jget schema ''items'' of
        JDict it \<Rightarrow> map (\<lambda>(p, x). (p, x, JDict it)) (indexed path xs)
      | JList its \<Rightarrow> map (\<lambda>((p, x), it). (p, x, it)) (zip (indexed path xs) its)
      | _ \<Rightarrow> [])"

definition required_findings :: "string \<Rightarrow> json list \<Rightarrow> dict \<Rightarrow> finding list" where
  "required_findings path required inst =
     concat (map (\<lambda>field. if field \<in> set (dict_keys inst) then []
                   else [(path @ ''.'' @ field, ''required field is missing'')])
       (sort (map py_str required)))"

text \<open>One member of an object: validated by its property schema, or refused when not allowed.\<close>

definition member_findings ::
  "(string \<Rightarrow> json \<Rightarrow> json \<Rightarrow> contract_error + finding list) \<Rightarrow> string \<Rightarrow> dict \<Rightarrow> dict \<Rightarrow> string \<Rightarrow>
   contract_error + finding list" where
  "member_findings sub path schema inst key =
     (case get_or schema ''properties'' (JDict []) of
        JDict props \<Rightarrow>
          (case dict_get props key of
             Some child \<Rightarrow> sub (path @ ''.'' @ key) child (jget inst key)
           | None \<Rightarrow> Inr (if truthy (get_or schema ''additionalProperties'' (JBool True)) then []
                         else [(path @ ''.'' @ key, ''unexpected field'')]))
      | _ \<Rightarrow> Inl (TypeErr ''argument of type NoneType is not iterable''))"

definition body_findings ::
  "(string \<Rightarrow> string \<Rightarrow> bool) \<Rightarrow> (string \<Rightarrow> json \<Rightarrow> json \<Rightarrow> contract_error + finding list) \<Rightarrow>
   string \<Rightarrow> dict \<Rightarrow> json \<Rightarrow> contract_error + finding list" where
  "body_findings re_search sub path schema inst =
     (case inst of
        JDict i \<Rightarrow>
          bindE (iter_list (get_or schema ''required'' (JList []))) (\<lambda>required.
          bindE (concatE (member_findings sub path schema i) (sort (dict_keys i))) (\<lambda>members.
          Inr (required_findings path required i @ members)))
      | JList xs \<Rightarrow>
          bindE (concatE (\<lambda>(p, x, it). sub p it x) (item_pairs path schema xs)) (\<lambda>items.
          Inr (array_findings path schema xs @ items @ additional_items_findings path schema xs))
      | JStr t \<Rightarrow> Inr (string_findings re_search path schema t)
      | _ \<Rightarrow> Inr [])"

definition enum_findings :: "string \<Rightarrow> dict \<Rightarrow> json \<Rightarrow> finding list" where
  "enum_findings path schema inst =
     (case jget schema ''enum'' of
        JList vs \<Rightarrow> if py_in inst vs then []
                    else [(path, ''value must be one of '' @ py_repr (JList vs))]
      | _ \<Rightarrow> [])"

fun validate_instance ::
  "nat \<Rightarrow> (string \<Rightarrow> string option) \<Rightarrow> (string \<Rightarrow> string \<Rightarrow> bool) \<Rightarrow> dict option \<Rightarrow> string \<Rightarrow>
   json \<Rightarrow> json \<Rightarrow> contract_error + finding list" where
  "validate_instance 0 re_compile re_search root_schema path schema inst = Inl RecursionErr"
| "validate_instance (Suc depth) re_compile re_search root_schema path schema inst =
     bindE (ensure_supported_schema re_compile path schema) (\<lambda>_.
     let d = as_dict schema;
         rootS = (case root_schema of None \<Rightarrow> d | Some r \<Rightarrow> if r = [] then d else r);
         sub = validate_instance depth re_compile re_search (Some rootS)
     in
     bindE (case jget d ''$ref'' of
              JStr ref \<Rightarrow> bindE (pointer rootS ref) (\<lambda>target. sub path (JDict target) inst)
            | _ \<Rightarrow> Inr []) (\<lambda>ref_findings.
     bindE (iter_list (get_or d ''allOf'' (JList []))) (\<lambda>children.
     bindE (concatE (\<lambda>child. sub path child inst) children) (\<lambda>all_of_findings.
     bindE (case jget d ''type'' of JStr t \<Rightarrow> type_matches inst t | _ \<Rightarrow> Inr True) (\<lambda>matches.
     if \<not> matches then Inr [(path, ''expected '' @ py_str (jget d ''type''))]
     else bindE (body_findings re_search sub path d inst) (\<lambda>body.
          Inr (sort (remdups (ref_findings @ all_of_findings @ enum_findings path d inst @ body)))))))))"

declare validate_instance.simps [simp del]

subsection \<open>Support of a schema does not depend on its path\<close>

lemma checkE_Inr [simp]: "checkE b msg = Inr u \<longleftrightarrow> b"
  by (simp add: checkE_def)

lemma checkE_True [simp]: "checkE True msg = Inr ()"
  by simp

definition supported :: "(string \<Rightarrow> string option) \<Rightarrow> json \<Rightarrow> bool" where
  "supported re_compile schema = (ensure_supported_schema re_compile ''$'' schema = Inr ())"

lemma check_type_path: "check_type_keyword p t = Inr () \<longleftrightarrow> check_type_keyword q t = Inr ()"
  by (simp add: check_type_keyword_def split: json.split)

lemma ensure_node_path: "ensure_node rc p d = Inr () \<longleftrightarrow> ensure_node rc q d = Inr ()"
  unfolding ensure_node_def Let_def
  by (auto simp: bindE_Inr_iff iterE_Inr_iff check_type_path [of p _ q] split: json.splits option.splits)

lemma map_snd_indexed: "map snd (indexed p xs) = xs"
  by (rule nth_equalityI) (simp_all add: indexed_def nth_enumerate_eq)

lemma children_path:
  "\<exists>ds. named_children p k v = Inr cs \<longrightarrow> named_children q k v = Inr ds \<and> map snd ds = map snd cs"
  "\<exists>ds. items_children p v = Inr cs \<longrightarrow> items_children q v = Inr ds \<and> map snd ds = map snd cs"
  "\<exists>ds. all_of_children p v = Inr cs \<longrightarrow> all_of_children q v = Inr ds \<and> map snd ds = map snd cs"
  by (cases v; auto simp: named_children_def items_children_def all_of_children_def map_snd_indexed o_def
      split_def)+

lemma iterE_children_path:
  assumes "map snd ds = map snd cs" and "\<And>c p q. c \<in> set cs \<Longrightarrow> F p (snd c) = Inr () \<longleftrightarrow> F q (snd c) = Inr ()"
    and "iterE (\<lambda>c. F (fst c) (snd c)) cs = Inr ()"
  shows "iterE (\<lambda>c. F (fst c) (snd c)) ds = Inr ()"
proof -
  have "F (fst d) (snd d) = Inr ()" if "d \<in> set ds" for d
  proof -
    from that assms(1) have "snd d \<in> snd ` set cs" by (metis image_eqI image_set)
    then obtain c where "c \<in> set cs" "snd c = snd d" by auto
    with assms(2) [of c "fst c" "fst d"] assms(3) show ?thesis
      by (metis iterE_Inr_iff)
  qed
  then show ?thesis by (simp add: iterE_Inr_iff)
qed

lemma ensure_path_imp:
  "ensure_supported_schema rc p schema = Inr () \<Longrightarrow> ensure_supported_schema rc q schema = Inr ()"
proof (induction "size schema" arbitrary: p q schema rule: less_induct)
  case less
  from less.prems obtain d where d: "schema = JDict d"
    by (auto simp: ensure_supported_schema.simps [of rc p] split: json.splits)
  have IH: "ensure_supported_schema rc p' (snd c) = Inr () \<longleftrightarrow> ensure_supported_schema rc q' (snd c) = Inr ()"
    if "size (snd c) < size (JDict d)" for c :: "string \<times> json" and p' q'
    using less.hyps [of "snd c"] that d by blast
  from less.prems d obtain ps ds xs as where
    n: "ensure_node rc p d = Inr ()"
    and ps: "named_children p ''properties'' (jget d ''properties'') = Inr ps"
      "iterE (\<lambda>c. ensure_supported_schema rc (fst c) (snd c)) ps = Inr ()"
    and ds: "named_children p ''definitions'' (jget d ''definitions'') = Inr ds"
      "iterE (\<lambda>c. ensure_supported_schema rc (fst c) (snd c)) ds = Inr ()"
    and xs: "items_children p (jget d ''items'') = Inr xs"
      "iterE (\<lambda>c. ensure_supported_schema rc (fst c) (snd c)) xs = Inr ()"
    and add: "jget d ''additionalItems'' = JNull \<or> is_bool (jget d ''additionalItems'')"
    and as: "all_of_children p (jget d ''allOf'') = Inr as"
      "iterE (\<lambda>c. ensure_supported_schema rc (fst c) (snd c)) as = Inr ()"
    by (auto simp: ensure_supported_schema.simps [of rc p] bindE_Inr_iff)
  obtain ps' where ps': "named_children q ''properties'' (jget d ''properties'') = Inr ps'" "map snd ps' = map snd ps"
    using children_path(1) [of p "''properties''" "jget d ''properties''" ps q] ps by blast
  obtain ds' where ds': "named_children q ''definitions'' (jget d ''definitions'') = Inr ds'" "map snd ds' = map snd ds"
    using children_path(1) [of p "''definitions''" "jget d ''definitions''" ds q] ds by blast
  obtain xs' where xs': "items_children q (jget d ''items'') = Inr xs'" "map snd xs' = map snd xs"
    using children_path(2) [of p "jget d ''items''" xs q] xs by blast
  obtain as' where as': "all_of_children q (jget d ''allOf'') = Inr as'" "map snd as' = map snd as"
    using children_path(3) [of p "jget d ''allOf''" as q] as by blast
  note sub = iterE_children_path [where F = "ensure_supported_schema rc"]
  have "iterE (\<lambda>c. ensure_supported_schema rc (fst c) (snd c)) ps' = Inr ()"
    "iterE (\<lambda>c. ensure_supported_schema rc (fst c) (snd c)) ds' = Inr ()"
    "iterE (\<lambda>c. ensure_supported_schema rc (fst c) (snd c)) xs' = Inr ()"
    "iterE (\<lambda>c. ensure_supported_schema rc (fst c) (snd c)) as' = Inr ()"
    using sub [OF ps'(2) IH [OF named_children_size [OF ps(1)]] ps(2)]
      sub [OF ds'(2) IH [OF named_children_size [OF ds(1)]] ds(2)]
      sub [OF xs'(2) IH [OF items_children_size [OF xs(1)]] xs(2)]
      sub [OF as'(2) IH [OF all_of_children_size [OF as(1)]] as(2)] by auto
  then show ?case using n ps' ds' xs' as' add d
    by (simp add: ensure_supported_schema.simps [of rc q] ensure_node_path [of rc p d q])
qed

lemma ensure_supported: "ensure_supported_schema rc p schema = Inr u \<longleftrightarrow> supported rc schema"
  unfolding supported_def using ensure_path_imp by (cases u) blast

subsection \<open>The declarative meaning of the supported keywords\<close>

text \<open>
  \<open>node_ok\<close> states the assertions of one schema node that need no subschema; \<open>valid\<close> adds those that
  do.  Both are written from the Draft-07 reading of the keywords, without order, paths or findings.
\<close>

definition has_type :: "json \<Rightarrow> string \<Rightarrow> bool" where
  "has_type inst t = (t = ''object'' \<and> is_dict inst \<or> t = ''array'' \<and> is_list inst \<or> t = ''string'' \<and> is_str inst
     \<or> t = ''boolean'' \<and> is_bool inst \<or> t = ''null'' \<and> inst = JNull)"

definition node_ok :: "(string \<Rightarrow> string \<Rightarrow> bool) \<Rightarrow> dict \<Rightarrow> json \<Rightarrow> bool" where
  "node_ok re_search d inst \<longleftrightarrow>
     (\<forall>t. jget d ''type'' = JStr t \<longrightarrow> has_type inst t)
   \<and> (\<forall>vs. jget d ''enum'' = JList vs \<longrightarrow> py_in inst vs)
   \<and> (\<forall>i. inst = JDict i \<longrightarrow>
        (\<exists>rs. get_or d ''required'' (JList []) = JList rs \<and> (\<forall>r \<in> set rs. py_str r \<in> set (dict_keys i)))
      \<and> (\<forall>k \<in> set (dict_keys i). \<exists>props. get_or d ''properties'' (JDict []) = JDict props
           \<and> (k \<in> set (dict_keys props) \<or> truthy (get_or d ''additionalProperties'' (JBool True)))))
   \<and> (\<forall>xs. inst = JList xs \<longrightarrow>
        (\<forall>m. jget d ''minItems'' = JInt m \<longrightarrow> m \<le> int (length xs))
      \<and> (\<forall>m. jget d ''maxItems'' = JInt m \<longrightarrow> int (length xs) \<le> m)
      \<and> (jget d ''uniqueItems'' = JBool True \<longrightarrow> distinct (map canonical_json xs))
      \<and> (\<forall>its. jget d ''items'' = JList its \<longrightarrow> jget d ''additionalItems'' = JBool False \<longrightarrow>
           length xs \<le> length its))
   \<and> (\<forall>s. inst = JStr s \<longrightarrow>
        (\<forall>m. jget d ''minLength'' = JInt m \<longrightarrow> m \<le> int (length s))
      \<and> (\<forall>m. jget d ''maxLength'' = JInt m \<longrightarrow> int (length s) \<le> m)
      \<and> (\<forall>p. jget d ''pattern'' = JStr p \<longrightarrow> re_search p s))"

text \<open>The elements of an array with the schema that the \<open>items\<close> keyword gives them.\<close>

definition item_schemas :: "dict \<Rightarrow> json list \<Rightarrow> (json \<times> json) list" where
  "item_schemas d xs = (case jget d ''items'' of
      JDict it \<Rightarrow> map (\<lambda>x. (x, JDict it)) xs | JList its \<Rightarrow> zip xs its | _ \<Rightarrow> [])"

text \<open>
  The pairs of schema and instance that a node depends on: the target of its reference, its \<open>allOf\<close>
  schemas, the property schemas of the members that are present, and the item schemas.
\<close>

definition subgoals :: "dict \<Rightarrow> dict \<Rightarrow> json \<Rightarrow> (json \<times> json) set" where
  "subgoals rootS d inst =
     {(JDict t, inst) | t ref. jget d ''$ref'' = JStr ref \<and> pointer rootS ref = Inr t}
   \<union> {(c, inst) | c cs. get_or d ''allOf'' (JList []) = JList cs \<and> c \<in> set cs}
   \<union> {(c, jget i k) | i k props c. inst = JDict i \<and> k \<in> set (dict_keys i)
        \<and> get_or d ''properties'' (JDict []) = JDict props \<and> dict_get props k = Some c}
   \<union> {(c, x) | xs x c. inst = JList xs \<and> (x, c) \<in> set (item_schemas d xs)}"

definition static_ok :: "(string \<Rightarrow> string option) \<Rightarrow> (string \<Rightarrow> string \<Rightarrow> bool) \<Rightarrow> dict \<Rightarrow> dict \<Rightarrow> json \<Rightarrow> bool" where
  "static_ok re_compile re_search rootS d inst \<longleftrightarrow>
     supported re_compile (JDict d) \<and> node_ok re_search d inst
   \<and> (\<forall>ref. jget d ''$ref'' = JStr ref \<longrightarrow> (\<exists>t. pointer rootS ref = Inr t))
   \<and> (\<exists>cs. get_or d ''allOf'' (JList []) = JList cs)"

inductive valid ::
  "(string \<Rightarrow> string option) \<Rightarrow> (string \<Rightarrow> string \<Rightarrow> bool) \<Rightarrow> dict \<Rightarrow> json \<Rightarrow> json \<Rightarrow> bool"
  for re_compile re_search rootS where
  valid_node: "static_ok re_compile re_search rootS d inst \<Longrightarrow>
    (\<And>c x. (c, x) \<in> subgoals rootS d inst \<Longrightarrow> valid re_compile re_search rootS c x) \<Longrightarrow>
    valid re_compile re_search rootS (JDict d) inst"

lemma finite_subgoals: "finite (subgoals rootS d inst)"
  unfolding subgoals_def
proof (intro finite_UnI)
  show "finite {(JDict t, inst) | t ref. jget d ''$ref'' = JStr ref \<and> pointer rootS ref = Inr t}"
    by (rule finite_subset [of _ "{(JDict (projr (pointer rootS (py_str (jget d ''$ref'')))), inst)}"]) auto
  show "finite {(c, inst) | c cs. get_or d ''allOf'' (JList []) = JList cs \<and> c \<in> set cs}"
    by (cases "get_or d ''allOf'' (JList [])") (simp_all add: setcompr_eq_image)
  show "finite {(c, jget i k) | i k props c. inst = JDict i \<and> k \<in> set (dict_keys i)
       \<and> get_or d ''properties'' (JDict []) = JDict props \<and> dict_get props k = Some c}"
    by (rule finite_subset [of _ "(\<lambda>k. (the (dict_get (as_dict (get_or d ''properties'' (JDict []))) k),
          jget (as_dict inst) k)) ` set (dict_keys (as_dict inst))"]) (auto intro!: rev_image_eqI)
  show "finite {(c, x) | xs x c. inst = JList xs \<and> (x, c) \<in> set (item_schemas d xs)}"
    by (rule finite_subset [of _ "(\<lambda>(x, c). (c, x)) ` set (item_schemas d (case inst of JList xs \<Rightarrow> xs | _ \<Rightarrow> []))"]) auto
qed

subsection \<open>The findings of a node are empty exactly when its assertions hold\<close>

lemma concatE_Nil_iff: "concatE f xs = Inr [] \<longleftrightarrow> (\<forall>x \<in> set xs. f x = Inr [])"
proof (induction xs)
  case (Cons x xs)
  then show ?case by (auto simp: concatE_def bindE_Inr_iff)
qed (simp add: concatE_def)

lemma sort_remdups_Nil [simp]: "sort (remdups xs) = [] \<longleftrightarrow> xs = []"
  by (metis remdups_eq_nil_iff set_empty set_sort)

lemma unique_findings_Nil:
  "unique_findings path i seen xs = [] \<longleftrightarrow>
     distinct (map canonical_json xs) \<and> set (map canonical_json xs) \<inter> set seen = {}"
  by (induction xs arbitrary: i seen) (auto simp: Let_def)

lemma array_findings_Nil:
  "array_findings path d xs @ additional_items_findings path d xs = [] \<longleftrightarrow>
     (\<forall>m. jget d ''minItems'' = JInt m \<longrightarrow> m \<le> int (length xs))
   \<and> (\<forall>m. jget d ''maxItems'' = JInt m \<longrightarrow> int (length xs) \<le> m)
   \<and> (jget d ''uniqueItems'' = JBool True \<longrightarrow> distinct (map canonical_json xs))
   \<and> (\<forall>its. jget d ''items'' = JList its \<longrightarrow> jget d ''additionalItems'' = JBool False \<longrightarrow>
        length xs \<le> length its)"
  by (auto simp: array_findings_def additional_items_findings_def unique_findings_Nil split: json.splits)

lemma string_findings_Nil:
  "string_findings re_search path d s = [] \<longleftrightarrow>
     (\<forall>m. jget d ''minLength'' = JInt m \<longrightarrow> m \<le> int (length s))
   \<and> (\<forall>m. jget d ''maxLength'' = JInt m \<longrightarrow> int (length s) \<le> m)
   \<and> (\<forall>p. jget d ''pattern'' = JStr p \<longrightarrow> re_search p s)"
  by (auto simp: string_findings_def split: json.splits)

lemma enum_findings_Nil: "enum_findings path d inst = [] \<longleftrightarrow> (\<forall>vs. jget d ''enum'' = JList vs \<longrightarrow> py_in inst vs)"
  by (auto simp: enum_findings_def split: json.splits)

lemma required_findings_Nil:
  "required_findings path rs i = [] \<longleftrightarrow> (\<forall>r \<in> set rs. py_str r \<in> set (dict_keys i))"
  by (auto simp: required_findings_def)

lemma item_pairs_schemas: "map snd (item_pairs path d xs) = item_schemas d xs"
  by (cases "jget d ''items''")
    (auto simp: item_pairs_def item_schemas_def indexed_def o_def split_def intro!: nth_equalityI
      simp: nth_enumerate_eq)

lemma member_findings_Nil:
  "member_findings sub path d i k = Inr [] \<longleftrightarrow>
     (\<exists>props. get_or d ''properties'' (JDict []) = JDict props
      \<and> (case dict_get props k of Some c \<Rightarrow> sub (path @ ''.'' @ k) c (jget i k) = Inr []
         | None \<Rightarrow> truthy (get_or d ''additionalProperties'' (JBool True))))"
  by (auto simp: member_findings_def split: json.splits option.splits)

lemma type_matches_iff: "type_matches inst t = Inr True \<longleftrightarrow> has_type inst t"
  by (auto simp: type_matches_def has_type_def)

lemma body_findings_Nil:
  "body_findings re_search sub path d inst = Inr [] \<longleftrightarrow>
     (\<forall>i. inst = JDict i \<longrightarrow>
        (\<exists>rs. get_or d ''required'' (JList []) = JList rs \<and> (\<forall>r \<in> set rs. py_str r \<in> set (dict_keys i)))
      \<and> (\<forall>k \<in> set (dict_keys i). member_findings sub path d i k = Inr []))
   \<and> (\<forall>xs. inst = JList xs \<longrightarrow> array_findings path d xs @ additional_items_findings path d xs = []
      \<and> (\<forall>(p, x, c) \<in> set (item_pairs path d xs). sub p c x = Inr []))
   \<and> (\<forall>s. inst = JStr s \<longrightarrow> string_findings re_search path d s = [])"
proof (cases inst)
  case (JDict i)
  have "body_findings re_search sub path d inst = Inr [] \<longleftrightarrow>
      (\<exists>rs. iter_list (get_or d ''required'' (JList [])) = Inr rs \<and> required_findings path rs i = []
        \<and> concatE (member_findings sub path d i) (sort (dict_keys i)) = Inr [])"
    by (auto simp: body_findings_def JDict bindE_Inr_iff)
  moreover have "iter_list v = Inr rs \<longleftrightarrow> v = JList rs" for v rs
    by (auto simp: iter_list_def split: json.splits)
  ultimately show ?thesis by (simp add: JDict concatE_Nil_iff required_findings_Nil) blast
next
  case (JList xs)
  have "body_findings re_search sub path d inst = Inr [] \<longleftrightarrow>
      array_findings path d xs @ additional_items_findings path d xs = []
      \<and> concatE (\<lambda>(p, x, it). sub p it x) (item_pairs path d xs) = Inr []"
    by (auto simp: body_findings_def JList bindE_Inr_iff)
  then show ?thesis by (auto simp: JList concatE_Nil_iff split: prod.splits)
qed (auto simp: body_findings_def)

text \<open>One unfolding of the validator, in terms of the declarative assertions.\<close>

lemma validate_Suc_Nil:
  assumes "rootS \<noteq> []" and V_def: "V = validate_instance depth re_compile re_search (Some rootS)"
  shows "validate_instance (Suc depth) re_compile re_search (Some rootS) path (JDict d) inst = Inr [] \<longleftrightarrow>
     supported re_compile (JDict d)
   \<and> (\<forall>ref. jget d ''$ref'' = JStr ref \<longrightarrow> (\<exists>t. pointer rootS ref = Inr t \<and> V path (JDict t) inst = Inr []))
   \<and> (\<exists>cs. get_or d ''allOf'' (JList []) = JList cs \<and> (\<forall>c \<in> set cs. V path c inst = Inr []))
   \<and> (\<forall>t. jget d ''type'' = JStr t \<longrightarrow> has_type inst t)
   \<and> (\<forall>vs. jget d ''enum'' = JList vs \<longrightarrow> py_in inst vs)
   \<and> body_findings re_search V path d inst = Inr []"
proof -
  have ref: "(case jget d ''$ref'' of JStr ref \<Rightarrow> bindE (pointer rootS ref) (\<lambda>target. V path (JDict target) inst)
        | _ \<Rightarrow> Inr []) = Inr [] \<longleftrightarrow>
      (\<forall>ref. jget d ''$ref'' = JStr ref \<longrightarrow> (\<exists>t. pointer rootS ref = Inr t \<and> V path (JDict t) inst = Inr []))"
    by (cases "jget d ''$ref''") (auto simp: bindE_Inr_iff)
  have ty: "(case jget d ''type'' of JStr t \<Rightarrow> type_matches inst t | _ \<Rightarrow> Inr True) = Inr True \<longleftrightarrow>
      (\<forall>t. jget d ''type'' = JStr t \<longrightarrow> has_type inst t)"
    by (cases "jget d ''type''") (auto simp: type_matches_iff)
  have al: "iter_list (get_or d ''allOf'' (JList [])) = Inr cs \<longleftrightarrow> get_or d ''allOf'' (JList []) = JList cs" for cs
    by (auto simp: iter_list_def split: json.splits)
  show ?thesis
    unfolding validate_instance.simps Let_def as_dict.simps option.case if_not_P [OF assms(1)] V_def [symmetric]
    by (auto simp: bindE_Inr_iff ensure_supported ref [symmetric] ty [symmetric] al concatE_Nil_iff [symmetric]
        enum_findings_Nil [of path, symmetric])
qed

lemma validate_needs_dict:
  "validate_instance depth re_compile re_search r path schema inst = Inr fs \<Longrightarrow> \<exists>d. schema = JDict d"
  by (cases depth; cases schema)
    (auto simp: validate_instance.simps ensure_supported_schema.simps)

lemma case_dict_get:
  "(case dict_get d k of Some c \<Rightarrow> S c | None \<Rightarrow> T) \<longleftrightarrow>
     (k \<in> set (dict_keys d) \<or> T) \<and> (\<forall>c. dict_get d k = Some c \<longrightarrow> S c)"
  using py_dict.get_None_iff [of d k] py_dict.get_Some_key [of d k]
  by (cases "dict_get d k") auto

lemma members_ok_iff:
  "(\<forall>k \<in> set (dict_keys i). member_findings sub path d i k = Inr []) \<longleftrightarrow>
     (\<forall>k \<in> set (dict_keys i). \<exists>props. get_or d ''properties'' (JDict []) = JDict props
        \<and> (k \<in> set (dict_keys props) \<or> truthy (get_or d ''additionalProperties'' (JBool True))))
   \<and> (\<forall>k \<in> set (dict_keys i). \<forall>props c. get_or d ''properties'' (JDict []) = JDict props \<longrightarrow>
        dict_get props k = Some c \<longrightarrow> sub (path @ ''.'' @ k) c (jget i k) = Inr [])"
proof -
  have "member_findings sub path d i k = Inr [] \<longleftrightarrow>
      (\<exists>props. get_or d ''properties'' (JDict []) = JDict props
        \<and> (k \<in> set (dict_keys props) \<or> truthy (get_or d ''additionalProperties'' (JBool True)))
        \<and> (\<forall>c. dict_get props k = Some c \<longrightarrow> sub (path @ ''.'' @ k) c (jget i k) = Inr []))" for k
    unfolding member_findings_Nil case_dict_get by auto
  then show ?thesis by auto
qed

lemma validate_node_iff:
  assumes "rootS \<noteq> []" and V_def: "V = validate_instance depth re_compile re_search (Some rootS)"
  shows "validate_instance (Suc depth) re_compile re_search (Some rootS) path (JDict d) inst = Inr [] \<longleftrightarrow>
     static_ok re_compile re_search rootS d inst
   \<and> (\<forall>ref t. jget d ''$ref'' = JStr ref \<longrightarrow> pointer rootS ref = Inr t \<longrightarrow> V path (JDict t) inst = Inr [])
   \<and> (\<forall>cs. get_or d ''allOf'' (JList []) = JList cs \<longrightarrow> (\<forall>c \<in> set cs. V path c inst = Inr []))
   \<and> (\<forall>i k props c. inst = JDict i \<longrightarrow> k \<in> set (dict_keys i) \<longrightarrow>
        get_or d ''properties'' (JDict []) = JDict props \<longrightarrow> dict_get props k = Some c \<longrightarrow>
        V (path @ ''.'' @ k) c (jget i k) = Inr [])
   \<and> (\<forall>xs p x c. inst = JList xs \<longrightarrow> (p, x, c) \<in> set (item_pairs path d xs) \<longrightarrow> V p c x = Inr [])"
  unfolding validate_Suc_Nil [OF assms] body_findings_Nil members_ok_iff array_findings_Nil
    string_findings_Nil static_ok_def node_ok_def
  by (cases inst) auto

lemma item_pairs_iff: "(x, c) \<in> set (item_schemas d xs) \<longleftrightarrow> (\<exists>p. (p, x, c) \<in> set (item_pairs path d xs))"
  unfolding item_pairs_schemas [of path, symmetric] by force

lemma validate_node_sound:
  assumes "rootS \<noteq> []"
    and "validate_instance (Suc depth) re_compile re_search (Some rootS) path (JDict d) inst = Inr []"
    and "(c, x) \<in> subgoals rootS d inst"
  shows "\<exists>p. validate_instance depth re_compile re_search (Some rootS) p c x = Inr []"
  using assms(3) assms(2) [unfolded validate_node_iff [OF assms(1) refl]]
  unfolding subgoals_def item_pairs_iff [of _ _ _ _ path] by fastforce

lemma validate_node_complete:
  assumes "rootS \<noteq> []" and "static_ok re_compile re_search rootS d inst"
    and kids: "\<And>c x p. (c, x) \<in> subgoals rootS d inst \<Longrightarrow>
      validate_instance depth re_compile re_search (Some rootS) p c x = Inr []"
  shows "validate_instance (Suc depth) re_compile re_search (Some rootS) path (JDict d) inst = Inr []"
  unfolding validate_node_iff [OF assms(1) refl]
proof (intro conjI allI impI ballI)
  show "static_ok re_compile re_search rootS d inst" by fact
qed (auto simp: subgoals_def item_pairs_iff [of _ _ _ _ path] intro!: kids)

lemma validate_sound:
  assumes "rootS \<noteq> []"
  shows "validate_instance depth re_compile re_search (Some rootS) path schema inst = Inr [] \<Longrightarrow>
    valid re_compile re_search rootS schema inst"
proof (induction depth arbitrary: path schema inst)
  case 0
  then show ?case by (simp add: validate_instance.simps)
next
  case (Suc depth)
  from Suc.prems validate_needs_dict obtain d where d: "schema = JDict d" by blast
  have "static_ok re_compile re_search rootS d inst"
    using Suc.prems unfolding d validate_node_iff [OF assms refl] by blast
  then show ?case unfolding d
  proof (rule valid_node)
    fix c x assume "(c, x) \<in> subgoals rootS d inst"
    from validate_node_sound [OF assms Suc.prems [unfolded d] this] Suc.IH
    show "valid re_compile re_search rootS c x" by blast
  qed
qed

lemma uniform_bound:
  assumes "finite A" and "\<forall>x \<in> A. \<exists>N. \<forall>n \<ge> N. P x n"
  shows "\<exists>N :: nat. \<forall>n \<ge> N. \<forall>x \<in> A. P x n"
  using assms
proof (induction A rule: finite_induct)
  case (insert x A)
  then obtain N M where NM: "\<forall>n \<ge> N. P x n" "\<forall>n \<ge> M. \<forall>y \<in> A. P y n" by auto
  then have "\<forall>n \<ge> max N M. \<forall>y \<in> insert x A. P y n" by auto
  then show ?case by blast
qed auto

lemma validate_complete:
  assumes "valid re_compile re_search rootS schema inst" and "rootS \<noteq> []"
  shows "\<exists>N. \<forall>n \<ge> N. \<forall>path. validate_instance n re_compile re_search (Some rootS) path schema inst = Inr []"
  using assms(1)
proof (induction rule: valid.induct)
  case (valid_node d inst)
  let ?V = "\<lambda>n p ci. validate_instance n re_compile re_search (Some rootS) p (fst ci) (snd ci)"
  have "\<forall>ci \<in> subgoals rootS d inst. \<exists>N. \<forall>n \<ge> N. \<forall>path. ?V n path ci = Inr []"
    using valid_node.IH by auto
  from uniform_bound [OF finite_subgoals this] obtain N where
    N: "\<forall>n \<ge> N. \<forall>ci \<in> subgoals rootS d inst. \<forall>path. ?V n path ci = Inr []" by blast
  have "validate_instance n re_compile re_search (Some rootS) path (JDict d) inst = Inr []"
    if "n \<ge> Suc N" for n path
  proof -
    from that obtain m where m: "n = Suc m" "m \<ge> N" by (cases n) auto
    show ?thesis unfolding m(1)
      by (rule validate_node_complete [OF assms(2) valid_node.hyps(1)]) (use N m in force)
  qed
  then show ?case by blast
qed

subsection \<open>More depth never changes a verdict\<close>

definition below :: "contract_error + 'a \<Rightarrow> contract_error + 'a \<Rightarrow> bool" where
  "below r r' = (r = Inl RecursionErr \<or> r' = r)"

lemma below_refl [simp]: "below r r"
  by (simp add: below_def)

lemma below_bindE: "below m m' \<Longrightarrow> (\<And>x. m = Inr x \<Longrightarrow> below (f x) (g x)) \<Longrightarrow> below (bindE m f) (bindE m' g)"
  by (cases m) (auto simp: below_def)

lemma below_mapE: "(\<And>x. x \<in> set xs \<Longrightarrow> below (f x) (g x)) \<Longrightarrow> below (mapE f xs) (mapE g xs)"
  by (induction xs) (auto intro!: below_bindE)

lemma below_concatE: "(\<And>x. x \<in> set xs \<Longrightarrow> below (f x) (g x)) \<Longrightarrow> below (concatE f xs) (concatE g xs)"
  unfolding concatE_def by (intro below_bindE below_mapE) auto

lemma below_body:
  assumes "\<And>p c x. below (V p c x) (W p c x)"
  shows "below (body_findings re_search V path d inst) (body_findings re_search W path d inst)"
proof (cases inst)
  case (JDict i)
  have "below (member_findings V path d i k) (member_findings W path d i k)" for k
    unfolding member_findings_def using assms by (auto split: json.split option.split)
  with JDict show ?thesis unfolding body_findings_def
    by (auto intro!: below_bindE below_concatE)
next
  case (JList xs)
  with assms show ?thesis unfolding body_findings_def
    by (auto intro!: below_bindE below_concatE split: prod.split)
qed (simp_all add: body_findings_def)

lemma below_case_str:
  "(\<And>s. v = JStr s \<Longrightarrow> below (f s) (g s)) \<Longrightarrow>
   below (case v of JStr s \<Rightarrow> f s | _ \<Rightarrow> c) (case v of JStr s \<Rightarrow> g s | _ \<Rightarrow> c)"
  by (cases v) simp_all

lemma below_if: "(\<not> b \<Longrightarrow> below m m') \<Longrightarrow> below (if b then x else m) (if b then x else m')"
  by simp

lemma validate_below:
  "below (validate_instance depth re_compile re_search r path schema inst)
         (validate_instance (Suc depth) re_compile re_search r path schema inst)"
proof (induction depth arbitrary: r path schema inst)
  case 0
  then show ?case by (simp add: validate_instance.simps(1) below_def)
next
  case (Suc depth)
  define W where "W = validate_instance (Suc depth)"
  have IH: "below (validate_instance depth re_compile re_search r p s i) (W re_compile re_search r p s i)"
    for r p s i using Suc unfolding W_def .
  show ?case
    unfolding validate_instance.simps(2) [of "Suc depth"] unfolding W_def [symmetric]
    by (subst W_def, subst validate_instance.simps(2), unfold Let_def)
      (rule below_bindE below_refl below_case_str IH below_concatE below_if below_body)+
qed

subsection \<open>Properties\<close>

lemma validate_None:
  "d \<noteq> [] \<Longrightarrow> validate_instance n re_compile re_search None path (JDict d) inst =
     validate_instance n re_compile re_search (Some d) path (JDict d) inst"
  by (cases n) (simp_all add: validate_instance.simps)

text \<open>
  C23. The validator implements the declarative meaning of its keywords: for every non-empty schema, some
  recursion depth yields no violation if and only if the instance is valid, where \<open>valid\<close> is the least
  relation closed under the keyword assertions with local references resolved in the schema.
\<close>

theorem validate_instance_refines:
  assumes "d \<noteq> []"
  shows "(\<exists>depth. validate_instance depth re_compile re_search None ''$'' (JDict d) inst = Inr [])
     \<longleftrightarrow> valid re_compile re_search d (JDict d) inst"
  unfolding validate_None [OF assms]
  using validate_sound [OF assms] validate_complete [OF _ assms] by blast

definition demo_schema :: dict where
  "demo_schema = [(''type'', JStr ''object''), (''required'', JList [JStr ''id'']),
     (''additionalProperties'', JBool False),
     (''properties'', JDict [(''id'', JDict [(''$ref'', JStr ''#/definitions/name'')])]),
     (''definitions'', JDict [(''name'', JDict [(''type'', JStr ''string''), (''minLength'', JInt 1)])])]"

definition demo_instance :: json where
  "demo_instance = JDict [(''id'', JStr ''x'')]"

lemma demo_schema_valid:
  "validate_instance 3 (\<lambda>_. None) (\<lambda>_ _. True) None ''$'' (JDict demo_schema) demo_instance = Inr []"
  by code_simp

theorem validate_instance_refines_witness:
  "valid (\<lambda>_. None) (\<lambda>_ _. True) demo_schema (JDict demo_schema) demo_instance"
proof -
  have "demo_schema \<noteq> []" by (simp add: demo_schema_def)
  from validate_instance_refines [OF this, of "\<lambda>_. None" "\<lambda>_ _. True" demo_instance] demo_schema_valid
  show ?thesis by blast
qed

text \<open>
  The depth bound is immaterial: a verdict reached at one depth, findings or error, is the verdict at
  every larger depth, unless it is that the depth was used up.
\<close>

theorem validate_instance_depth_mono:
  assumes "validate_instance depth re_compile re_search r path schema inst \<noteq> Inl RecursionErr"
    and "depth \<le> depth'"
  shows "validate_instance depth' re_compile re_search r path schema inst =
    validate_instance depth re_compile re_search r path schema inst"
  using assms(2,1)
proof (induction depth' rule: dec_induct)
  case (step n)
  then show ?case using validate_below [of n re_compile re_search r path schema inst]
    by (auto simp: below_def)
qed simp

theorem validate_instance_depth_mono_witness:
  "validate_instance 900 (\<lambda>_. None) (\<lambda>_ _. True) None ''$'' (JDict demo_schema) demo_instance = Inr []"
  using validate_instance_depth_mono [of 3 "\<lambda>_. None" "\<lambda>_ _. True" None "''$''" "JDict demo_schema" demo_instance 900]
    demo_schema_valid by simp

text \<open>
  The violations are reported deterministically: the list of findings is sorted by path and message
  and has no repetition.
\<close>

theorem validate_instance_sorted:
  assumes "validate_instance depth re_compile re_search r path schema inst = Inr findings"
  shows "sorted findings \<and> distinct findings"
  using assms
  by (cases depth) (auto simp: validate_instance.simps bindE_Inr_iff Let_def split: if_splits)

theorem validate_instance_sorted_witness:
  "\<exists>fs. validate_instance 3 (\<lambda>_. None) (\<lambda>_ _. True) None ''$'' (JDict demo_schema)
      (JDict [(''b'', JNull), (''a'', JNull)]) = Inr fs \<and> length fs = 3 \<and> sorted fs"
proof -
  let ?r = "validate_instance 3 (\<lambda>_. None) (\<lambda>_ _. True) None ''$'' (JDict demo_schema)
      (JDict [(''b'', JNull), (''a'', JNull)])"
  have "\<not> isl ?r \<and> length (projr ?r) = 3" by code_simp
  then obtain fs where "?r = Inr fs" "length fs = 3" by (cases ?r) auto
  then show ?thesis using validate_instance_sorted by blast
qed

text \<open>The schema nodes that \<open>ensure_supported_schema\<close> visits.\<close>

inductive subschema :: "json \<Rightarrow> json \<Rightarrow> bool" where
  self: "subschema s s"
| property: "subschema s (JDict d) \<Longrightarrow> jget d ''properties'' = JDict ps \<Longrightarrow> (k, t) \<in> set ps \<Longrightarrow> subschema s t"
| definition_of: "subschema s (JDict d) \<Longrightarrow> jget d ''definitions'' = JDict ps \<Longrightarrow> (k, t) \<in> set ps \<Longrightarrow> subschema s t"
| item: "subschema s (JDict d) \<Longrightarrow> jget d ''items'' = JDict t \<Longrightarrow> subschema s (JDict t)"
| item_at: "subschema s (JDict d) \<Longrightarrow> jget d ''items'' = JList ts \<Longrightarrow> t \<in> set ts \<Longrightarrow> subschema s t"
| all_of: "subschema s (JDict d) \<Longrightarrow> jget d ''allOf'' = JList ts \<Longrightarrow> t \<in> set ts \<Longrightarrow> subschema s t"

lemma in_indexed: "t \<in> set ts \<Longrightarrow> \<exists>p. (p, t) \<in> set (indexed path ts)"
  using map_snd_indexed [of path ts] by (metis imageE list.set_map prod.collapse)

lemma ensure_children:
  assumes "ensure_supported_schema rc path (JDict d) = Inr ()"
  obtains ps ds its als where "ensure_node rc path d = Inr ()"
    and "named_children path ''properties'' (jget d ''properties'') = Inr ps" "\<forall>c \<in> set ps. supported rc (snd c)"
    and "named_children path ''definitions'' (jget d ''definitions'') = Inr ds" "\<forall>c \<in> set ds. supported rc (snd c)"
    and "items_children path (jget d ''items'') = Inr its" "\<forall>c \<in> set its. supported rc (snd c)"
    and "all_of_children path (jget d ''allOf'') = Inr als" "\<forall>c \<in> set als. supported rc (snd c)"
  using assms
  by (auto simp: ensure_supported_schema.simps [of rc path] bindE_Inr_iff iterE_Inr_iff ensure_supported)

lemma ensure_named:
  "named_children path kw (JDict ps) = Inr cs \<Longrightarrow> \<forall>c \<in> set cs. P (snd c) \<Longrightarrow> (k, t) \<in> set ps \<Longrightarrow> P t"
  by (force simp: named_children_def)

lemma ensure_listed:
  "\<forall>c \<in> set (indexed path ts). P (snd c) \<Longrightarrow> t \<in> set ts \<Longrightarrow> P t"
  by (metis in_indexed snd_conv)

lemma ensure_parts:
  assumes "ensure_supported_schema rc path (JDict d) = Inr ()"
  shows "ensure_node rc path d = Inr ()"
    and "jget d ''properties'' = JDict ps \<Longrightarrow> (k, t) \<in> set ps \<Longrightarrow> supported rc t"
    and "jget d ''definitions'' = JDict ps \<Longrightarrow> (k, t) \<in> set ps \<Longrightarrow> supported rc t"
    and "jget d ''items'' = JDict it \<Longrightarrow> supported rc (JDict it)"
    and "jget d ''items'' = JList ts \<Longrightarrow> t \<in> set ts \<Longrightarrow> supported rc t"
    and "jget d ''allOf'' = JList ts \<Longrightarrow> t \<in> set ts \<Longrightarrow> supported rc t"
proof -
  from assms obtain ps' ds its als where c: "ensure_node rc path d = Inr ()"
    "named_children path ''properties'' (jget d ''properties'') = Inr ps'" "\<forall>c \<in> set ps'. supported rc (snd c)"
    "named_children path ''definitions'' (jget d ''definitions'') = Inr ds" "\<forall>c \<in> set ds. supported rc (snd c)"
    "items_children path (jget d ''items'') = Inr its" "\<forall>c \<in> set its. supported rc (snd c)"
    "all_of_children path (jget d ''allOf'') = Inr als" "\<forall>c \<in> set als. supported rc (snd c)"
    by (rule ensure_children)
  show "ensure_node rc path d = Inr ()" by (rule c)
  show "supported rc t" if "jget d ''properties'' = JDict ps" "(k, t) \<in> set ps"
    using ensure_named c(2,3) that by metis
  show "supported rc t" if "jget d ''definitions'' = JDict ps" "(k, t) \<in> set ps"
    using ensure_named c(4,5) that by metis
  show "supported rc (JDict it)" if "jget d ''items'' = JDict it"
    using c(6,7) that by (auto simp: items_children_def)
  show "supported rc t" if "jget d ''items'' = JList ts" "t \<in> set ts"
    using c(6,7) that by (auto simp: items_children_def intro: ensure_listed)
  show "supported rc t" if "jget d ''allOf'' = JList ts" "t \<in> set ts"
    using c(8,9) that by (auto simp: all_of_children_def intro: ensure_listed)
qed

text \<open>
  C24. Support checking fails closed: when a schema is accepted, every schema node in it, however deep, is
  an object that uses only implemented keywords and, if it names a type, one of the five implemented ones.
\<close>

theorem ensure_supported_schema_fails_closed:
  assumes "ensure_supported_schema re_compile path s = Inr ()" and "subschema s t"
  shows "\<exists>d. t = JDict d \<and> set (dict_keys d) \<subseteq> set SUPPORTED_KEYS
     \<and> (jget d ''type'' = JNull \<or> jget d ''type'' \<in> JStr ` set SUPPORTED_TYPES)"
proof -
  from assms(2,1) have "supported re_compile t"
  proof (induction rule: subschema.induct)
    case (self s)
    then show ?case by (simp add: ensure_supported)
  qed (auto simp: supported_def dest: ensure_parts)
  then obtain d where d: "t = JDict d" and e: "ensure_supported_schema re_compile ''$'' (JDict d) = Inr ()"
    by (auto simp: supported_def ensure_supported_schema.simps split: json.splits)
  from ensure_parts(1) [OF e] have "sorted_diff (dict_keys d) SUPPORTED_KEYS = []"
    and "check_type_keyword ''$'' (jget d ''type'') = Inr ()"
    by (auto simp: ensure_node_def Let_def bindE_Inr_iff)
  with d show ?thesis
    by (auto simp: sorted_diff_Nil check_type_keyword_def split: json.splits)
qed

theorem ensure_supported_schema_fails_closed_witness:
  "ensure_supported_schema (\<lambda>_. None) ''$'' (JDict demo_schema) = Inr ()
   \<and> (\<exists>d. JDict demo_schema = JDict d \<and> set (dict_keys d) \<subseteq> set SUPPORTED_KEYS)"
proof -
  have "ensure_supported_schema (\<lambda>_. None) ''$'' (JDict demo_schema) = Inr ()" by code_simp
  then show ?thesis
    using ensure_supported_schema_fails_closed [OF _ subschema.self] by blast
qed


end
