(* ===== verification/Agent_Task.thy ===== *)
theory Agent_Task
  imports Json_Contract Repo_Paths
begin

text \<open>
  \<open>src/scripts/agent/check_non_ideal_task.py\<close>: the guard of agent task contracts, on top of the contract
  validator.  Beside the schema it checks the scope rules, the required commands and evidence, that no
  nested field claims a final status, and that every claim is in the registry.  Loading the claim
  registry (\<open>validate_claim_registry.py\<close>), reading files and resolving symbolic links are parameters.
  The task schema \<open>contracts/agent/task.schema.json\<close> is transcribed as \<open>agent_task_schema\<close>.
\<close>

datatype guard_error = Contract contract_error | AttributeErr string | UnicodeErr | SchemaFileErr string

record guard_finding =
  gf_code :: string
  gf_message :: string
  gf_field :: "string option"

definition DISALLOWED_SCOPE_MARKERS :: "string list" where
  "DISALLOWED_SCOPE_MARKERS = [[], ''.'', ''/'', ''*'', ''**'', ''repo'', ''all'', ''root'']"

definition CONTRADICTORY_CLAIM_STATUSES :: "string list" where
  "CONTRADICTORY_CLAIM_STATUSES = [''rejected'', ''contradicted'', ''superseded'', ''obsolete'']"

definition normalize_path :: "string \<Rightarrow> string" where
  "normalize_path path = strip (slashes path)"

definition trim_trailing :: "string \<Rightarrow> string" where
  "trim_trailing path = rstrip_by (\<lambda>c. c = slash) (normalize_path path)"

definition forbidden_blocks_allowed :: "string \<Rightarrow> string \<Rightarrow> bool" where
  "forbidden_blocks_allowed allowed forbidden =
     (let a = trim_trailing allowed; f = trim_trailing forbidden in
      if a = [] \<or> f = [] then False
      else if a = f then True
      else starts_with (f @ [slash]) a)"

definition is_generated_path :: "string \<Rightarrow> bool" where
  "is_generated_path path =
     (let normalized = strip_by (\<lambda>c. c = slash) (normalize_path path) in
      normalized = ''docs/_generated'' \<or> starts_with ''docs/_generated/'' normalized)"

definition guard_item :: "string \<Rightarrow> string \<Rightarrow> string option \<Rightarrow> guard_finding" where
  "guard_item code message field = \<lparr>gf_code = code, gf_message = message, gf_field = field\<rparr>"

text \<open>The resolved path as segments; \<open>resolve\<close> stands for \<open>Path.resolve\<close>.\<close>

definition resolve_repo_relative ::
  "(string \<Rightarrow> string list) \<Rightarrow> string \<Rightarrow> string \<Rightarrow> string + string list" where
  "resolve_repo_relative resolve repo_root text =
     (if starts_with ''/'' text then Inl (''Path must be repository-relative: '' @ text)
      else let base = resolve repo_root; resolved = resolve (join ''/'' base @ ''/'' @ text) in
        if prefix base resolved then Inr resolved
        else Inl (''Path escapes repository root: '' @ text))"

definition remove_prefix :: "string \<Rightarrow> string \<Rightarrow> string" where
  "remove_prefix p s = (if starts_with p s then drop (length p) s else s)"

definition load_task_schema :: "(guard_error + json) \<Rightarrow> guard_error + dict" where
  "load_task_schema schema_file =
     bindE schema_file (\<lambda>v. case v of
        JDict d \<Rightarrow> Inr d
      | _ \<Rightarrow> Inl (Contract (UnsupportedSchema ''task schema must be a JSON object'')))"

definition liftC :: "contract_error + 'a \<Rightarrow> guard_error + 'a" where
  "liftC r = (case r of Inl e \<Rightarrow> Inl (Contract e) | Inr v \<Rightarrow> Inr v)"

definition schema_field :: "string \<Rightarrow> string option" where
  "schema_field path = (let field = remove_prefix ''$.'' path in if field \<noteq> ''$'' then Some field else None)"

definition validate_task_schema ::
  "nat \<Rightarrow> (string \<Rightarrow> string option) \<Rightarrow> (string \<Rightarrow> string \<Rightarrow> bool) \<Rightarrow> (guard_error + json) \<Rightarrow>
   json \<Rightarrow> dict option \<Rightarrow> guard_error + guard_finding list" where
  "validate_task_schema depth re_compile re_search schema_file task task_schema =
     bindE (case task_schema of
              Some s \<Rightarrow> if s = [] then load_task_schema schema_file else Inr s
            | None \<Rightarrow> load_task_schema schema_file) (\<lambda>schema.
     bindE (liftC (validate_instance depth re_compile re_search None ''$'' (JDict schema) task)) (\<lambda>violations.
     Inr (map (\<lambda>(path, message). guard_item ''TASK_SCHEMA_INVALID'' message (schema_field path)) violations)))"

text \<open>The findings of one member of an object, before its own members.\<close>

definition done_member :: "string \<Rightarrow> string \<Rightarrow> json \<Rightarrow> guard_finding list" where
  "done_member current_path key v =
     (case v of
        JStr s \<Rightarrow>
          (if key \<in> {''status'', ''repo_status''} \<and> lower (strip s) = ''done''
           then [guard_item ''STATUS_DONE_BY_AGENT'' ''Final status field is forbidden for agent tasks'' (Some current_path)]
           else [])
        @ (if key = ''decision'' \<and> lower (strip s) = ''pass''
           then [guard_item ''STATUS_DONE_BY_AGENT''
                   (''Final decision '' @ [CHR 0x27] @ ''pass'' @ [CHR 0x27] @ '' is forbidden for agent tasks'') (Some current_path)]
           else [])
      | _ \<Rightarrow> [])"

fun find_status_done :: "string \<Rightarrow> json \<Rightarrow> guard_finding list"
  and find_status_members :: "string \<Rightarrow> dict \<Rightarrow> guard_finding list"
  and find_status_items :: "string \<Rightarrow> nat \<Rightarrow> json list \<Rightarrow> guard_finding list" where
  "find_status_done path (JDict d) = find_status_members path d"
| "find_status_done path (JList xs) = find_status_items path 0 xs"
| "find_status_done path _ = []"
| "find_status_members path [] = []"
| "find_status_members path ((key, v) # d) =
     (let current_path = (if path \<noteq> [] then path @ ''.'' @ key else key) in
      done_member current_path key v @ find_status_done current_path v) @ find_status_members path d"
| "find_status_items path index [] = []"
| "find_status_items path index (x # xs) =
     find_status_done (path @ ''['' @ str_nat index @ '']'') x @ find_status_items path (index + 1) xs"

text \<open>Calling a string method on another value raises an AttributeError.\<close>

definition need_str :: "string \<Rightarrow> json \<Rightarrow> guard_error + string" where
  "need_str method v =
     (case v of JStr s \<Rightarrow> Inr s
      | _ \<Rightarrow> Inl (AttributeErr ([CHR 0x27] @ type_name v @ [CHR 0x27] @ '' object has no attribute ''
                  @ [CHR 0x27] @ method @ [CHR 0x27])))"

fun has_generator_command :: "json list \<Rightarrow> guard_error + bool" where
  "has_generator_command [] = Inr False"
| "has_generator_command (command # rest) =
     bindE (need_str ''lower'' command) (\<lambda>c.
       if contains ''scripts/docmeta/generate_'' (lower c) then Inr True else has_generator_command rest)"

definition quoted :: "string \<Rightarrow> string" where
  "quoted s = [CHR 0x27] @ s @ [CHR 0x27]"

definition broad_findings :: "string list \<Rightarrow> guard_finding list" where
  "broad_findings allowed =
     map (\<lambda>path. guard_item ''SCOPE_TOO_BROAD'' (''allowed_paths entry '' @ quoted path @ '' ist zu breit'') (Some ''allowed_paths''))
       (filter (\<lambda>path. lower (trim_trailing path) \<in> set DISALLOWED_SCOPE_MARKERS) allowed)"

definition forbidden_findings :: "string list \<Rightarrow> string list \<Rightarrow> guard_finding list" where
  "forbidden_findings allowed forbidden =
     concat (map (\<lambda>a. map (\<lambda>f. guard_item ''FORBIDDEN_PATH''
         (''allowed_paths '' @ quoted a @ '' wird durch forbidden_paths '' @ quoted f @ '' blockiert'') (Some ''forbidden_paths''))
       (filter (forbidden_blocks_allowed a) forbidden)) allowed)"

definition generated_findings :: "dict \<Rightarrow> string list \<Rightarrow> guard_error + guard_finding list" where
  "generated_findings task allowed =
     (if \<not> list_ex is_generated_path allowed then Inr []
      else bindE (case jget task ''validation_commands'' of
                    JList cs \<Rightarrow> has_generator_command cs | _ \<Rightarrow> Inr False) (\<lambda>has_generator.
        Inr (if jget task ''task_type'' \<noteq> JStr ''generated_refresh'' \<or> \<not> has_generator
             then [guard_item ''FORBIDDEN_PATH''
                     ''docs/_generated/ darf nur in generated_refresh tasks mit Generator-Command erlaubt werden''
                     (Some ''allowed_paths'')]
             else [])))"

definition validate_scope_rules :: "dict \<Rightarrow> guard_error + guard_finding list" where
  "validate_scope_rules task =
     (case jget task ''allowed_paths'' of
        JList (x # xs) \<Rightarrow>
          bindE (mapE (need_str ''replace'') (x # xs)) (\<lambda>allowed.
          bindE (case jget task ''forbidden_paths'' of
                   JList fs \<Rightarrow> mapE (need_str ''replace'') fs | _ \<Rightarrow> Inr []) (\<lambda>forbidden.
          bindE (generated_findings task allowed) (\<lambda>generated.
          Inr (broad_findings allowed @ forbidden_findings allowed forbidden @ generated))))
      | _ \<Rightarrow> Inr [guard_item ''NO_ALLOWED_PATHS'' ''allowed_paths fehlt oder ist leer'' (Some ''allowed_paths'')])"

definition nonempty_list :: "json \<Rightarrow> bool" where
  "nonempty_list v = (case v of JList xs \<Rightarrow> xs \<noteq> [] | _ \<Rightarrow> False)"

definition validate_task_requirements :: "dict \<Rightarrow> guard_finding list" where
  "validate_task_requirements task =
     (if nonempty_list (jget task ''validation_commands'') then []
      else [guard_item ''NO_VALIDATION_COMMAND'' ''validation_commands fehlt oder ist leer'' (Some ''validation_commands'')])
   @ (if nonempty_list (jget task ''expected_evidence'') then []
      else [guard_item ''NO_EXPECTED_EVIDENCE'' ''expected_evidence fehlt oder ist leer'' (Some ''expected_evidence'')])"

definition claims_map :: "dict \<Rightarrow> (string \<times> string) list" where
  "claims_map registry =
     (case get_or registry ''claims'' (JList []) of
        JList cs \<Rightarrow> foldl (\<lambda>m claim.
          case claim of
            JDict c \<Rightarrow> (case (jget c ''id'', jget c ''status'') of
                (JStr i, JStr s) \<Rightarrow> dict_set m i (lower s) | _ \<Rightarrow> m)
          | _ \<Rightarrow> m) [] cs
      | _ \<Rightarrow> [])"

definition claim_finding :: "(string \<times> string) list \<Rightarrow> json \<Rightarrow> guard_finding list" where
  "claim_finding m v =
     (case v of
        JStr claim_id \<Rightarrow>
          (case dict_get m claim_id of
             None \<Rightarrow> [guard_item ''CLAIM_WITHOUT_REGISTRY_ENTRY''
                       (''Claim '' @ quoted claim_id @ '' fehlt in docs/claims/registry.yml'') (Some ''claims'')]
           | Some status \<Rightarrow>
               if status \<in> set CONTRADICTORY_CLAIM_STATUSES
               then [guard_item ''CONTRADICTION_FOUND''
                       (''Claim '' @ quoted claim_id @ '' hat widerspruechlichen Status '' @ quoted status) (Some ''claims'')]
               else [])
      | _ \<Rightarrow> [])"

definition validate_claims :: "dict \<Rightarrow> dict \<Rightarrow> guard_finding list" where
  "validate_claims task registry =
     (case jget task ''claims'' of
        JList cs \<Rightarrow> concat (map (claim_finding (claims_map registry)) cs)
      | _ \<Rightarrow> [])"

definition finding_key :: "guard_finding \<Rightarrow> string \<times> string \<times> string" where
  "finding_key f = (gf_code f, gf_message f, (case gf_field f of Some s \<Rightarrow> s | None \<Rightarrow> []))"

fun dedupe :: "(string \<times> string \<times> string) list \<Rightarrow> guard_finding list \<Rightarrow> guard_finding list" where
  "dedupe seen [] = []"
| "dedupe seen (f # fs) =
     (if finding_key f \<in> set seen then dedupe seen fs else f # dedupe (finding_key f # seen) fs)"

definition run_non_ideal_guard ::
  "nat \<Rightarrow> (string \<Rightarrow> string option) \<Rightarrow> (string \<Rightarrow> string \<Rightarrow> bool) \<Rightarrow> (guard_error + json) \<Rightarrow>
   json \<Rightarrow> dict \<Rightarrow> dict option \<Rightarrow> guard_error + guard_finding list" where
  "run_non_ideal_guard depth re_compile re_search schema_file task registry task_schema =
     bindE (validate_task_schema depth re_compile re_search schema_file task task_schema) (\<lambda>schema_findings.
     bindE (case task of
              JDict t \<Rightarrow> bindE (validate_scope_rules t) (\<lambda>scope.
                Inr (scope @ validate_task_requirements t @ find_status_done [] task @ validate_claims t registry))
            | _ \<Rightarrow> Inr []) (\<lambda>more.
     Inr (dedupe [] (schema_findings @ more))))"

subsection \<open>The command\<close>

definition load_json ::
  "(string \<Rightarrow> string + json) \<Rightarrow> read_result \<Rightarrow> guard_error + string + json" where
  "load_json decode r =
     (case r of
        Content raw \<Rightarrow> (case loads_json_strict decode raw of
            Inr v \<Rightarrow> Inr (Inr v)
          | Inl (DuplicateKeyErr msg) \<Rightarrow> Inr (Inl msg)
          | Inl (DecodeErr msg) \<Rightarrow> Inr (Inl (''JSON parse error: '' @ msg)))
      | OSErr exc \<Rightarrow> Inr (Inl (''Datei kann nicht gelesen werden: '' @ exc))
      | NotAFile \<Rightarrow> Inr (Inl ''Datei kann nicht gelesen werden: '')
      | BadEncoding \<Rightarrow> Inl UnicodeErr)"

text \<open>What \<open>load_registry\<close> of \<open>validate_claim_registry.py\<close> returns: the data, the codes of the parser
  findings and the exit status.  The second argument holds the findings of \<open>validate_registry_data\<close>.\<close>

record registry_load =
  rl_data :: "json option"
  rl_codes :: "string list"
  rl_exit :: int

definition load_claim_registry :: "registry_load \<Rightarrow> (json \<Rightarrow> string list) \<Rightarrow> (string \<times> string) + dict" where
  "load_claim_registry load validate =
     (if rl_exit load \<noteq> 0 \<or> rl_data load = None
      then Inl (case rl_codes load of
                  c # _ \<Rightarrow> if c \<noteq> ''REGISTRY_MISSING''
                           then (''CLAIM_REGISTRY_INVALID'', ''Claim-Registry ist nicht parsebar'')
                           else (''CLAIM_REGISTRY_NOT_FOUND'', ''Claim-Registry nicht gefunden'')
                | [] \<Rightarrow> (''CLAIM_REGISTRY_NOT_FOUND'', ''Claim-Registry nicht gefunden''))
      else if validate (the (rl_data load)) \<noteq> []
      then Inl (''CLAIM_REGISTRY_INVALID'', ''Claim-Registry ist nicht valide'')
      else case the (rl_data load) of
             JDict d \<Rightarrow> Inr d
           | _ \<Rightarrow> Inl (''CLAIM_REGISTRY_INVALID'', ''Claim-Registry Top-Level ist ungueltig''))"

record guard_env =
  ge_root :: string
  ge_resolve :: "string \<Rightarrow> string list"
  ge_file :: "string list \<Rightarrow> read_result"
  ge_decode :: "string \<Rightarrow> string + json"
  ge_registry :: "string list \<Rightarrow> registry_load"
  ge_validate_registry :: "json \<Rightarrow> string list"
  ge_schema_file :: "guard_error + json"
  ge_re_compile :: "string \<Rightarrow> string option"
  ge_re_search :: "string \<Rightarrow> string \<Rightarrow> bool"
  ge_depth :: nat

record guard_args =
  ga_task_file :: string
  ga_claim_registry :: string
  ga_mode :: string

definition report_code :: "string \<Rightarrow> guard_finding list \<Rightarrow> int" where
  "report_code mode findings = (if mode = ''warn'' \<and> findings \<noteq> [] then 1 else 0)"

text \<open>The exit code and the findings printed; an uncaught exception is on the left.\<close>

definition guard_main :: "guard_env \<Rightarrow> guard_args parse_outcome \<Rightarrow> guard_error + int \<times> guard_finding list" where
  "guard_main env outcome =
     (case outcome of
        UsageError _ \<Rightarrow> Inr (2, [])
      | SystemExit code \<Rightarrow> Inr (if code = Some 0 then 0 else 2, [])
      | Parsed args \<Rightarrow>
          (case (resolve_repo_relative (ge_resolve env) (ge_root env) (ga_task_file args),
                 resolve_repo_relative (ge_resolve env) (ge_root env) (ga_claim_registry args)) of
             (Inr task_file, Inr registry_file) \<Rightarrow>
               if ge_file env task_file = NotAFile \<or> ge_file env registry_file = NotAFile then Inr (2, [])
               else bindE (load_json (ge_decode env) (ge_file env task_file)) (\<lambda>loaded.
                 case loaded of
                   Inl task_error \<Rightarrow>
                     (let findings = [guard_item ''TASK_SCHEMA_INVALID'' task_error None]
                      in Inr (report_code (ga_mode args) findings, findings))
                 | Inr task \<Rightarrow>
                     (case load_claim_registry (ge_registry env registry_file) (ge_validate_registry env) of
                        Inl _ \<Rightarrow> Inr (2, [])
                      | Inr registry \<Rightarrow>
                          (case run_non_ideal_guard (ge_depth env) (ge_re_compile env) (ge_re_search env)
                                  (ge_schema_file env) task registry None of
                             Inr findings \<Rightarrow> Inr (report_code (ga_mode args) findings, findings)
                           | Inl (Contract (UnsupportedSchema _)) \<Rightarrow> Inr (2, [])
                           | Inl (SchemaFileErr _) \<Rightarrow> Inr (2, [])
                           | Inl exc \<Rightarrow> Inl exc)))
           | _ \<Rightarrow> Inr (2, [])))"

subsection \<open>The task schema\<close>

definition nonblank_strings :: "nat \<Rightarrow> json" where
  "nonblank_strings min_items = JDict ([(''type'', JStr ''array'')]
     @ (if min_items = 0 then [] else [(''minItems'', JInt (int min_items))])
     @ [(''items'', JDict [(''type'', JStr ''string''), (''minLength'', JInt 1), (''pattern'', JStr [CHR 0x5C, CHR ''S''])]),
        (''uniqueItems'', JBool True)])"

definition agent_task_schema :: dict where
  "agent_task_schema =
     [(''$schema'', JStr ''http://json-schema.org/draft-07/schema#''),
      (''$id'', JStr ''https://weltgewebe.org/schemas/agent/task.schema.json''),
      (''title'', JStr ''Agent Task Contract''),
      (''description'', JStr ''Minimal machine-readable contract for agent task definitions.''),
      (''type'', JStr ''object''),
      (''required'', JList (map JStr [''task_id'', ''goal'', ''task_type'', ''allowed_paths'', ''forbidden_paths'',
         ''claims'', ''expected_evidence'', ''validation_commands'', ''delete_allowed''])),
      (''additionalProperties'', JBool False),
      (''properties'', JDict
        [(''task_id'', JDict [(''type'', JStr ''string''), (''pattern'', JStr ''^[A-Z]+(-[A-Z]+)*-[0-9]{3}$'')]),
         (''goal'', JDict [(''type'', JStr ''string''), (''minLength'', JInt 1), (''pattern'', JStr [CHR 0x5C, CHR ''S''])]),
         (''task_type'', JDict [(''type'', JStr ''string''),
            (''enum'', JList (map JStr [''doc_change'', ''ci_change'', ''infra_change'', ''governance'', ''generated_refresh'']))]),
         (''allowed_paths'', nonblank_strings 1),
         (''forbidden_paths'', nonblank_strings 0),
         (''claims'', nonblank_strings 1),
         (''expected_evidence'', nonblank_strings 1),
         (''validation_commands'', nonblank_strings 1),
         (''delete_allowed'', JDict [(''type'', JStr ''boolean'')]),
         (''status'', JDict [(''type'', JStr ''string'')]),
         (''decision'', JDict [(''type'', JStr ''string'')]),
         (''repo_status'', JDict [(''type'', JStr ''string'')])])]"

subsection \<open>Nested status fields\<close>

inductive nested_member :: "json \<Rightarrow> string \<Rightarrow> json \<Rightarrow> bool" where
  here: "(k, v) \<in> set d \<Longrightarrow> nested_member (JDict d) k v"
| in_member: "(j, w) \<in> set d \<Longrightarrow> nested_member w k v \<Longrightarrow> nested_member (JDict d) k v"
| in_item: "w \<in> set xs \<Longrightarrow> nested_member w k v \<Longrightarrow> nested_member (JList xs) k v"

inductive_simps nested_member_simps [simp]:
  "nested_member (JDict d) k v" "nested_member (JList xs) k v" "nested_member (JStr s) k v"
  "nested_member (JInt i) k v" "nested_member JNull k v" "nested_member (JBool b) k v" "nested_member (JFloat f t) k v"

definition final_field :: "string \<Rightarrow> json \<Rightarrow> bool" where
  "final_field k v = (\<exists>s. v = JStr s \<and> ((k \<in> {''status'', ''repo_status''} \<and> lower (strip s) = ''done'')
      \<or> (k = ''decision'' \<and> lower (strip s) = ''pass'')))"

lemma done_member_iff: "done_member p k v \<noteq> [] \<longleftrightarrow> final_field k v"
  by (auto simp: done_member_def final_field_def split: json.splits)

definition has_final :: "json \<Rightarrow> bool" where
  "has_final t = (\<exists>k v. nested_member t k v \<and> final_field k v)"

lemma has_final_simps:
  "has_final (JDict ((k, v) # d)) \<longleftrightarrow> final_field k v \<or> has_final v \<or> has_final (JDict d)"
  "has_final (JList (x # xs)) \<longleftrightarrow> has_final x \<or> has_final (JList xs)"
  "\<not> has_final (JDict [])" "\<not> has_final (JList [])" "\<not> has_final JNull" "\<not> has_final (JBool b)"
  "\<not> has_final (JInt i)" "\<not> has_final (JFloat f r)" "\<not> has_final (JStr s)"
  unfolding has_final_def by (simp_all, blast+)

lemma find_status_iff:
  "find_status_done p t = [] \<longleftrightarrow> \<not> has_final t"
  "find_status_members p d = [] \<longleftrightarrow> \<not> has_final (JDict d)"
  "find_status_items p i xs = [] \<longleftrightarrow> \<not> has_final (JList xs)"
proof (induction p t and p d and p i xs rule: find_status_done_find_status_members_find_status_items.induct)
  case (5 path key v d)
  then show ?case using done_member_iff by (auto simp: Let_def has_final_simps)
qed (simp_all add: has_final_simps)

subsection \<open>Deduplication\<close>

lemma dedupe_keys: "finding_key ` set (dedupe seen fs) = finding_key ` set fs - set seen"
  by (induction seen fs rule: dedupe.induct) auto

lemma dedupe_distinct: "distinct (map finding_key (dedupe seen fs))"
proof (induction seen fs rule: dedupe.induct)
  case (2 seen f fs)
  have "finding_key f \<notin> finding_key ` set (dedupe (finding_key f # seen) fs)"
    by (simp add: dedupe_keys)
  with 2 show ?case by auto
qed simp

lemma dedupe_Nil: "dedupe [] fs = [] \<longleftrightarrow> fs = []"
  using dedupe_keys [of "[]" fs] by auto

subsection \<open>The scope rules\<close>

lemma need_strs: "mapE (need_str m) xs = Inr ss \<longleftrightarrow> xs = map JStr ss"
proof (induction xs arbitrary: ss)
  case (Cons x xs)
  then show ?case by (cases x; cases ss) (auto simp: need_str_def bindE_Inr_iff)
qed auto

lemma need_strs_fail: "\<exists>v \<in> set xs. \<not> is_str v \<Longrightarrow> \<exists>e. mapE (need_str m) xs = Inl (AttributeErr e)"
proof (induction xs)
  case (Cons x xs)
  then show ?case
    by (cases x; cases "mapE (need_str m) xs") (auto simp: need_str_def)
qed simp

lemma forbidden_blocks_iff:
  "forbidden_blocks_allowed a f \<longleftrightarrow> trim_trailing f \<noteq> [] \<and> trim_trailing a \<noteq> []
     \<and> prefix (segments (trim_trailing f)) (segments (trim_trailing a))"
  unfolding forbidden_blocks_allowed_def Let_def by (auto simp flip: segments_prefix)

interpretation forbidden_scope: path_scope forbidden_blocks_allowed
  "\<lambda>p. segments (trim_trailing p)" "\<lambda>s. segments (trim_trailing s)"
  by unfold_locales (simp_all add: forbidden_blocks_iff)

lemma forbidden_findings_Nil:
  "forbidden_findings allowed forbidden = [] \<longleftrightarrow> (\<forall>a \<in> set allowed. \<not> forbidden_scope.covered forbidden a)"
  by (auto simp: forbidden_findings_def forbidden_scope.covered_def list_ex_iff filter_empty_conv)

lemma generator_command: "has_generator_command cs = Inr True \<Longrightarrow>
    \<exists>c. JStr c \<in> set cs \<and> contains ''scripts/docmeta/generate_'' (lower c)"
proof (induction cs rule: has_generator_command.induct)
  case (2 command rest)
  then show ?case by (auto simp: bindE_Inr_iff need_str_def split: if_splits json.splits)
qed simp

lemma generated_findings_Nil:
  assumes "generated_findings task allowed = Inr []" and "a \<in> set allowed" and "is_generated_path a"
  shows "jget task ''task_type'' = JStr ''generated_refresh''
    \<and> (\<exists>cs c. jget task ''validation_commands'' = JList cs \<and> JStr c \<in> set cs
          \<and> contains ''scripts/docmeta/generate_'' (lower c))"
proof -
  from assms obtain g where "jget task ''task_type'' = JStr ''generated_refresh''" "g"
    and "(case jget task ''validation_commands'' of JList cs \<Rightarrow> has_generator_command cs | _ \<Rightarrow> Inr False) = Inr g"
    by (auto simp: generated_findings_def bindE_Inr_iff list_ex_iff split: if_splits)
  then show ?thesis using generator_command by (auto split: json.splits)
qed

lemma validate_scope_rules_clean:
  assumes "validate_scope_rules task = Inr []"
  obtains allowed forbidden where "jget task ''allowed_paths'' = JList (map JStr allowed)" "allowed \<noteq> []"
    and "jget task ''forbidden_paths'' = JList (map JStr forbidden) \<or> (\<not> is_list (jget task ''forbidden_paths'') \<and> forbidden = [])"
    and "\<forall>a \<in> set allowed. lower (trim_trailing a) \<notin> set DISALLOWED_SCOPE_MARKERS"
    and "\<forall>a \<in> set allowed. \<not> forbidden_scope.covered forbidden a"
    and "generated_findings task allowed = Inr []"
proof -
  from assms obtain x xs where al: "jget task ''allowed_paths'' = JList (x # xs)"
    by (auto simp: validate_scope_rules_def split: json.splits list.splits)
  with assms obtain allowed forbidden where p: "mapE (need_str ''replace'') (x # xs) = Inr allowed"
    "(case jget task ''forbidden_paths'' of JList fs \<Rightarrow> mapE (need_str ''replace'') fs | _ \<Rightarrow> Inr []) = Inr forbidden"
    "generated_findings task allowed = Inr []" "broad_findings allowed = []" "forbidden_findings allowed forbidden = []"
    by (auto simp: validate_scope_rules_def bindE_Inr_iff simp del: mapE.simps)
  have "x # xs = map JStr allowed" using p(1) unfolding need_strs .
  moreover have "jget task ''forbidden_paths'' = JList (map JStr forbidden) \<or> (\<not> is_list (jget task ''forbidden_paths'') \<and> forbidden = [])"
    using p(2) by (cases "jget task ''forbidden_paths''") (auto simp: need_strs)
  moreover have "\<forall>a \<in> set allowed. lower (trim_trailing a) \<notin> set DISALLOWED_SCOPE_MARKERS"
    using p(4) by (simp add: broad_findings_def filter_empty_conv)
  ultimately show ?thesis
    using that al p(3,5) forbidden_findings_Nil by (metis list.distinct(1) list.simps(8))
qed

subsection \<open>Claims\<close>

lemma claims_clean:
  assumes "validate_claims task registry = []" and "jget task ''claims'' = JList cs" and "JStr c \<in> set cs"
  shows "\<exists>status. dict_get (claims_map registry) c = Some status \<and> status \<notin> set CONTRADICTORY_CLAIM_STATUSES"
proof -
  from assms have "claim_finding (claims_map registry) (JStr c) = []" by (auto simp: validate_claims_def)
  then show ?thesis by (auto simp: claim_finding_def split: option.splits if_splits)
qed

subsection \<open>Properties\<close>

text \<open>
  No nested field can claim completion: the search reports a finding exactly when some object at any
  depth of the task has a status or repo_status that reads done, or a decision that reads pass, up to
  case and surrounding blanks.
\<close>

theorem find_status_done_exact:
  "find_status_done path task \<noteq> [] \<longleftrightarrow>
     (\<exists>key text. nested_member task key (JStr text)
        \<and> (if key = ''decision'' then lower (strip text) = ''pass''
           else key \<in> {''status'', ''repo_status''} \<and> lower (strip text) = ''done''))"
proof -
  let ?C = "\<lambda>k text. if k = ''decision'' then lower (strip text) = ''pass''
      else k \<in> {''status'', ''repo_status''} \<and> lower (strip text) = ''done''"
  have f: "final_field k v \<longleftrightarrow> (\<exists>text. v = JStr text \<and> ?C k text)" for k v
    by (cases "k = ''decision''") (simp_all add: final_field_def)
  have "find_status_done path task \<noteq> [] \<longleftrightarrow> (\<exists>k v. nested_member task k v \<and> final_field k v)"
    unfolding find_status_iff has_final_def by (rule not_not)
  also have "\<dots> \<longleftrightarrow> (\<exists>k text. nested_member task k (JStr text) \<and> ?C k text)"
    unfolding f by iprover
  finally show ?thesis .
qed


definition demo_contract :: dict where
  "demo_contract = [(''task_id'', JStr ''AGENT-SAFE-001''), (''goal'', JStr ''g''), (''task_type'', JStr ''doc_change''),
     (''allowed_paths'', JList [JStr ''docs/guides/'']), (''forbidden_paths'', JList [JStr ''docs/_generated/'']),
     (''claims'', JList [JStr ''C-1'']), (''expected_evidence'', JList [JStr ''log'']),
     (''validation_commands'', JList [JStr ''make check'']), (''delete_allowed'', JBool False)]"

definition demo_registry :: dict where
  "demo_registry = [(''claims'', JList [JDict [(''id'', JStr ''C-1''), (''status'', JStr ''Open'')]])]"

lemma demo_contract_clean:
  "run_non_ideal_guard 4 (\<lambda>_. None) (\<lambda>_ _. True) (Inl UnicodeErr) (JDict demo_contract) demo_registry
     (Some agent_task_schema) = Inr []"
  by code_simp


text \<open>
  C32. The guard does not report an ill-typed scope entry, it fails on it: whenever the schema check itself
  returns and allowed_paths is a list with an element that is not a string, the guard raises an
  AttributeError, which the command does not handle, instead of the schema finding it already has.
\<close>

theorem run_non_ideal_guard_crashes:
  assumes "validate_task_schema depth re_compile re_search schema_file (JDict task) schema = Inr findings"
    and "jget task ''allowed_paths'' = JList (x # xs)" and "\<exists>v \<in> set (x # xs). \<not> is_str v"
  shows "\<exists>message. run_non_ideal_guard depth re_compile re_search schema_file (JDict task) registry schema
     = Inl (AttributeErr message)"
proof -
  from need_strs_fail [OF assms(3), of "''replace''"] obtain e where
    "mapE (need_str ''replace'') (x # xs) = Inl (AttributeErr e)" by blast
  then have "validate_scope_rules task = Inl (AttributeErr e)"
    unfolding validate_scope_rules_def assms(2) by (simp del: mapE.simps)
  then show ?thesis unfolding run_non_ideal_guard_def assms(1) by simp
qed

theorem run_non_ideal_guard_crashes_witness:
  "\<exists>message. run_non_ideal_guard 4 (\<lambda>_. None) (\<lambda>_ _. True) (Inl UnicodeErr)
     (JDict [(''allowed_paths'', JList [JInt 1])]) demo_registry (Some agent_task_schema) = Inl (AttributeErr message)"
proof -
  let ?t = "[(''allowed_paths'', JList [JInt 1])]"
  let ?v = "validate_task_schema 4 (\<lambda>_. None) (\<lambda>_ _. True) (Inl UnicodeErr) (JDict ?t) (Some agent_task_schema)"
  have "\<not> isl ?v \<and> projr ?v \<noteq> []" by code_simp
  then obtain fs where "?v = Inr fs" by (cases ?v) auto
  from run_non_ideal_guard_crashes [OF this, of "JInt 1" "[]"] show ?thesis
    by (simp add: jget_def dict_get_def)
qed

text \<open>
  The report has no duplicates and loses nothing: the guard's findings have distinct keys of code,
  message and field, and every schema violation is among them.
\<close>

theorem run_non_ideal_guard_report:
  assumes "run_non_ideal_guard depth re_compile re_search schema_file task registry schema = Inr findings"
  shows "distinct (map finding_key findings)
   \<and> (\<exists>violations. validate_task_schema depth re_compile re_search schema_file task schema = Inr violations
        \<and> finding_key ` set violations \<subseteq> finding_key ` set findings)"
  using assms unfolding run_non_ideal_guard_def
  by (auto simp: bindE_Inr_iff dedupe_distinct dedupe_keys)

theorem run_non_ideal_guard_report_witness:
  "distinct (map finding_key (projr (run_non_ideal_guard 4 (\<lambda>_. None) (\<lambda>_ _. True) (Inl UnicodeErr)
     (JDict []) demo_registry (Some agent_task_schema))))"
proof -
  let ?v = "run_non_ideal_guard 4 (\<lambda>_. None) (\<lambda>_ _. True) (Inl UnicodeErr) (JDict []) demo_registry (Some agent_task_schema)"
  have "\<not> isl ?v" by code_simp
  then obtain fs where "?v = Inr fs" by (cases ?v) auto
  then show ?thesis using run_non_ideal_guard_report by fastforce
qed

end
