(* ===== verification/Agent_Handoff.thy ===== *)
theory Agent_Handoff
  imports Agent_Task
begin

text \<open>
  \<open>src/scripts/agent/validate_handoff.py\<close>: validation of a review handoff against its task contract.  The
  task and the handoff are checked against their schemas and by the task guard, and only when both have
  the right shape are they compared: paths, claims, evidence, validation results and outcome.

  The fields that the comparison reads are collected first, in \<open>binding_of\<close>; where Python would raise a
  KeyError or go on with a value of another type, \<open>binding_of\<close> is an error.  That error never arises after
  the schemas passed, which is proved for the transcribed schemas.  Parameters: SHA-256, the existence of
  an evidence file inside the repository, regular expressions, and the files.
\<close>

datatype handoff_error = Guard guard_error | KeyErr string | ShapeErr string

definition is_letter :: "char \<Rightarrow> bool" where
  "is_letter c = (let n = of_char c :: nat in (65 \<le> n \<and> n \<le> 90) \<or> (97 \<le> n \<and> n \<le> 122))"

definition windows_drive :: "string \<Rightarrow> bool" where
  "windows_drive s = (case s of a # b # c # _ \<Rightarrow> is_letter a \<and> b = CHR '':'' \<and> c = slash | _ \<Rightarrow> False)"

definition handoff_resolve_repo_relative ::
  "(string \<Rightarrow> string list) \<Rightarrow> string \<Rightarrow> string \<Rightarrow> string + string list" where
  "handoff_resolve_repo_relative resolve repo_root text =
     (let raw_text = strip (slashes text) in
      if raw_text = [] \<or> starts_with ''/'' raw_text \<or> windows_drive raw_text
      then Inl (''Path must be repository-relative: '' @ text)
      else let base = resolve repo_root; resolved = resolve (join ''/'' base @ ''/'' @ raw_text) in
        if prefix base resolved then Inr resolved
        else Inl (''Path escapes repository root: '' @ text))"

definition normalize_repo_path :: "string \<Rightarrow> bool \<Rightarrow> string option" where
  "normalize_repo_path text allow_directory =
     (let raw = strip (slashes text) in
      if raw = [] \<or> starts_with ''/'' raw \<or> windows_drive raw then None
      else
        let is_directory = ends_with ''/'' raw;
            parts = segments (if is_directory then butlast raw else raw)
        in
        if list_ex (\<lambda>part. part \<in> {[], ''.'', ''..''}) parts then None
        else if is_directory \<and> \<not> allow_directory then None
        else Some (join [slash] parts @ (if is_directory then ''/'' else [])))"

definition path_matches_scope :: "string \<Rightarrow> string \<Rightarrow> bool" where
  "path_matches_scope path scope =
     (case (normalize_repo_path path False, normalize_repo_path scope True) of
        (Some p, Some s) \<Rightarrow> if ends_with ''/'' s then starts_with s p else p = s
      | _ \<Rightarrow> False)"

definition schema_findings ::
  "nat \<Rightarrow> (string \<Rightarrow> string option) \<Rightarrow> (string \<Rightarrow> string \<Rightarrow> bool) \<Rightarrow> json \<Rightarrow> dict \<Rightarrow> string \<Rightarrow>
   guard_error + guard_finding list" where
  "schema_findings depth re_compile re_search payload schema code =
     bindE (liftC (validate_instance depth re_compile re_search None ''$'' (JDict schema) payload)) (\<lambda>violations.
     Inr (map (\<lambda>(path, message). guard_item code message (schema_field path)) violations))"

text \<open>A set of normalized paths, as the list of its members without repetition.\<close>

definition normalized_file_set :: "string list \<Rightarrow> string list" where
  "normalized_file_set texts = remdups (List.map_filter (\<lambda>t. normalize_repo_path t False) texts)"

definition sorted_set :: "string list \<Rightarrow> string list" where
  "sorted_set xs = sort (remdups xs)"

text \<open>The fields of task and handoff that the comparison reads.\<close>

record binding =
  b_task_id :: string
  b_allowed :: "string list"
  b_forbidden :: "string list"
  b_claims :: "string list"
  b_expected :: "string list"
  b_commands :: "string list"
  b_delete_allowed :: bool
  b_handoff_task_id :: string
  b_digest :: string
  b_changed :: "string list"
  b_deleted :: "string list"
  b_addressed :: "string list"
  b_produced :: "string list"
  b_missing :: "string list"
  b_results :: "(string \<times> string) list"
  b_outcome :: string
  b_blockers :: "string list"
  b_gaps :: "string list"

definition need :: "dict \<Rightarrow> string \<Rightarrow> handoff_error + json" where
  "need d k = (case dict_get d k of Some v \<Rightarrow> Inr v | None \<Rightarrow> Inl (KeyErr k))"

definition text_of :: "string \<Rightarrow> json \<Rightarrow> handoff_error + string" where
  "text_of k v = (case v of JStr s \<Rightarrow> Inr s | _ \<Rightarrow> Inl (ShapeErr k))"

definition need_text :: "dict \<Rightarrow> string \<Rightarrow> handoff_error + string" where
  "need_text d k = bindE (need d k) (text_of k)"

definition need_texts :: "dict \<Rightarrow> string \<Rightarrow> handoff_error + string list" where
  "need_texts d k = bindE (need d k) (\<lambda>v. case v of JList xs \<Rightarrow> mapE (text_of k) xs | _ \<Rightarrow> Inl (ShapeErr k))"

definition need_bool :: "dict \<Rightarrow> string \<Rightarrow> handoff_error + bool" where
  "need_bool d k = bindE (need d k) (\<lambda>v. case v of JBool b \<Rightarrow> Inr b | _ \<Rightarrow> Inl (ShapeErr k))"

definition result_of :: "json \<Rightarrow> handoff_error + string \<times> string" where
  "result_of v = (case v of
     JDict r \<Rightarrow> bindE (need_text r ''command'') (\<lambda>c. bindE (need_text r ''status'') (\<lambda>s. Inr (c, s)))
   | _ \<Rightarrow> Inl (ShapeErr ''validation_results''))"

definition need_results :: "dict \<Rightarrow> handoff_error + (string \<times> string) list" where
  "need_results d = bindE (need d ''validation_results'') (\<lambda>v.
     case v of JList xs \<Rightarrow> mapE result_of xs | _ \<Rightarrow> Inl (ShapeErr ''validation_results''))"

definition binding_of :: "dict \<Rightarrow> dict \<Rightarrow> handoff_error + binding" where
  "binding_of task handoff =
     bindE (need_text handoff ''task_id'') (\<lambda>handoff_task_id.
     bindE (need_text task ''task_id'') (\<lambda>task_id.
     bindE (need_text handoff ''task_contract_sha256'') (\<lambda>digest.
     bindE (need_texts task ''allowed_paths'') (\<lambda>allowed.
     bindE (need_texts task ''forbidden_paths'') (\<lambda>forbidden.
     bindE (need_texts handoff ''changed_paths'') (\<lambda>changed.
     bindE (need_texts handoff ''deleted_paths'') (\<lambda>deleted.
     bindE (need_bool task ''delete_allowed'') (\<lambda>del.
     bindE (need_texts task ''claims'') (\<lambda>claims.
     bindE (need_texts handoff ''claims_addressed'') (\<lambda>addressed.
     bindE (need_texts task ''expected_evidence'') (\<lambda>expected.
     bindE (need_texts handoff ''evidence_produced'') (\<lambda>produced.
     bindE (need_texts handoff ''missing_evidence'') (\<lambda>missing.
     bindE (need_results handoff) (\<lambda>results.
     bindE (need_texts task ''validation_commands'') (\<lambda>commands.
     bindE (need_text handoff ''outcome'') (\<lambda>outcome.
     bindE (need_texts handoff ''blockers'') (\<lambda>blockers.
     bindE (need_texts handoff ''residual_gaps'') (\<lambda>gaps.
     Inr \<lparr>b_task_id = task_id, b_allowed = allowed, b_forbidden = forbidden, b_claims = claims,
          b_expected = expected, b_commands = commands, b_delete_allowed = del,
          b_handoff_task_id = handoff_task_id, b_digest = digest, b_changed = changed, b_deleted = deleted,
          b_addressed = addressed, b_produced = produced, b_missing = missing, b_results = results,
          b_outcome = outcome, b_blockers = blockers, b_gaps = gaps\<rparr>))))))))))))))))))"

subsection \<open>The comparison\<close>

definition path_findings :: "binding \<Rightarrow> string \<Rightarrow> string \<Rightarrow> guard_finding list" where
  "path_findings b field declared =
     (case normalize_repo_path declared False of
        None \<Rightarrow> [guard_item ''PATH_OUT_OF_REPO'' (''Invalid repository-relative file path: '' @ declared) (Some field)]
      | Some normalized \<Rightarrow>
          (if list_ex (path_matches_scope normalized) (b_allowed b) then []
           else [guard_item ''PATH_OUT_OF_SCOPE'' (''Path is not allowed by task: '' @ declared) (Some field)])
        @ (if list_ex (path_matches_scope normalized) (b_forbidden b)
           then [guard_item ''FORBIDDEN_PATH'' (''Path is forbidden by task: '' @ declared) (Some field)] else []))"

definition handoff_validate_paths :: "binding \<Rightarrow> guard_finding list" where
  "handoff_validate_paths b =
     (let changed = normalized_file_set (b_changed b); deleted = normalized_file_set (b_deleted b) in
      concat (map (path_findings b ''changed_paths'') (b_changed b))
    @ concat (map (path_findings b ''deleted_paths'') (b_deleted b))
    @ map (\<lambda>p. guard_item ''PATH_STATE_CONTRADICTION'' (''Path cannot be both changed and deleted: '' @ p) (Some ''deleted_paths''))
        (sorted_set (filter (\<lambda>p. p \<in> set deleted) changed))
    @ (if deleted \<noteq> [] \<and> \<not> b_delete_allowed b
       then [guard_item ''DELETE_WITHOUT_PERMISSION''
               ''Handoff declares deletions although task forbids deletion'' (Some ''deleted_paths'')]
       else []))"

definition handoff_validate_claims :: "binding \<Rightarrow> guard_finding list" where
  "handoff_validate_claims b =
     map (\<lambda>c. guard_item ''CLAIM_NOT_DECLARED'' (''Handoff addresses undeclared claim: '' @ c) (Some ''claims_addressed''))
       (sorted_set (filter (\<lambda>c. c \<notin> set (b_claims b)) (b_addressed b)))
   @ map (\<lambda>c. guard_item ''CLAIM_NOT_ADDRESSED'' (''Task claim is not addressed by handoff: '' @ c) (Some ''claims_addressed''))
       (sorted_set (filter (\<lambda>c. c \<notin> set (b_addressed b)) (b_claims b)))"

definition evidence_path_findings :: "(string \<Rightarrow> bool) \<Rightarrow> string \<Rightarrow> string \<Rightarrow> guard_finding list" where
  "evidence_path_findings local_file field evidence =
     (case normalize_repo_path evidence False of
        None \<Rightarrow> [guard_item ''EVIDENCE_PATH_INVALID''
                   (''Evidence must be a repository-relative file path: '' @ evidence) (Some field)]
      | Some normalized \<Rightarrow>
          if field = ''evidence_produced'' \<and> \<not> local_file normalized
          then [guard_item ''EVIDENCE_NOT_FOUND''
                  (''Produced evidence file does not exist inside the repository: '' @ evidence) (Some field)]
          else [])"

definition handoff_validate_evidence :: "(string \<Rightarrow> bool) \<Rightarrow> binding \<Rightarrow> guard_finding list" where
  "handoff_validate_evidence local_file b =
     (let expected = normalized_file_set (b_expected b);
          produced = normalized_file_set (b_produced b);
          missing = normalized_file_set (b_missing b)
      in map (\<lambda>e. guard_item ''EVIDENCE_STATE_CONTRADICTION''
                (''Evidence cannot be both produced and missing: '' @ e) (Some ''missing_evidence''))
           (sorted_set (filter (\<lambda>e. e \<in> set missing) produced))
       @ map (\<lambda>e. guard_item ''EXPECTED_EVIDENCE_UNACCOUNTED''
                (''Expected evidence is neither produced nor declared missing: '' @ e) (Some ''evidence_produced''))
           (sorted_set (filter (\<lambda>e. e \<notin> set produced \<and> e \<notin> set missing) expected))
       @ map (\<lambda>e. guard_item ''UNEXPECTED_MISSING_EVIDENCE''
                (''Missing evidence was not required by task: '' @ e) (Some ''missing_evidence''))
           (sorted_set (filter (\<lambda>e. e \<notin> set expected) missing))
       @ concat (map (evidence_path_findings local_file ''evidence_produced'') (b_produced b))
       @ concat (map (evidence_path_findings local_file ''missing_evidence'') (b_missing b)))"

text \<open>Recording the results: the map from command to its last status, and the repeated commands.\<close>

fun record_results :: "nat \<Rightarrow> (string \<times> string) list \<Rightarrow> (string \<times> string) list \<Rightarrow>
    (string \<times> string) list \<times> guard_finding list" where
  "record_results index result_map [] = (result_map, [])"
| "record_results index result_map ((command, status) # rest) =
     (let (final_map, findings) = record_results (index + 1) (dict_set result_map command status) rest in
      (final_map,
       (if command \<in> set (dict_keys result_map)
        then [guard_item ''VALIDATION_RESULT_DUPLICATE'' (''Validation command is recorded more than once: '' @ command)
                (Some (''validation_results['' @ str_nat index @ '']''))]
        else []) @ findings))"

definition outcome_findings :: "binding \<Rightarrow> string list \<Rightarrow> string list \<Rightarrow> guard_finding list" where
  "outcome_findings b non_passed missing_results =
     (if b_outcome b = ''ready_for_review'' then
        (if b_blockers b \<noteq> [] \<or> b_missing b \<noteq> []
         then [guard_item ''CONTRADICTORY_OUTCOME'' ''ready_for_review requires no blockers or missing evidence'' (Some ''outcome'')]
         else [])
      @ (if non_passed \<noteq> [] \<or> missing_results \<noteq> []
         then [guard_item ''CONTRADICTORY_OUTCOME''
                 ''ready_for_review requires every recorded and required validation to pass'' (Some ''outcome'')]
         else [])
      else if b_outcome b = ''blocked'' \<and> b_blockers b = []
      then [guard_item ''CONTRADICTORY_OUTCOME'' ''blocked requires at least one blocker'' (Some ''blockers'')]
      else if b_outcome b = ''incomplete'' \<and> \<not> (b_missing b \<noteq> [] \<or> b_gaps b \<noteq> [] \<or> non_passed \<noteq> []
              \<or> missing_results \<noteq> [] \<or> \<not> set (b_claims b) \<subseteq> set (b_addressed b))
      then [guard_item ''CONTRADICTORY_OUTCOME''
              (''incomplete requires explicitly accounted missing evidence, '' @
               ''a failed or not-run validation, or a residual gap'') (Some ''outcome'')]
      else [])"

definition handoff_validate_results :: "binding \<Rightarrow> guard_finding list" where
  "handoff_validate_results b =
     (let (result_map, duplicates) = record_results 0 [] (b_results b);
          missing_results = sorted_set (filter (\<lambda>c. c \<notin> set (dict_keys result_map)) (b_commands b));
          non_passed = sort (map fst (filter (\<lambda>(_, status). status \<noteq> ''passed'') result_map))
      in duplicates
       @ map (\<lambda>c. guard_item ''VALIDATION_RESULT_MISSING''
                (''No result recorded for required validation command: '' @ c) (Some ''validation_results'')) missing_results
       @ outcome_findings b non_passed missing_results)"

definition validate_binding :: "(string \<Rightarrow> bool) \<Rightarrow> string \<Rightarrow> binding \<Rightarrow> guard_finding list" where
  "validate_binding local_file expected_digest b =
     (if b_handoff_task_id b \<noteq> b_task_id b
      then [guard_item ''TASK_ID_MISMATCH'' ''Handoff task_id does not match task contract'' (Some ''task_id'')] else [])
   @ (if b_digest b \<noteq> expected_digest
      then [guard_item ''TASK_DIGEST_MISMATCH'' ''Handoff task_contract_sha256 does not match task file bytes''
              (Some ''task_contract_sha256'')] else [])
   @ handoff_validate_paths b @ handoff_validate_claims b
   @ handoff_validate_evidence local_file b @ handoff_validate_results b"

definition handoff_key :: "guard_finding \<Rightarrow> string \<times> string \<times> string" where
  "handoff_key f = (gf_code f, (case gf_field f of Some s \<Rightarrow> s | None \<Rightarrow> []), gf_message f)"

text \<open>The dictionary comprehension keeps the last finding of a key; the result is sorted by key.\<close>

definition unique_sorted :: "guard_finding list \<Rightarrow> guard_finding list" where
  "unique_sorted fs =
     map (\<lambda>k. the (map_of (rev (map (\<lambda>f. (handoff_key f, f)) fs)) k)) (sort (remdups (map handoff_key fs)))"

definition liftG :: "guard_error + 'a \<Rightarrow> handoff_error + 'a" where
  "liftG r = (case r of Inl e \<Rightarrow> Inl (Guard e) | Inr v \<Rightarrow> Inr v)"

record handoff_env =
  he_depth :: nat
  he_re_compile :: "string \<Rightarrow> string option"
  he_re_search :: "string \<Rightarrow> string \<Rightarrow> bool"
  he_local_file :: "string \<Rightarrow> bool"
  he_sha256 :: "string \<Rightarrow> string"
  he_task_schema :: "guard_error + json"
  he_handoff_schema :: "guard_error + json"

definition load_schema :: "string \<Rightarrow> guard_error + json \<Rightarrow> guard_error + dict" where
  "load_schema name file =
     bindE file (\<lambda>v. case v of
        JDict d \<Rightarrow> Inr d
      | _ \<Rightarrow> Inl (Contract (UnsupportedSchema (name @ '' must contain a JSON object''))))"

definition shape_error :: "guard_finding list \<Rightarrow> bool" where
  "shape_error fs = list_ex (\<lambda>f. gf_code f \<in> {''TASK_SCHEMA_INVALID'', ''HANDOFF_SCHEMA_INVALID''}) fs"

text \<open>\<open>registry\<close> is the loaded claim registry, or the code and message of the error in loading it.\<close>

definition validate_handoff ::
  "handoff_env \<Rightarrow> json \<Rightarrow> json \<Rightarrow> string \<Rightarrow> (string \<times> string) + dict \<Rightarrow> handoff_error + guard_finding list" where
  "validate_handoff env task handoff task_bytes registry =
     bindE (liftG (load_schema ''task.schema.json'' (he_task_schema env))) (\<lambda>task_schema.
     bindE (liftG (load_schema ''handoff.schema.json'' (he_handoff_schema env))) (\<lambda>handoff_schema.
     case registry of
       Inl (code, message) \<Rightarrow> Inr [guard_item code message None]
     | Inr claim_registry \<Rightarrow>
         bindE (liftG (schema_findings (he_depth env) (he_re_compile env) (he_re_search env) task task_schema
                  ''TASK_SCHEMA_INVALID'')) (\<lambda>task_findings.
         bindE (liftG (schema_findings (he_depth env) (he_re_compile env) (he_re_search env) handoff handoff_schema
                  ''HANDOFF_SCHEMA_INVALID'')) (\<lambda>handoff_findings.
         bindE (case task of
                  JDict _ \<Rightarrow> liftG (run_non_ideal_guard (he_depth env) (he_re_compile env) (he_re_search env)
                               (he_task_schema env) task claim_registry (Some task_schema))
                | _ \<Rightarrow> Inr []) (\<lambda>guard_findings.
         let findings = task_findings @ handoff_findings @ guard_findings in
         bindE (case (shape_error findings, task, handoff) of
                  (False, JDict t, JDict h) \<Rightarrow>
                    bindE (binding_of t h) (\<lambda>b. Inr (validate_binding (he_local_file env) (he_sha256 env task_bytes) b))
                | _ \<Rightarrow> Inr []) (\<lambda>binding_findings.
         Inr (unique_sorted (findings @ binding_findings))))))))"

subsection \<open>The command\<close>

record handoff_files =
  hf_root :: string
  hf_resolve :: "string \<Rightarrow> string list"
  hf_file :: "string list \<Rightarrow> read_result"
  hf_decode :: "string \<Rightarrow> string + json"
  hf_registry :: "string list \<Rightarrow> (string \<times> string) + dict"

record handoff_args =
  ha_task_file :: string
  ha_handoff_file :: string
  ha_claim_registry :: string

text \<open>\<open>Inr (Inl (code, message))\<close> is a CliInputError.\<close>

definition read_json ::
  "(string \<Rightarrow> string + json) \<Rightarrow> string \<Rightarrow> read_result \<Rightarrow> handoff_error + (string \<times> string) + json" where
  "read_json decode kind r =
     (case r of
        Content raw \<Rightarrow> (case loads_json_strict decode raw of
            Inr v \<Rightarrow> Inr (Inr v)
          | Inl (DuplicateKeyErr msg) \<Rightarrow> Inr (Inl (''DUPLICATE_JSON_KEY'', msg))
          | Inl (DecodeErr msg) \<Rightarrow> Inr (Inl (kind @ ''_JSON_INVALID'', ''JSON parse error: '' @ msg)))
      | OSErr exc \<Rightarrow> Inr (Inl (kind @ ''_FILE_UNREADABLE'', exc))
      | NotAFile \<Rightarrow> Inr (Inl (kind @ ''_FILE_UNREADABLE'', []))
      | BadEncoding \<Rightarrow> Inl (Guard UnicodeErr))"

text \<open>The exit code with the error code on stderr or the findings on stdout.\<close>

datatype handoff_result = Emitted string | Report "guard_finding list"

definition finish :: "handoff_error + guard_finding list \<Rightarrow> handoff_error + int \<times> handoff_result" where
  "finish r =
     (case r of
        Inr findings \<Rightarrow> Inr (if findings = [] then 0 else 1, Report findings)
      | Inl (Guard (Contract (UnsupportedSchema _))) \<Rightarrow> Inr (2, Emitted ''CONTRACT_SCHEMA_UNSUPPORTED'')
      | Inl (Guard (SchemaFileErr code)) \<Rightarrow> Inr (2, Emitted code)
      | Inl exc \<Rightarrow> Inl exc)"

definition handoff_main ::
  "handoff_env \<Rightarrow> handoff_files \<Rightarrow> handoff_args parse_outcome \<Rightarrow> handoff_error + int \<times> handoff_result" where
  "handoff_main env fs outcome =
     (case outcome of
        UsageError _ \<Rightarrow> Inr (2, Emitted ''INVALID_ARGUMENTS'')
      | SystemExit code \<Rightarrow> Inr ((case code of Some c \<Rightarrow> c | None \<Rightarrow> 0), Report [])
      | Parsed args \<Rightarrow>
          (case (handoff_resolve_repo_relative (hf_resolve fs) (hf_root fs) (ha_task_file args),
                 handoff_resolve_repo_relative (hf_resolve fs) (hf_root fs) (ha_handoff_file args),
                 handoff_resolve_repo_relative (hf_resolve fs) (hf_root fs) (ha_claim_registry args)) of
             (Inr task_path, Inr handoff_path, Inr registry_path) \<Rightarrow>
               if hf_file fs task_path = NotAFile then Inr (2, Emitted ''TASK_FILE_NOT_FOUND'')
               else if hf_file fs handoff_path = NotAFile then Inr (2, Emitted ''HANDOFF_FILE_NOT_FOUND'')
               else if hf_file fs registry_path = NotAFile then Inr (2, Emitted ''CLAIM_REGISTRY_NOT_FOUND'')
               else
                 bindE (read_json (hf_decode fs) ''TASK'' (hf_file fs task_path)) (\<lambda>task.
                 bindE (case task of Inl e \<Rightarrow> Inr (Inl e) | Inr _ \<Rightarrow>
                          read_json (hf_decode fs) ''HANDOFF'' (hf_file fs handoff_path)) (\<lambda>handoff.
                 case (task, handoff) of
                   (Inr t, Inr h) \<Rightarrow>
                     (case hf_registry fs registry_path of
                        Inl (code, _) \<Rightarrow> Inr (2, Emitted code)
                      | Inr registry \<Rightarrow>
                          finish (validate_handoff env t h
                            (case hf_file fs task_path of Content raw \<Rightarrow> raw | _ \<Rightarrow> []) (Inr registry)))
                 | (Inl (code, _), _) \<Rightarrow> Inr (2, Emitted code)
                 | (_, Inl (code, _)) \<Rightarrow> Inr (2, Emitted code)))
           | _ \<Rightarrow> Inr (2, Emitted ''PATH_OUT_OF_REPO'')))"

subsection \<open>The handoff schema\<close>

definition string_with :: "(string \<times> json) list \<Rightarrow> json" where
  "string_with keywords = JDict ((''type'', JStr ''string'') # keywords)"

definition unique_strings_ref :: json where
  "unique_strings_ref = JDict [(''$ref'', JStr ''#/definitions/uniqueStrings'')]"

definition agent_handoff_schema :: dict where
  "agent_handoff_schema =
     [(''$schema'', JStr ''http://json-schema.org/draft-07/schema#''),
      (''$id'', JStr ''https://weltgewebe.org/schemas/agent/handoff.schema.json''),
      (''title'', JStr ''Agent Handoff Contract''),
      (''description'', JStr ''Machine-readable review handoff for an agent task.''),
      (''type'', JStr ''object''),
      (''required'', JList (map JStr [''handoff_id'', ''task_id'', ''task_contract_sha256'', ''source_revision'',
         ''producer'', ''outcome'', ''changed_paths'', ''deleted_paths'', ''claims_addressed'', ''evidence_produced'',
         ''missing_evidence'', ''validation_results'', ''blockers'', ''residual_gaps''])),
      (''additionalProperties'', JBool False),
      (''properties'', JDict
        [(''handoff_id'', string_with [(''pattern'', JStr ''^[A-Z0-9]+(-[A-Z0-9]+)*$'')]),
         (''task_id'', string_with [(''pattern'', JStr ''^[A-Z]+(-[A-Z]+)*-[0-9]{3}$'')]),
         (''task_contract_sha256'', string_with [(''pattern'', JStr ''^[0-9a-f]{64}$'')]),
         (''source_revision'', string_with [(''pattern'', JStr ''^([0-9a-f]{40}|[0-9a-f]{64})$'')]),
         (''producer'', string_with [(''minLength'', JInt 1), (''maxLength'', JInt 128),
            (''pattern'', JStr ''^[A-Za-z0-9][A-Za-z0-9._/-]*$'')]),
         (''outcome'', string_with [(''enum'', JList (map JStr [''ready_for_review'', ''blocked'', ''incomplete'']))]),
         (''changed_paths'', unique_strings_ref),
         (''deleted_paths'', unique_strings_ref),
         (''claims_addressed'', JDict [(''allOf'', JList [unique_strings_ref, JDict [(''minItems'', JInt 1)]])]),
         (''evidence_produced'', unique_strings_ref),
         (''missing_evidence'', unique_strings_ref),
         (''validation_results'', JDict [(''type'', JStr ''array''),
            (''items'', JDict [(''type'', JStr ''object''),
               (''required'', JList [JStr ''command'', JStr ''status'']),
               (''additionalProperties'', JBool False),
               (''properties'', JDict
                 [(''command'', string_with [(''minLength'', JInt 1)]),
                  (''status'', string_with [(''enum'', JList (map JStr [''passed'', ''failed'', ''not_run'']))])])]),
            (''uniqueItems'', JBool True)]),
         (''blockers'', unique_strings_ref),
         (''residual_gaps'', unique_strings_ref)]),
      (''definitions'', JDict
        [(''uniqueStrings'', JDict [(''type'', JStr ''array''), (''uniqueItems'', JBool True),
            (''items'', string_with [(''minLength'', JInt 1)])])])]"

subsection \<open>Normalized paths\<close>

lemma set_strip: "set (strip s) \<subseteq> set s"
  unfolding strip_def rstrip_by_def lstrip_def using set_dropWhileD by (metis set_rev subsetI)

lemma slashes_id: "CHR 0x5C \<notin> set s \<Longrightarrow> slashes s = s"
  unfolding slashes_def by (rule map_idI) auto

lemma slashes_no_backslash: "CHR 0x5C \<notin> set (slashes s)"
  by (auto simp: slashes_def slash_def)

lemma slashes_strip_slashes [simp]: "slashes (strip (slashes s)) = strip (slashes s)"
  using slashes_no_backslash set_strip by (intro slashes_id) blast

text \<open>The segments a path or a scope names.\<close>

definition clean_segments :: "string list \<Rightarrow> bool" where
  "clean_segments parts = list_all (\<lambda>part. part \<notin> {[], ''.'', ''..''}) parts"

definition scope_path :: "string \<Rightarrow> string" where
  "scope_path raw = (if ends_with ''/'' raw then butlast raw else raw)"

lemma ends_with_butlast: "ends_with [c] s \<Longrightarrow> s = butlast s @ [c]"
  by (auto simp: ends_with_iff)

lemma slash_text: "''/'' = [slash]"
  by (simp add: slash_def)

lemma normalize_iff:
  "normalize_repo_path t ad = Some q \<longleftrightarrow>
     q = strip (slashes t) \<and> q \<noteq> [] \<and> \<not> starts_with ''/'' q \<and> \<not> windows_drive q
     \<and> clean_segments (segments (scope_path q)) \<and> (ends_with ''/'' q \<longrightarrow> ad)"
proof -
  define raw where "raw = strip (slashes t)"
  have "join [slash] (segments (scope_path raw)) @ (if ends_with ''/'' raw then ''/'' else []) = raw"
    using ends_with_butlast [of slash raw] by (auto simp: join_split_on scope_path_def slash_text)
  then show ?thesis
    unfolding normalize_repo_path_def raw_def [symmetric] Let_def
    by (auto simp: clean_segments_def list_all_iff list_ex_iff scope_path_def split: if_splits)
qed

lemma normalize_idem: "normalize_repo_path t ad = Some q \<Longrightarrow> normalize_repo_path q ad = Some q"
  unfolding normalize_iff by auto

lemma matches_scope_iff:
  "path_matches_scope p s \<longleftrightarrow>
     (\<exists>q r. normalize_repo_path p False = Some q \<and> normalize_repo_path s True = Some r
        \<and> (if ends_with ''/'' r then starts_with r q else q = r))"
  by (auto simp: path_matches_scope_def split: option.splits)

lemma matches_scope_prefix:
  assumes "path_matches_scope p s"
  shows "prefix (segments (scope_path (strip (slashes s)))) (segments (strip (slashes p)))"
proof -
  from assms obtain q r where q: "q = strip (slashes p)" and r: "r = strip (slashes s)"
    and m: "if ends_with ''/'' r then starts_with r q else q = r"
    unfolding matches_scope_iff normalize_iff by blast
  show ?thesis
  proof (cases "ends_with ''/'' r")
    case True
    then have "starts_with (scope_path r @ [slash]) q"
      using m ends_with_butlast [of slash r] by (simp add: scope_path_def slash_text)
    then show ?thesis unfolding q [symmetric] r [symmetric] by (simp flip: segments_prefix)
  next
    case False
    with m show ?thesis unfolding q [symmetric] r [symmetric] by (simp add: scope_path_def)
  qed
qed

interpretation handoff_scope: path_scope path_matches_scope
  "\<lambda>p. segments (strip (slashes p))" "\<lambda>s. segments (scope_path (strip (slashes s)))"
  by unfold_locales (simp_all add: matches_scope_prefix)

subsection \<open>What an empty comparison means\<close>

lemma sort_Nil: "sort xs = [] \<longleftrightarrow> xs = []"
  by (metis set_empty set_sort)

lemma sorted_set_Nil [simp]: "sorted_set xs = [] \<longleftrightarrow> xs = []"
  by (simp add: sorted_set_def)

lemma unique_sorted_Nil [simp]: "unique_sorted fs = [] \<longleftrightarrow> fs = []"
  by (simp add: unique_sorted_def)

lemma set_normalized_file_set:
  "p \<in> set (normalized_file_set ts) \<longleftrightarrow> (\<exists>t \<in> set ts. normalize_repo_path t False = Some p)"
  by (force simp: normalized_file_set_def List.map_filter_def)

lemma path_findings_Nil:
  "path_findings b field t = [] \<longleftrightarrow>
     (\<exists>p. normalize_repo_path t False = Some p \<and> handoff_scope.covered (b_allowed b) p
        \<and> \<not> handoff_scope.covered (b_forbidden b) p)"
  by (auto simp: path_findings_def handoff_scope.covered_def split: option.splits)

lemma validate_paths_Nil:
  assumes "handoff_validate_paths b = []"
  shows "\<forall>t \<in> set (b_changed b @ b_deleted b). \<exists>p. normalize_repo_path t False = Some p
      \<and> handoff_scope.covered (b_allowed b) p \<and> \<not> handoff_scope.covered (b_forbidden b) p"
    and "b_deleted b = [] \<or> b_delete_allowed b"
proof -
  from assms show ch: "\<forall>t \<in> set (b_changed b @ b_deleted b). \<exists>p. normalize_repo_path t False = Some p
      \<and> handoff_scope.covered (b_allowed b) p \<and> \<not> handoff_scope.covered (b_forbidden b) p"
    unfolding handoff_validate_paths_def Let_def using path_findings_Nil by fastforce
  from assms have d: "normalized_file_set (b_deleted b) = [] \<or> b_delete_allowed b"
    by (auto simp: handoff_validate_paths_def Let_def split: if_splits)
  show "b_deleted b = [] \<or> b_delete_allowed b"
  proof (rule ccontr)
    assume n: "\<not> (b_deleted b = [] \<or> b_delete_allowed b)"
    then obtain t where "t \<in> set (b_deleted b)" by (cases "b_deleted b") auto
    with ch obtain p where "p \<in> set (normalized_file_set (b_deleted b))"
      by (fastforce simp: set_normalized_file_set)
    with d n show False by auto
  qed
qed

lemma validate_claims_Nil: "handoff_validate_claims b = [] \<longleftrightarrow> set (b_claims b) = set (b_addressed b)"
  by (auto simp: handoff_validate_claims_def filter_empty_conv)

lemma validate_evidence_Nil:
  assumes "handoff_validate_evidence local_file b = []"
  shows "\<forall>t \<in> set (b_produced b). \<exists>p. normalize_repo_path t False = Some p \<and> local_file p"
    and "\<forall>p \<in> set (normalized_file_set (b_expected b)).
           p \<in> set (normalized_file_set (b_produced b)) \<or> p \<in> set (normalized_file_set (b_missing b))"
proof -
  from assms have "\<forall>t \<in> set (b_produced b). evidence_path_findings local_file ''evidence_produced'' t = []"
    by (auto simp: handoff_validate_evidence_def Let_def)
  then show "\<forall>t \<in> set (b_produced b). \<exists>p. normalize_repo_path t False = Some p \<and> local_file p"
    by (fastforce simp: evidence_path_findings_def split: option.splits if_splits)
  from assms show "\<forall>p \<in> set (normalized_file_set (b_expected b)).
      p \<in> set (normalized_file_set (b_produced b)) \<or> p \<in> set (normalized_file_set (b_missing b))"
    by (auto simp: handoff_validate_evidence_def Let_def filter_empty_conv)
qed

lemma record_results_Nil:
  "record_results i m rs = (fm, []) \<Longrightarrow> distinct (dict_keys m) \<Longrightarrow> fm = m @ rs \<and> distinct (dict_keys fm)"
proof (induction rs arbitrary: i m)
  case (Cons r rs)
  obtain c st where r: "r = (c, st)" by fastforce
  with Cons.prems(1) have c: "c \<notin> set (dict_keys m)" and rec: "record_results (i + 1) (dict_set m c st) rs = (fm, [])"
    by (auto split: if_splits prod.splits)
  from Cons.IH [OF rec dict_set_distinct [OF Cons.prems(2)]] show ?case
    unfolding dict_set_fresh [OF c] r by auto
qed simp

lemma validate_results_Nil:
  assumes "handoff_validate_results b = []"
  shows "distinct (map fst (b_results b))"
    and "b_outcome b = ''ready_for_review'' \<Longrightarrow>
      b_blockers b = [] \<and> b_missing b = [] \<and> (\<forall>(c, st) \<in> set (b_results b). st = ''passed'')
      \<and> (\<forall>c \<in> set (b_commands b). (c, ''passed'') \<in> set (b_results b))"
proof -
  obtain fm dups where fm: "record_results 0 [] (b_results b) = (fm, dups)" by fastforce
  with assms have d: "dups = []" by (auto simp: handoff_validate_results_def Let_def)
  with record_results_Nil fm have m: "fm = b_results b" "distinct (dict_keys fm)" by (force simp: dict_keys_def)+
  then show "distinct (map fst (b_results b))" by (simp add: dict_keys_def)
  from assms have mi: "\<forall>c \<in> set (b_commands b). c \<in> fst ` set (b_results b)"
    and out: "outcome_findings b (sort (map fst (filter (\<lambda>(_, status). status \<noteq> ''passed'') (b_results b)))) [] = []"
    by (auto simp: handoff_validate_results_def Let_def fm d m filter_empty_conv dict_keys_def sorted_set_def)
  assume ready: "b_outcome b = ''ready_for_review''"
  from out ready have "b_blockers b = []" "b_missing b = []"
    "sort (map fst (filter (\<lambda>(_, status). status \<noteq> ''passed'') (b_results b))) = []"
    by (auto simp: outcome_findings_def split: if_splits)
  moreover from this(3) have p: "\<forall>(c, st) \<in> set (b_results b). st = ''passed''"
    by (auto simp: filter_empty_conv sort_Nil)
  moreover from mi p have "\<forall>c \<in> set (b_commands b). (c, ''passed'') \<in> set (b_results b)" by force
  ultimately show "b_blockers b = [] \<and> b_missing b = [] \<and> (\<forall>(c, st) \<in> set (b_results b). st = ''passed'')
      \<and> (\<forall>c \<in> set (b_commands b). (c, ''passed'') \<in> set (b_results b))" by blast
qed

subsection \<open>What the schemas guarantee\<close>

lemma valid_static: "valid rc rs R (JDict d) x \<Longrightarrow> static_ok rc rs R d x"
  by (cases rule: valid.cases) auto

lemma valid_sub: "valid rc rs R (JDict d) x \<Longrightarrow> (c, y) \<in> subgoals R d x \<Longrightarrow> valid rc rs R c y"
  by (cases rule: valid.cases) auto

lemma valid_type: "valid rc rs R (JDict d) x \<Longrightarrow> jget d ''type'' = JStr t \<Longrightarrow> has_type x t"
  by (drule valid_static) (auto simp: static_ok_def node_ok_def)

lemma valid_required:
  assumes "valid rc rs R (JDict d) (JDict i)" and "get_or d ''required'' (JList []) = JList ks" and "JStr k \<in> set ks"
  shows "k \<in> set (dict_keys i)"
  using valid_static [OF assms(1)] assms(2,3) by (fastforce simp: static_ok_def node_ok_def)

lemma valid_property:
  assumes "valid rc rs R (JDict d) (JDict i)" and "k \<in> set (dict_keys i)"
    and "get_or d ''properties'' (JDict []) = JDict props" and "dict_get props k = Some c"
  shows "valid rc rs R c (jget i k)"
  using assms by (intro valid_sub [OF assms(1)]) (auto simp: subgoals_def)

lemma valid_item:
  assumes "valid rc rs R (JDict d) (JList xs)" and "jget d ''items'' = JDict it" and "x \<in> set xs"
  shows "valid rc rs R (JDict it) x"
  using assms by (intro valid_sub [OF assms(1)]) (auto simp: subgoals_def item_schemas_def)

lemma valid_ref:
  assumes "valid rc rs R (JDict d) x" and "jget d ''$ref'' = JStr ref" and "pointer R ref = Inr t"
  shows "valid rc rs R (JDict t) x"
  using assms by (intro valid_sub [OF assms(1)]) (auto simp: subgoals_def)

lemma valid_all_of:
  assumes "valid rc rs R (JDict d) x" and "get_or d ''allOf'' (JList []) = JList cs" and "c \<in> set cs"
  shows "valid rc rs R c x"
  using assms by (intro valid_sub [OF assms(1)]) (auto simp: subgoals_def)

text \<open>A value of type string, and an array of them.\<close>

definition strings :: "json \<Rightarrow> bool" where
  "strings v = (\<exists>ss. v = JList (map JStr ss))"

lemma valid_string:
  assumes "valid rc rs R (string_with ks) x"
  shows "\<exists>s. x = JStr s"
proof -
  have "has_type x ''string''"
    by (rule valid_type [OF assms [unfolded string_with_def]]) (simp add: jget_def dict_get_def)
  then show ?thesis by (cases x) (auto simp: has_type_def)
qed

lemma strings_iff: "strings (JList xs) \<longleftrightarrow> list_all is_str xs"
proof
  assume "list_all is_str xs"
  then have "xs = map JStr (map py_str xs)"
    by (induction xs) (auto elim: is_str.elims)
  then show "strings (JList xs)" unfolding strings_def by blast
qed (auto simp: strings_def list_all_iff)

lemma valid_strings:
  assumes "valid rc rs R (JDict d) x" and "jget d ''type'' = JStr ''array''"
    and "jget d ''items'' = JDict it" and "JDict it = string_with ks"
  shows "strings x"
proof -
  from valid_type [OF assms(1,2)] obtain xs where x: "x = JList xs"
    by (cases x) (auto simp: has_type_def)
  have "is_str y" if "y \<in> set xs" for y
    using valid_item [OF assms(1) [unfolded x] assms(3) that] assms(4) valid_string by fastforce
  then show ?thesis by (simp add: x strings_iff list_all_iff)
qed

lemma valid_nonblank:
  assumes "valid rc rs R (nonblank_strings n) x"
  shows "strings x"
  by (rule valid_strings [OF assms [unfolded nonblank_strings_def]])
    (auto simp: jget_def dict_get_def string_with_def)

lemma handoff_definition:
  "pointer agent_handoff_schema ''#/definitions/uniqueStrings'' =
     Inr [(''type'', JStr ''array''), (''uniqueItems'', JBool True), (''items'', string_with [(''minLength'', JInt 1)])]"
  by code_simp

lemma valid_unique_strings:
  assumes "valid rc rs agent_handoff_schema unique_strings_ref x"
  shows "strings x"
proof -
  have "jget [(''$ref'', JStr ''#/definitions/uniqueStrings'')] ''$ref'' = JStr ''#/definitions/uniqueStrings''"
    by (simp add: jget_def dict_get_def)
  from valid_ref [OF assms [unfolded unique_strings_ref_def] this handoff_definition]
  show ?thesis by (rule valid_strings) (auto simp: jget_def dict_get_def string_with_def)
qed

lemma need_ok: "k \<in> set (dict_keys d) \<Longrightarrow> need d k = Inr (jget d k)"
  using py_dict.get_None_iff [of d k] by (auto simp: need_def jget_def split: option.split)

lemma need_text_ok: "k \<in> set (dict_keys d) \<Longrightarrow> jget d k = JStr s \<Longrightarrow> need_text d k = Inr s"
  by (simp add: need_text_def need_ok text_of_def)

lemma mapE_text_of: "mapE (text_of k) (map JStr ss) = Inr ss"
  by (induction ss) (simp_all add: text_of_def)

lemma need_texts_ok: "k \<in> set (dict_keys d) \<Longrightarrow> strings (jget d k) \<Longrightarrow> \<exists>ss. need_texts d k = Inr ss"
  by (auto simp: need_texts_def need_ok strings_def mapE_text_of)

text \<open>The required members of an object and their property schemas.\<close>

definition props_of :: "dict \<Rightarrow> dict" where
  "props_of d = as_dict (get_or d ''properties'' (JDict []))"

lemma valid_member:
  assumes "valid rc rs R (JDict d) (JDict i)"
    and "get_or d ''required'' (JList []) = JList ks" and "JStr k \<in> set ks"
    and "is_dict (get_or d ''properties'' (JDict []))" and "dict_get (props_of d) k = Some c"
  shows "k \<in> set (dict_keys i) \<and> valid rc rs R c (jget i k)"
proof
  show k: "k \<in> set (dict_keys i)" by (rule valid_required [OF assms(1-3)])
  have "get_or d ''properties'' (JDict []) = JDict (props_of d)"
    using assms(4) by (cases "get_or d ''properties'' (JDict [])") (auto simp: props_of_def)
  from valid_property [OF assms(1) k this assms(5)] show "valid rc rs R c (jget i k)" .
qed

definition task_keys :: "string list" where
  "task_keys = [''task_id'', ''goal'', ''task_type'', ''allowed_paths'', ''forbidden_paths'', ''claims'',
     ''expected_evidence'', ''validation_commands'', ''delete_allowed'']"

definition handoff_keys :: "string list" where
  "handoff_keys = [''handoff_id'', ''task_id'', ''task_contract_sha256'', ''source_revision'', ''producer'', ''outcome'',
     ''changed_paths'', ''deleted_paths'', ''claims_addressed'', ''evidence_produced'', ''missing_evidence'',
     ''validation_results'', ''blockers'', ''residual_gaps'']"

lemma task_member:
  assumes "valid rc rs agent_task_schema (JDict agent_task_schema) (JDict t)" and "k \<in> set task_keys"
    and "dict_get (props_of agent_task_schema) k = Some c"
  shows "k \<in> set (dict_keys t) \<and> valid rc rs agent_task_schema c (jget t k)"
proof (rule valid_member [OF assms(1) _ _ _ assms(3)])
  show "get_or agent_task_schema ''required'' (JList []) = JList (map JStr task_keys)" by code_simp
  show "is_dict (get_or agent_task_schema ''properties'' (JDict []))" by code_simp
qed (use assms(2) in auto)

lemma handoff_member:
  assumes "valid rc rs agent_handoff_schema (JDict agent_handoff_schema) (JDict h)" and "k \<in> set handoff_keys"
    and "dict_get (props_of agent_handoff_schema) k = Some c"
  shows "k \<in> set (dict_keys h) \<and> valid rc rs agent_handoff_schema c (jget h k)"
proof (rule valid_member [OF assms(1) _ _ _ assms(3)])
  show "get_or agent_handoff_schema ''required'' (JList []) = JList (map JStr handoff_keys)" by code_simp
  show "is_dict (get_or agent_handoff_schema ''properties'' (JDict []))" by code_simp
qed (use assms(2) in auto)

lemma task_props:
  "dict_get (props_of agent_task_schema) ''task_id'' =
     Some (string_with [(''pattern'', JStr ''^[A-Z]+(-[A-Z]+)*-[0-9]{3}$'')])"
  "dict_get (props_of agent_task_schema) ''delete_allowed'' = Some (JDict [(''type'', JStr ''boolean'')])"
  by code_simp+

definition task_list_keys :: "string list" where
  "task_list_keys = [''allowed_paths'', ''forbidden_paths'', ''claims'', ''expected_evidence'', ''validation_commands'']"

lemma task_list_props:
  "k \<in> set task_list_keys \<Longrightarrow> k \<in> set task_keys
     \<and> dict_get (props_of agent_task_schema) k \<in> {Some (nonblank_strings 0), Some (nonblank_strings 1)}"
proof -
  have "list_all (\<lambda>k. k \<in> set task_keys
      \<and> dict_get (props_of agent_task_schema) k \<in> {Some (nonblank_strings 0), Some (nonblank_strings 1)}) task_list_keys"
    by code_simp
  then show "k \<in> set task_list_keys \<Longrightarrow> ?thesis" by (simp add: list_all_iff)
qed

lemma task_fields:
  assumes "valid rc rs agent_task_schema (JDict agent_task_schema) (JDict t)"
  shows "\<exists>s. need_text t ''task_id'' = Inr s" and "\<exists>b. need_bool t ''delete_allowed'' = Inr b"
    and "k \<in> set task_list_keys \<Longrightarrow> \<exists>ss. need_texts t k = Inr ss"
proof -
  show "\<exists>s. need_text t ''task_id'' = Inr s"
    using task_member [OF assms _ task_props(1)] valid_string need_text_ok by (fastforce simp: task_keys_def)
  have d: "''delete_allowed'' \<in> set (dict_keys t)" "valid rc rs agent_task_schema (JDict [(''type'', JStr ''boolean'')]) (jget t ''delete_allowed'')"
    using task_member [OF assms _ task_props(2)] by (auto simp: task_keys_def)
  have "has_type (jget t ''delete_allowed'') ''boolean''"
    by (rule valid_type [OF d(2)]) (simp add: jget_def dict_get_def)
  then show "\<exists>b. need_bool t ''delete_allowed'' = Inr b"
    by (cases "jget t ''delete_allowed''") (auto simp: need_bool_def need_ok [OF d(1)] has_type_def)
  assume "k \<in> set task_list_keys"
  then obtain n where "k \<in> set task_keys" "dict_get (props_of agent_task_schema) k = Some (nonblank_strings n)"
    using task_list_props by blast
  from task_member [OF assms this] show "\<exists>ss. need_texts t k = Inr ss"
    using valid_nonblank need_texts_ok by blast
qed

definition handoff_list_keys :: "string list" where
  "handoff_list_keys = [''changed_paths'', ''deleted_paths'', ''evidence_produced'', ''missing_evidence'',
     ''blockers'', ''residual_gaps'']"

definition handoff_text_keys :: "string list" where
  "handoff_text_keys = [''task_id'', ''task_contract_sha256'', ''outcome'']"

lemma handoff_props:
  "list_all (\<lambda>k. k \<in> set handoff_keys \<and> dict_get (props_of agent_handoff_schema) k = Some unique_strings_ref) handoff_list_keys"
  "dict_get (props_of agent_handoff_schema) ''claims_addressed'' =
     Some (JDict [(''allOf'', JList [unique_strings_ref, JDict [(''minItems'', JInt 1)]])])"
  "list_all (\<lambda>k. k \<in> set handoff_keys \<and> dict_get (props_of agent_handoff_schema) k =
      Some (string_with (tl (as_dict (the (dict_get (props_of agent_handoff_schema) k)))))) handoff_text_keys"
  by code_simp+

definition result_schema :: dict where
  "result_schema = [(''type'', JStr ''object''), (''required'', JList [JStr ''command'', JStr ''status'']),
     (''additionalProperties'', JBool False),
     (''properties'', JDict
       [(''command'', string_with [(''minLength'', JInt 1)]),
        (''status'', string_with [(''enum'', JList (map JStr [''passed'', ''failed'', ''not_run'']))])])]"

lemma handoff_results_prop:
  "dict_get (props_of agent_handoff_schema) ''validation_results'' =
     Some (JDict [(''type'', JStr ''array''), (''items'', JDict result_schema), (''uniqueItems'', JBool True)])"
  by code_simp

lemma result_of_ok:
  assumes "valid rc rs R (JDict result_schema) x"
  shows "\<exists>r. result_of x = Inr r"
proof -
  have "has_type x ''object''"
    by (rule valid_type [OF assms]) (simp add: result_schema_def jget_def dict_get_def)
  then obtain i where x: "x = JDict i" by (cases x) (auto simp: has_type_def)
  have m: "k \<in> set (dict_keys i) \<and> valid rc rs R c (jget i k)"
    if "k \<in> {''command'', ''status''}" "dict_get (props_of result_schema) k = Some c" for k c
  proof (rule valid_member [OF assms [unfolded x] _ _ _ that(2)])
    show "get_or result_schema ''required'' (JList []) = JList [JStr ''command'', JStr ''status'']" by code_simp
    show "is_dict (get_or result_schema ''properties'' (JDict []))" by code_simp
  qed (use that in auto)
  have "dict_get (props_of result_schema) ''command'' = Some (string_with [(''minLength'', JInt 1)])"
    "dict_get (props_of result_schema) ''status'' =
       Some (string_with [(''enum'', JList (map JStr [''passed'', ''failed'', ''not_run'']))])"
    by code_simp+
  from m [OF _ this(1)] m [OF _ this(2)] obtain c st where
    "''command'' \<in> set (dict_keys i)" "jget i ''command'' = JStr c"
    "''status'' \<in> set (dict_keys i)" "jget i ''status'' = JStr st"
    using valid_string by blast
  then have "need_text i ''command'' = Inr c" "need_text i ''status'' = Inr st"
    by (simp_all add: need_text_ok)
  then show ?thesis by (simp add: result_of_def x)
qed

lemma mapE_total: "\<forall>x \<in> set xs. \<exists>y. f x = Inr y \<Longrightarrow> \<exists>ys. mapE f xs = Inr ys"
  by (induction xs) auto

lemma handoff_fields:
  assumes v: "valid rc rs agent_handoff_schema (JDict agent_handoff_schema) (JDict h)"
  shows "k \<in> set handoff_list_keys \<Longrightarrow> \<exists>ss. need_texts h k = Inr ss"
    and "k \<in> set handoff_text_keys \<Longrightarrow> \<exists>s. need_text h k = Inr s"
    and "\<exists>ss. need_texts h ''claims_addressed'' = Inr ss"
    and "\<exists>rs'. need_results h = Inr rs'"
proof -
  show "\<exists>ss. need_texts h k = Inr ss" if "k \<in> set handoff_list_keys"
    using handoff_props(1) that handoff_member [OF v, of k] valid_unique_strings need_texts_ok
    by (fastforce simp: list_all_iff)
  show "\<exists>s. need_text h k = Inr s" if k: "k \<in> set handoff_text_keys"
  proof -
    from handoff_props(3) k obtain ks where kk: "k \<in> set handoff_keys"
      and "dict_get (props_of agent_handoff_schema) k = Some (string_with ks)"
      unfolding list_all_iff by blast
    from handoff_member [OF v this] show ?thesis using valid_string need_text_ok by blast
  qed
  have ca: "''claims_addressed'' \<in> set (dict_keys h)" "valid rc rs agent_handoff_schema
      (JDict [(''allOf'', JList [unique_strings_ref, JDict [(''minItems'', JInt 1)]])]) (jget h ''claims_addressed'')"
    using handoff_member [OF v _ handoff_props(2)] by (auto simp: handoff_keys_def)
  have "valid rc rs agent_handoff_schema unique_strings_ref (jget h ''claims_addressed'')"
    by (rule valid_all_of [OF ca(2)]) (auto simp: get_or_def dict_get_def)
  then show "\<exists>ss. need_texts h ''claims_addressed'' = Inr ss"
    using valid_unique_strings need_texts_ok ca(1) by blast
  have r: "''validation_results'' \<in> set (dict_keys h)" "valid rc rs agent_handoff_schema
      (JDict [(''type'', JStr ''array''), (''items'', JDict result_schema), (''uniqueItems'', JBool True)])
      (jget h ''validation_results'')"
    using handoff_member [OF v _ handoff_results_prop] by (auto simp: handoff_keys_def)
  have "has_type (jget h ''validation_results'') ''array''"
    by (rule valid_type [OF r(2)]) (simp add: jget_def dict_get_def)
  then obtain xs where x: "jget h ''validation_results'' = JList xs"
    by (cases "jget h ''validation_results''") (auto simp: has_type_def)
  have "\<exists>y. result_of z = Inr y" if "z \<in> set xs" for z
    by (rule result_of_ok, rule valid_item [OF r(2) [unfolded x] _ that]) (simp add: jget_def dict_get_def)
  then have "\<exists>ys. mapE result_of xs = Inr ys" using mapE_total [of xs result_of] by blast
  then show "\<exists>rs'. need_results h = Inr rs'"
    by (simp add: need_results_def need_ok [OF r(1)] x)
qed

lemma binding_total:
  assumes t: "valid rc rs agent_task_schema (JDict agent_task_schema) (JDict t)"
    and h: "valid rc rs agent_handoff_schema (JDict agent_handoff_schema) (JDict h)"
  shows "\<exists>b. binding_of t h = Inr b"
proof -
  note T = task_fields(3) [OF t, unfolded task_list_keys_def]
    and H = handoff_fields(1) [OF h, unfolded handoff_list_keys_def]
    and S = handoff_fields(2) [OF h, unfolded handoff_text_keys_def]
  from T [of "''allowed_paths''"] T [of "''forbidden_paths''"] T [of "''claims''"] T [of "''expected_evidence''"]
    T [of "''validation_commands''"] task_fields(1,2) [OF t]
  obtain a f c e v ti d where ts: "need_texts t ''allowed_paths'' = Inr a" "need_texts t ''forbidden_paths'' = Inr f"
    "need_texts t ''claims'' = Inr c" "need_texts t ''expected_evidence'' = Inr e" "need_texts t ''validation_commands'' = Inr v"
    "need_text t ''task_id'' = Inr ti" "need_bool t ''delete_allowed'' = Inr d" by auto
  from H [of "''changed_paths''"] H [of "''deleted_paths''"] H [of "''evidence_produced''"] H [of "''missing_evidence''"]
    H [of "''blockers''"] H [of "''residual_gaps''"]
  obtain h1 h2 h3 h4 h5 h6 where hs: "need_texts h ''changed_paths'' = Inr h1" "need_texts h ''deleted_paths'' = Inr h2"
    "need_texts h ''evidence_produced'' = Inr h3" "need_texts h ''missing_evidence'' = Inr h4"
    "need_texts h ''blockers'' = Inr h5" "need_texts h ''residual_gaps'' = Inr h6" by auto
  from S [of "''task_id''"] S [of "''task_contract_sha256''"] S [of "''outcome''"] handoff_fields(3,4) [OF h]
  obtain s1 s2 s3 s4 s5 where "need_text h ''task_id'' = Inr s1" "need_text h ''task_contract_sha256'' = Inr s2"
    "need_text h ''outcome'' = Inr s3" "need_texts h ''claims_addressed'' = Inr s4" "need_results h = Inr s5" by auto
  with ts hs show ?thesis by (simp add: binding_of_def)
qed

subsection \<open>Properties\<close>

lemma schema_findings_Nil:
  assumes "schema \<noteq> []"
  shows "schema_findings n rc rs x schema code = Inr [] \<Longrightarrow> valid rc rs schema (JDict schema) x"
  using validate_sound [OF assms] unfolding schema_findings_def liftC_def validate_None [OF assms]
  by (auto simp: bindE_Inr_iff split: sum.splits)

lemma schema_findings_codes:
  "schema_findings n rc rs x schema code = Inr fs \<Longrightarrow> f \<in> set fs \<Longrightarrow> gf_code f = code"
  by (auto simp: schema_findings_def bindE_Inr_iff guard_item_def)

lemma no_shape_error:
  assumes "\<not> shape_error (tf @ hf @ gf)"
    and "schema_findings n rc rs x sx ''TASK_SCHEMA_INVALID'' = Inr tf"
    and "schema_findings n rc rs y sy ''HANDOFF_SCHEMA_INVALID'' = Inr hf"
  shows "tf = [] \<and> hf = []"
proof -
  have "f \<notin> set tf" "f \<notin> set hf" for f
    using assms(1) schema_findings_codes [OF assms(2)] schema_findings_codes [OF assms(3)]
    by (auto simp: shape_error_def list_ex_iff)
  then show ?thesis by (metis list.set_intros(1) neq_Nil_conv)
qed

lemma liftG_Inl: "liftG r = Inl e \<Longrightarrow> \<exists>g. e = Guard g"
  by (auto simp: liftG_def split: sum.splits)

lemma liftG_Inr: "liftG r = Inr v \<longleftrightarrow> r = Inr v"
  by (auto simp: liftG_def split: sum.splits)

text \<open>The binding stage of the validator, on its own.\<close>

definition binding_stage :: "handoff_env \<Rightarrow> string \<Rightarrow> guard_finding list \<Rightarrow> json \<Rightarrow> json \<Rightarrow> handoff_error + guard_finding list" where
  "binding_stage env task_bytes findings task handoff =
     (case (shape_error findings, task, handoff) of
        (False, JDict t, JDict h) \<Rightarrow>
          bindE (binding_of t h) (\<lambda>b. Inr (validate_binding (he_local_file env) (he_sha256 env task_bytes) b))
      | _ \<Rightarrow> Inr [])"

lemma validate_handoff_stages:
  assumes "he_task_schema env = Inr (JDict ts)" and "he_handoff_schema env = Inr (JDict hs)"
  shows "validate_handoff env task handoff task_bytes (Inr registry) =
     bindE (liftG (schema_findings (he_depth env) (he_re_compile env) (he_re_search env) task ts ''TASK_SCHEMA_INVALID'')) (\<lambda>tf.
     bindE (liftG (schema_findings (he_depth env) (he_re_compile env) (he_re_search env) handoff hs ''HANDOFF_SCHEMA_INVALID'')) (\<lambda>hf.
     bindE (case task of
              JDict _ \<Rightarrow> liftG (run_non_ideal_guard (he_depth env) (he_re_compile env) (he_re_search env)
                           (he_task_schema env) task registry (Some ts))
            | _ \<Rightarrow> Inr []) (\<lambda>gf.
     bindE (binding_stage env task_bytes (tf @ hf @ gf) task handoff) (\<lambda>bf.
     Inr (unique_sorted ((tf @ hf @ gf) @ bf))))))"
  unfolding validate_handoff_def assms binding_stage_def Let_def
  by (simp add: load_schema_def liftG_def)

text \<open>
  C27. The comparison of task and handoff never fails on a missing or ill-typed field: with the
  repository's two schemas, every error the validator can raise comes from the schema check or the task
  guard, since a task and a handoff that pass their schemas have every field the comparison reads, with
  the type it expects.
\<close>

theorem validate_handoff_no_shape_failure:
  assumes "he_task_schema env = Inr (JDict agent_task_schema)"
    and "he_handoff_schema env = Inr (JDict agent_handoff_schema)"
    and "validate_handoff env task handoff task_bytes (Inr registry) = Inl exc"
  shows "\<exists>g. exc = Guard g"
proof -
  have ne: "agent_task_schema \<noteq> []" "agent_handoff_schema \<noteq> []"
    by (simp_all add: agent_task_schema_def agent_handoff_schema_def)
  have b: "\<exists>fs. binding_stage env task_bytes (tf @ hf @ gf) task handoff = Inr fs"
    if "schema_findings (he_depth env) (he_re_compile env) (he_re_search env) task agent_task_schema ''TASK_SCHEMA_INVALID'' = Inr tf"
      "schema_findings (he_depth env) (he_re_compile env) (he_re_search env) handoff agent_handoff_schema ''HANDOFF_SCHEMA_INVALID'' = Inr hf"
    for tf hf gf
  proof (cases "shape_error (tf @ hf @ gf)")
    case True
    then show ?thesis by (simp add: binding_stage_def)
  next
    case False
    with no_shape_error [OF False that] that have
      "valid (he_re_compile env) (he_re_search env) agent_task_schema (JDict agent_task_schema) task"
      "valid (he_re_compile env) (he_re_search env) agent_handoff_schema (JDict agent_handoff_schema) handoff"
      using schema_findings_Nil ne by blast+
    then show ?thesis using binding_total
      by (cases task; cases handoff) (fastforce simp: binding_stage_def False)+
  qed
  define G where "G = (case task of
      JDict _ \<Rightarrow> liftG (run_non_ideal_guard (he_depth env) (he_re_compile env) (he_re_search env)
                   (he_task_schema env) task registry (Some agent_task_schema))
    | _ \<Rightarrow> Inr [])"
  have G: "\<exists>g. e = Guard g" if "G = Inl e" for e
    using that by (cases task) (auto simp: G_def dest: liftG_Inl)
  note run = assms(3) [unfolded validate_handoff_stages [OF assms(1,2)] G_def [symmetric]]
  let ?T = "schema_findings (he_depth env) (he_re_compile env) (he_re_search env) task agent_task_schema ''TASK_SCHEMA_INVALID''"
    and ?H = "schema_findings (he_depth env) (he_re_compile env) (he_re_search env) handoff agent_handoff_schema ''HANDOFF_SCHEMA_INVALID''"
  consider e where "?T = Inl e" | tf e where "?T = Inr tf" "?H = Inl e"
    | tf hf e where "?T = Inr tf" "?H = Inr hf" "G = Inl e"
    | tf hf gf where "?T = Inr tf" "?H = Inr hf" "G = Inr gf"
    by (cases ?T; cases ?H; cases G) blast+
  then show ?thesis
  proof cases
    case (4 tf hf gf)
    with b [OF 4(1,2), of gf] run show ?thesis by (auto simp: liftG_def)
  qed (use run G in \<open>auto simp: liftG_def\<close>)
qed

definition demo_handoff :: dict where
  "demo_handoff =
     [(''handoff_id'', JStr ''H-1''), (''task_id'', JStr ''AGENT-SAFE-001''), (''task_contract_sha256'', JStr ''d''),
      (''source_revision'', JStr ''r''), (''producer'', JStr ''p''), (''outcome'', JStr ''ready_for_review''),
      (''changed_paths'', JList [JStr ''docs/guides/a.md'']), (''deleted_paths'', JList []),
      (''claims_addressed'', JList [JStr ''C-1'']), (''evidence_produced'', JList [JStr ''log'']),
      (''missing_evidence'', JList []),
      (''validation_results'', JList [JDict [(''command'', JStr ''make check''), (''status'', JStr ''passed'')]]),
      (''blockers'', JList []), (''residual_gaps'', JList [])]"

definition demo_env :: handoff_env where
  "demo_env = \<lparr>he_depth = 5, he_re_compile = (\<lambda>_. None), he_re_search = (\<lambda>_ _. True),
     he_local_file = (\<lambda>p. p = ''log''), he_sha256 = (\<lambda>_. ''d''),
     he_task_schema = Inr (JDict agent_task_schema), he_handoff_schema = Inr (JDict agent_handoff_schema)\<rparr>"

lemma demo_env_schemas: "he_task_schema demo_env = Inr (JDict agent_task_schema)"
    "he_handoff_schema demo_env = Inr (JDict agent_handoff_schema)"
  by (simp_all add: demo_env_def)

lemma demo_guard:
  "run_non_ideal_guard 5 (\<lambda>_. None) (\<lambda>_ _. True) (Inr (JDict agent_task_schema)) (JDict demo_contract) demo_registry
     (Some agent_task_schema) = Inr []"
  by code_simp

lemma demo_task_valid:
  "schema_findings 5 (\<lambda>_. None) (\<lambda>_ _. True) (JDict demo_contract) agent_task_schema ''TASK_SCHEMA_INVALID'' = Inr []"
  by code_simp

lemma demo_handoff_valid:
  "schema_findings 5 (\<lambda>_. None) (\<lambda>_ _. True) (JDict demo_handoff) agent_handoff_schema ''HANDOFF_SCHEMA_INVALID'' = Inr []"
  by code_simp

lemma demo_binding:
  "bindE (binding_of demo_contract demo_handoff) (\<lambda>b. Inr (validate_binding (\<lambda>p. p = ''log'') ''d'' b)) = Inr []"
  by code_simp

lemma demo_handoff_clean:
  "validate_handoff demo_env (JDict demo_contract) (JDict demo_handoff) ''bytes'' (Inr demo_registry) = Inr []"
  unfolding validate_handoff_stages [OF demo_env_schemas]
  by (simp add: demo_env_def demo_task_valid demo_handoff_valid demo_guard liftG_def binding_stage_def shape_error_def
      demo_binding)

theorem validate_handoff_no_shape_failure_witness:
  "\<exists>g. validate_handoff (demo_env\<lparr>he_depth := 0\<rparr>) (JDict demo_contract) (JDict demo_handoff) ''bytes''
     (Inr demo_registry) = Inl (Guard g)"
proof -
  let ?env = "demo_env\<lparr>he_depth := 0\<rparr>"
  have s: "he_task_schema ?env = Inr (JDict agent_task_schema)" "he_handoff_schema ?env = Inr (JDict agent_handoff_schema)"
    by (simp_all add: demo_env_def)
  have e: "validate_handoff ?env (JDict demo_contract) (JDict demo_handoff) ''bytes'' (Inr demo_registry) =
      Inl (Guard (Contract RecursionErr))"
    unfolding validate_handoff_stages [OF s] by (simp add: schema_findings_def validate_instance.simps liftC_def liftG_def)
  from validate_handoff_no_shape_failure [OF s e] e show ?thesis by simp
qed

text \<open>
  C26. A handoff that validates without findings and is declared ready for review is what a reviewer may
  rely on: it is bound to the task by id and digest, every path it changes or deletes is a normalized
  repository path inside the allowed and outside the forbidden scopes, deletions are permitted, exactly
  the task's claims are addressed, every evidence file it lists exists, every expected evidence path is
  produced, nothing is blocked or missing, and every required validation command is recorded as passed.
\<close>

theorem validate_handoff_ready_sound:
  assumes "validate_handoff env (JDict task) (JDict handoff) task_bytes (Inr registry) = Inr []"
    and "he_task_schema env = Inr (JDict ts)" and "he_handoff_schema env = Inr (JDict hs)"
    and "binding_of task handoff = Inr b" and "b_outcome b = ''ready_for_review''"
  shows "b_handoff_task_id b = b_task_id b \<and> b_digest b = he_sha256 env task_bytes
   \<and> (\<forall>t \<in> set (b_changed b @ b_deleted b). \<exists>p. normalize_repo_path t False = Some p
        \<and> list_ex (path_matches_scope p) (b_allowed b) \<and> \<not> list_ex (path_matches_scope p) (b_forbidden b))
   \<and> (b_deleted b = [] \<or> b_delete_allowed b)
   \<and> set (b_claims b) = set (b_addressed b)
   \<and> (\<forall>t \<in> set (b_produced b). \<exists>p. normalize_repo_path t False = Some p \<and> he_local_file env p)
   \<and> (\<forall>p \<in> set (normalized_file_set (b_expected b)). p \<in> set (normalized_file_set (b_produced b)))
   \<and> b_blockers b = [] \<and> b_missing b = []
   \<and> (\<forall>c \<in> set (b_commands b). (c, ''passed'') \<in> set (b_results b))
   \<and> (\<forall>(c, st) \<in> set (b_results b). st = ''passed'')"
proof -
  from assms(1) obtain fs where "\<not> shape_error fs" "fs = []"
    and "binding_stage env task_bytes fs (JDict task) (JDict handoff) = Inr []"
    unfolding validate_handoff_stages [OF assms(2,3)] by (auto simp: bindE_Inr_iff shape_error_def)
  with assms(4) have "validate_binding (he_local_file env) (he_sha256 env task_bytes) b = []"
    by (simp add: binding_stage_def)
  then have n: "b_handoff_task_id b = b_task_id b" "b_digest b = he_sha256 env task_bytes"
    "handoff_validate_paths b = []" "handoff_validate_claims b = []"
    "handoff_validate_evidence (he_local_file env) b = []" "handoff_validate_results b = []"
    unfolding validate_binding_def by (simp_all split: if_splits)
  note r = validate_results_Nil(2) [OF n(6) assms(5)]
  from r have "normalized_file_set (b_missing b) = []" by (simp add: normalized_file_set_def List.map_filter_def)
  with validate_evidence_Nil(2) [OF n(5)]
  have e: "\<forall>p \<in> set (normalized_file_set (b_expected b)). p \<in> set (normalized_file_set (b_produced b))" by simp
  show ?thesis
    using n(1,2) r e validate_paths_Nil [OF n(3)] validate_evidence_Nil(1) [OF n(5)] n(4) [unfolded validate_claims_Nil]
    unfolding handoff_scope.covered_def by (intro conjI) simp_all
qed

theorem validate_handoff_ready_sound_witness:
  "\<exists>b. binding_of demo_contract demo_handoff = Inr b \<and> b_missing b = []
     \<and> (\<forall>c \<in> set (b_commands b). (c, ''passed'') \<in> set (b_results b))"
proof -
  have "(case binding_of demo_contract demo_handoff of Inr b \<Rightarrow> b_outcome b = ''ready_for_review'' | Inl _ \<Rightarrow> False)"
    by code_simp
  then obtain b where b: "binding_of demo_contract demo_handoff = Inr b" "b_outcome b = ''ready_for_review''"
    by (auto split: sum.splits)
  from validate_handoff_ready_sound [OF demo_handoff_clean demo_env_schemas b] b(1) show ?thesis by blast
qed

text \<open>
  C30. The scope test of a handoff cannot be escaped: a path it accepts has no empty, dot or parent
  segment, and its segments extend those of the scope entry.
\<close>

theorem path_matches_scope_no_escape:
  assumes "path_matches_scope path scope"
  shows "\<exists>p. normalize_repo_path path False = Some p \<and> normalize_repo_path p False = Some p
     \<and> prefix (segments (scope_path (strip (slashes scope)))) (segments p)
     \<and> (\<forall>part \<in> set (segments p). part \<noteq> [] \<and> part \<noteq> ''.'' \<and> part \<noteq> ''..'')"
proof -
  from assms obtain p where p: "normalize_repo_path path False = Some p" by (auto simp: matches_scope_iff)
  from p have q: "p = strip (slashes path)" "scope_path p = p" "clean_segments (segments (scope_path p))"
    unfolding normalize_iff by (auto simp: scope_path_def)
  have "prefix (segments (scope_path (strip (slashes scope)))) (segments p)"
    using handoff_scope.in_scope_prefix [OF assms] q(1) by simp
  moreover have "\<forall>part \<in> set (segments p). part \<noteq> [] \<and> part \<noteq> ''.'' \<and> part \<noteq> ''..''"
    using q(2,3) by (simp add: clean_segments_def list_all_iff)
  ultimately show ?thesis using p normalize_idem [OF p] by blast
qed

theorem path_matches_scope_no_escape_witness:
  "path_matches_scope ''docs/guides/a.md'' ''docs/'' \<and> \<not> path_matches_scope ''docs/../infra/x'' ''docs/''"
proof
  show "path_matches_scope ''docs/guides/a.md'' ''docs/''" by code_simp
  show "\<not> path_matches_scope ''docs/../infra/x'' ''docs/''"
  proof
    assume "path_matches_scope ''docs/../infra/x'' ''docs/''"
    from path_matches_scope_no_escape [OF this] obtain p where
      "normalize_repo_path ''docs/../infra/x'' False = Some p" by blast
    moreover have "normalize_repo_path ''docs/../infra/x'' False = None" by code_simp
    ultimately show False by simp
  qed
qed

text \<open>
  The exit code of the handoff command: with parsed arguments it is 0 exactly for a report without
  findings and 1 exactly for a report with findings; every error it handles is 2.
\<close>

theorem handoff_main_exit_code:
  "case handoff_main env fs (Parsed args) of
     Inl _ \<Rightarrow> True
   | Inr (code, Report findings) \<Rightarrow> code = (if findings = [] then 0 else 1)
   | Inr (code, Emitted _) \<Rightarrow> code = 2"
  by (auto simp: handoff_main_def finish_def bindE_def split: sum.splits prod.splits handoff_error.splits
      guard_error.splits contract_error.splits handoff_result.splits if_splits)

end
