(* ===== verification/Text_Redact.thy ===== *)
theory Text_Redact
  imports Repo_Paths
begin

text \<open>
  Substitution in texts as \<open>str.replace\<close> and \<open>re.sub\<close> do it, for the patterns with which
  \<open>src/scripts/docmeta/audit_domain_edge_references.py\<close> takes credentials out of the error output of \<open>psql\<close>.  A pattern
  is a matcher: what it puts in place and how many characters of the text it takes, at the start of the text.  The locale
  \<open>redacting\<close> is the contract of the matchers, that a secret absent from the text stays absent.
\<close>

type_synonym matcher = "string \<Rightarrow> (string \<times> nat) option"

subsection \<open>Scanning\<close>

text \<open>The leftmost match is replaced and the scan goes on behind it; no pattern matches the empty text.\<close>

fun sub_scan :: "matcher \<Rightarrow> string \<Rightarrow> string" where
  "sub_scan m [] = []"
| "sub_scan m (c # cs) = (case m (c # cs) of
     None \<Rightarrow> c # sub_scan m cs
   | Some (r, k) \<Rightarrow> r @ sub_scan m (drop (k - 1) cs))"

definition MARK :: string where
  "MARK = ''<redacted>''"

definition match_literal :: "string \<Rightarrow> matcher" where
  "match_literal v s = (if starts_with v s then Some (MARK, length v) else None)"

text \<open>\<open>postgres(?:ql)?://\S+\<close>\<close>

definition match_url :: matcher where
  "match_url s =
     (let n = (if starts_with ''postgresql://'' s then 13 else if starts_with ''postgres://'' s then 11 else 0);
          k = length (takeWhile (\<lambda>c. \<not> is_ws c) (drop n s))
      in if n = 0 \<or> k = 0 then None else Some (''postgresql://'' @ MARK, n + k))"

text \<open>\<open>(?i)(key=)[^ \n\t]+\<close>: the key is kept as it is written.\<close>

definition ends_value :: "char \<Rightarrow> bool" where
  "ends_value c = (c = CHR '' '' \<or> c = CHR 0x0A \<or> c = CHR 0x09)"

definition match_assignment :: "string \<Rightarrow> matcher" where
  "match_assignment key s =
     (let n = length key; k = length (takeWhile (\<lambda>c. \<not> ends_value c) (drop n s))
      in if lower (take n s) \<noteq> lower key \<or> k = 0 then None else Some (take n s @ MARK, n + k))"

text \<open>\<open>text.replace(value, "<redacted>")\<close> for a value that is neither None nor empty.\<close>

definition replace_value :: "string option \<Rightarrow> string \<Rightarrow> string" where
  "replace_value value s = (case value of None \<Rightarrow> s | Some v \<Rightarrow> if v = [] then s else sub_scan (match_literal v) s)"

definition redact_patterns :: "string \<Rightarrow> string" where
  "redact_patterns s =
     sub_scan (match_assignment ''PGPASSWORD='') (sub_scan (match_assignment ''password='') (sub_scan match_url s))"

subsection \<open>Parts of texts\<close>

lemma contains_refl [simp]: "contains v v"
  by (metis append_Nil append_Nil2 contains_iff)

lemma contains_append_left: "contains v a \<Longrightarrow> contains v (a @ b)"
  by (metis append.assoc contains_iff)

lemma contains_append_right: "contains v b \<Longrightarrow> contains v (a @ b)"
  by (metis append.assoc contains_iff)

lemma contains_prefix: "contains v (take n s) \<Longrightarrow> contains v s"
  by (metis append_take_drop_id contains_append_left)

lemma contains_suffix: "contains v (drop n s) \<Longrightarrow> contains v s"
  by (metis append_take_drop_id contains_append_right)

text \<open>A part of a concatenation is a part of one side or crosses the border.\<close>

lemma contains_append:
  assumes "contains v (a @ b)"
  shows "contains v a \<or> contains v b \<or> (\<exists>x y. x \<noteq> [] \<and> y \<noteq> [] \<and> v = x @ y \<and> ends_with x a \<and> starts_with y b)"
proof -
  from assms obtain p q where "a @ b = p @ v @ q" by (auto simp: contains_iff)
  then consider us where "a = p @ us" "us @ b = v @ q" | us where "p = a @ us" "b = us @ v @ q"
    by (auto simp: append_eq_append_conv2)
  then show ?thesis
  proof cases
    case 1
    then consider ws where "us = v @ ws" | ws where "v = us @ ws" "b = ws @ q" by (auto simp: append_eq_append_conv2)
    then show ?thesis
    proof cases
      case 1
      with \<open>a = p @ us\<close> show ?thesis by (auto simp: contains_iff)
    next
      case 2
      have "contains v a" if "ws = []" using that 2 \<open>a = p @ us\<close> contains_append_right [of us us p] by simp
      moreover have "contains v b" if "us = []" using that 2 contains_append_left [of ws ws q] by simp
      moreover have "ends_with us a" "starts_with ws b" using 2 \<open>a = p @ us\<close> by (auto simp: ends_with_iff starts_with_iff)
      ultimately show ?thesis using 2(1) by blast
    qed
  next
    case 2
    then show ?thesis by (auto simp: contains_iff)
  qed
qed

lemma contains_around: "c \<notin> set v \<Longrightarrow> v \<noteq> [] \<Longrightarrow> contains v (a @ c # b) \<longleftrightarrow> contains v a \<or> contains v b"
proof
  assume c: "c \<notin> set v" "v \<noteq> []" and "contains v (a @ c # b)"
  then have "contains v a \<or> contains v (c # b)"
    using contains_append [of v a "c # b"] by (auto simp: starts_with_iff Cons_eq_append_conv)
  with c show "contains v a \<or> contains v b" by (auto simp: starts_with_iff Cons_eq_append_conv)
next
  assume "contains v a \<or> contains v b"
  then show "contains v (a @ c # b)" using contains_append_left contains_append_right [of v b "a @ [c]"] by auto
qed

subsection \<open>Secrets that no inserted text contains\<close>

definition unmarked :: "string \<Rightarrow> bool" where
  "unmarked v = (v \<noteq> [] \<and> CHR ''<'' \<notin> set v \<and> CHR ''>'' \<notin> set v \<and> \<not> contains v ''redacted''
     \<and> \<not> contains ''sq'' v \<and> \<not> contains v ''ql://'')"

lemma contains_MARK: "unmarked v \<Longrightarrow> contains v (a @ MARK @ b) \<longleftrightarrow> contains v a \<or> contains v b"
  using contains_around [of "CHR ''<''" v a "''redacted'' @ CHR ''>'' # b"] contains_around [of "CHR ''>''" v "''redacted''" b]
  by (simp add: unmarked_def MARK_def)

locale redacting =
  fixes m :: matcher
  assumes inserts: "m s = Some (r, k) \<Longrightarrow>
    \<exists>a. r = a @ MARK \<and> (\<forall>v pre. unmarked v \<longrightarrow> \<not> contains v (pre @ s) \<longrightarrow> \<not> contains v (pre @ a))"
begin

lemma absent:
  assumes v: "unmarked v"
  shows "\<not> contains v (pre @ s) \<Longrightarrow> \<not> contains v (pre @ sub_scan m s)"
proof (induction s arbitrary: pre rule: length_induct)
  case (1 s)
  show ?case
  proof (cases s)
    case (Cons c cs)
    show ?thesis
    proof (cases "m s")
      case None
      then show ?thesis using 1(1) [rule_format, of cs "pre @ [c]"] 1(2) Cons by simp
    next
      case (Some rk)
      then obtain r k where rk: "m s = Some (r, k)" by (cases rk) auto
      from inserts [OF rk] v 1(2) obtain a where a: "r = a @ MARK" "\<not> contains v (pre @ a)" by blast
      let ?rest = "drop (k - 1) cs"
      have "\<not> contains v ?rest" using 1(2) Cons contains_suffix [of v "k - 1" cs] contains_append_right [of v cs "pre @ [c]"] by auto
      then have "\<not> contains v (sub_scan m ?rest)" using 1(1) [rule_format, of ?rest "[]"] Cons by simp
      with a contains_MARK [OF v, of "pre @ a"] show ?thesis using rk Cons by simp
    qed
  qed (use 1 in simp)
qed

end

interpretation lit: redacting "match_literal w" for w
proof
  fix s r k
  assume "match_literal w s = Some (r, k)"
  then show "\<exists>a. r = a @ MARK \<and> (\<forall>v pre. unmarked v \<longrightarrow> \<not> contains v (pre @ s) \<longrightarrow> \<not> contains v (pre @ a))"
    by (intro exI [of _ "[]"]) (auto simp: match_literal_def dest: contains_append_left split: if_splits)
qed

interpretation assign: redacting "match_assignment key" for key
proof
  fix s r k
  assume "match_assignment key s = Some (r, k)"
  then have r: "r = take (length key) s @ MARK" by (auto simp: match_assignment_def Let_def split: if_splits)
  have "\<not> contains v (pre @ take (length key) s)" if "\<not> contains v (pre @ s)" for v pre
    using that contains_append_left [of v "pre @ take (length key) s" "drop (length key) s"] by auto
  with r show "\<exists>a. r = a @ MARK \<and> (\<forall>v pre. unmarked v \<longrightarrow> \<not> contains v (pre @ s) \<longrightarrow> \<not> contains v (pre @ a))" by blast
qed

text \<open>The URL pattern may insert \<open>ql\<close>, which a secret without \<open>sq\<close> does not cross.\<close>

lemma url_inserted:
  assumes "unmarked v" "\<not> contains v (a @ ''postgres'')"
  shows "\<not> contains v (a @ ''postgresql://'')"
proof
  assume "contains v (a @ ''postgresql://'')"
  then have "contains v ((a @ ''postgres'') @ ''ql://'')" by simp
  then consider "contains v (a @ ''postgres'')" | "contains v ''ql://''"
    | x y where "x \<noteq> []" "y \<noteq> []" "v = x @ y" "ends_with x (a @ ''postgres'')" "starts_with y ''ql://''"
    using contains_append by blast
  then show False
  proof cases
    case 3
    then obtain x' where x: "x = x' @ ''s''"
      by (cases x rule: rev_cases) (auto simp: ends_with_iff)
    from 3 obtain y' where "y = CHR ''q'' # y'" by (cases y) (auto simp: starts_with_iff)
    with x 3 have "v = x' @ ''sq'' @ y'" by simp
    then have "contains ''sq'' v" by (auto simp: contains_iff)
    with assms(1) show False by (simp add: unmarked_def)
  qed (use assms in \<open>simp_all add: unmarked_def\<close>)
qed

interpretation url: redacting match_url
proof
  fix s r k
  assume "match_url s = Some (r, k)"
  then have r: "r = ''postgresql://'' @ MARK" and s: "starts_with ''postgresql://'' s \<or> starts_with ''postgres://'' s"
    by (auto simp: match_url_def Let_def split: if_splits)
  from s obtain t where t: "s = ''postgres'' @ t" by (auto simp: starts_with_iff)
  have "\<not> contains v (pre @ ''postgresql://'')" if "unmarked v" "\<not> contains v (pre @ s)" for v pre
    using url_inserted [OF that(1), of pre] that(2) contains_append_left [of v "pre @ ''postgres''" t] t by auto
  with r show "\<exists>a. r = a @ MARK \<and> (\<forall>v pre. unmarked v \<longrightarrow> \<not> contains v (pre @ s) \<longrightarrow> \<not> contains v (pre @ a))" by blast
qed

subsection \<open>A replaced value is gone\<close>

text \<open>No occurrence of \<open>v\<close> in \<open>pre @ s\<close> begins in \<open>pre\<close>.\<close>

definition none_begins :: "string \<Rightarrow> string \<Rightarrow> string \<Rightarrow> bool" where
  "none_begins v pre s = (\<forall>a b. pre = a @ b \<longrightarrow> b \<noteq> [] \<longrightarrow> \<not> starts_with v (b @ s))"

lemma none_begins_snoc: "none_begins v pre (c # cs) \<Longrightarrow> \<not> starts_with v (c # cs) \<Longrightarrow> none_begins v (pre @ [c]) cs"
  unfolding none_begins_def
proof (intro allI impI)
  fix a b
  assume n: "\<forall>a b. pre = a @ b \<longrightarrow> b \<noteq> [] \<longrightarrow> \<not> starts_with v (b @ c # cs)" "\<not> starts_with v (c # cs)"
    and e: "pre @ [c] = a @ b" "b \<noteq> []"
  then obtain b' where b: "b = b' @ [c]" "pre = a @ b'" by (cases b rule: rev_cases) auto
  with n show "\<not> starts_with v (b @ cs)" by (cases "b' = []") auto
qed

lemma none_begins_absent: "none_begins v pre s \<Longrightarrow> v \<noteq> [] \<Longrightarrow> \<not> contains v pre"
  unfolding none_begins_def contains_iff by (metis append_Nil2 append.assoc append_is_Nil_conv starts_with_iff)

lemma replaced_absent:
  assumes v: "unmarked v"
  shows "none_begins v pre s \<Longrightarrow> \<not> contains v (pre @ sub_scan (match_literal v) s)"
proof (induction s arbitrary: pre rule: length_induct)
  case (1 s)
  have absent: "\<not> contains v pre" using none_begins_absent [OF 1(2)] v by (simp add: unmarked_def)
  show ?case
  proof (cases s)
    case Nil
    then show ?thesis using absent by simp
  next
    case (Cons c cs)
    show ?thesis
    proof (cases "starts_with v s")
      case False
      then have "\<not> contains v ((pre @ [c]) @ sub_scan (match_literal v) cs)"
        using 1(1) [rule_format, of cs "pre @ [c]"] none_begins_snoc [of v pre c cs] 1(2) Cons by simp
      then show ?thesis using False Cons by (simp add: match_literal_def [of v "c # cs"])
    next
      case True
      let ?rest = "drop (length v - 1) cs"
      have "\<not> contains v (sub_scan (match_literal v) ?rest)"
        using 1(1) [rule_format, of ?rest "[]"] Cons by (simp add: none_begins_def)
      then show ?thesis using absent contains_MARK [OF v, of pre] True Cons by (simp add: match_literal_def [of v "c # cs"])
    qed
  qed
qed

lemma replace_value_removes: "unmarked v \<Longrightarrow> \<not> contains v (replace_value (Some v) s)"
  using replaced_absent [of v "[]" s] by (simp add: replace_value_def none_begins_def unmarked_def)

lemma replace_value_keeps: "unmarked v \<Longrightarrow> \<not> contains v s \<Longrightarrow> \<not> contains v (replace_value w s)"
  using lit.absent [of v "[]" s] by (simp add: replace_value_def split: option.split)

lemma redact_patterns_keeps: "unmarked v \<Longrightarrow> \<not> contains v s \<Longrightarrow> \<not> contains v (redact_patterns s)"
  using url.absent [of v "[]" s] assign.absent [of v "[]"] by (simp add: redact_patterns_def)

end
