(* ===== verification/Edge_Audit.thy ===== *)
theory Edge_Audit
  imports Text_Redact
begin

text \<open>
  \<open>src/scripts/docmeta/audit_domain_edge_references.py\<close>: the audit of edge references against the node
  ids, whose report decides whether a foreign key can be introduced.  The nodes and edges come from JSON
  lines or from \<open>psql\<close> output; every edge is classified on both sides, the counters are kept in the
  \<open>summary\<close> dictionary and a bounded list of findings is kept sorted.  Parameters: \<open>json.loads\<close> per line
  (None is a JSONDecodeError), the hexadecimal SHA-256 of a text, URL parsing and percent decoding.
\<close>

datatype audit_error = UnknownClassification string | Exit string | ValueErr string

type_synonym counters = "(string \<times> int) list"

definition CLASSIFICATION_COUNTERS :: "(string \<times> string) list" where
  "CLASSIFICATION_COUNTERS =
     [(''typed_node_reference'', ''typed_node_references''),
      (''typed_node_missing_reference'', ''typed_node_missing_references''),
      (''typed_non_node_reference'', ''typed_non_node_references''),
      (''typed_unknown_reference'', ''typed_unknown_references''),
      (''untyped_existing_node_reference'', ''untyped_existing_node_references''),
      (''untyped_missing_reference'', ''untyped_missing_references'')]"

text \<open>\<open>summary[k]\<close> and \<open>summary[k] += n\<close>; every key that is used is set at the start.\<close>

definition cnt :: "counters \<Rightarrow> string \<Rightarrow> int" where
  "cnt s k = (case dict_get s k of Some n \<Rightarrow> n | None \<Rightarrow> 0)"

definition bump :: "counters \<Rightarrow> string \<Rightarrow> counters" where
  "bump s k = dict_set s k (cnt s k + 1)"

definition increment_classification :: "counters \<Rightarrow> string \<Rightarrow> audit_error + counters" where
  "increment_classification summary classification =
     (case dict_get CLASSIFICATION_COUNTERS classification of
        None \<Rightarrow> Inl (UnknownClassification classification)
      | Some counter_key \<Rightarrow> Inr (bump summary counter_key))"

definition hash_ref :: "(string \<Rightarrow> string) \<Rightarrow> string \<Rightarrow> string \<Rightarrow> string" where
  "hash_ref sha ref pre = (if ref = [] then [] else pre @ '':sha256:'' @ take 12 (sha ref))"

definition hash_id :: "(string \<Rightarrow> string) \<Rightarrow> string \<Rightarrow> string option" where
  "hash_id sha v = (if v = [] then None else Some (hash_ref sha v ''ref''))"

definition hash_edge :: "(string \<Rightarrow> string) \<Rightarrow> string \<Rightarrow> string" where
  "hash_edge sha v = hash_ref sha v ''edge''"

subsection \<open>The PostgreSQL environment\<close>

record parsed_url =
  pu_scheme :: string
  pu_hostname :: "string option"
  pu_port :: "nat option"
  pu_username :: "string option"
  pu_password :: "string option"
  pu_path :: string
  pu_query :: "(string \<times> string list) list"

definition query_env_map :: "(string \<times> string) list" where
  "query_env_map = [(''sslmode'', ''PGSSLMODE''), (''connect_timeout'', ''PGCONNECT_TIMEOUT''),
     (''application_name'', ''PGAPPNAME''), (''sslrootcert'', ''PGSSLROOTCERT''), (''sslcert'', ''PGSSLCERT''),
     (''sslkey'', ''PGSSLKEY'')]"

text \<open>The variables that the URL sets, in order; a missing or empty part sets none.\<close>

definition non_empty :: "string option \<Rightarrow> string option" where
  "non_empty v = (case v of Some s \<Rightarrow> if s = [] then None else Some s | None \<Rightarrow> None)"

definition url_settings :: "(string \<Rightarrow> string) \<Rightarrow> parsed_url \<Rightarrow> (string \<times> string option) list" where
  "url_settings unquote parsed =
     [(''PGHOST'', non_empty (pu_hostname parsed)),
      (''PGPORT'', (case pu_port parsed of Some p \<Rightarrow> if p = 0 then None else Some (str_nat p) | None \<Rightarrow> None)),
      (''PGUSER'', map_option unquote (non_empty (pu_username parsed))),
      (''PGPASSWORD'', map_option unquote (non_empty (pu_password parsed))),
      (''PGDATABASE'', if pu_path parsed \<noteq> [] \<and> pu_path parsed \<noteq> ''/''
         then Some (unquote (dropWhile (\<lambda>c. c = CHR 0x2F) (pu_path parsed))) else None)]
   @ map (\<lambda>(key, env_key). (env_key, case dict_get (pu_query parsed) key of
         Some (v # vs) \<Rightarrow> Some (last (v # vs)) | _ \<Rightarrow> None)) query_env_map"

definition set_some :: "(string \<times> string) list \<Rightarrow> string \<times> string option \<Rightarrow> (string \<times> string) list" where
  "set_some env kv = (case snd kv of Some v \<Rightarrow> dict_set env (fst kv) v | None \<Rightarrow> env)"

definition postgres_env_from_database_url ::
  "(string \<Rightarrow> string) \<Rightarrow> (string \<times> string) list \<Rightarrow> parsed_url \<Rightarrow> audit_error + (string \<times> string) list" where
  "postgres_env_from_database_url unquote environ parsed =
     (if pu_scheme parsed \<notin> {''postgres'', ''postgresql''}
      then Inl (ValueErr ''DATABASE_URL must use a PostgreSQL URI with scheme postgres or postgresql'')
      else Inr (foldl set_some
             (filter (\<lambda>(k, _). \<not> (k = ''DATABASE_URL'' \<or> starts_with ''PG'' k)) environ)
             (url_settings unquote parsed)))"

text \<open>The error output of \<open>psql\<close> without the parts of the URL, cut to the length that is logged.\<close>

definition MAX_PSQL_STDERR_LOG_BYTES :: nat where
  "MAX_PSQL_STDERR_LOG_BYTES = 500"

definition url_secrets :: "parsed_url \<Rightarrow> string option list" where
  "url_secrets parsed = [pu_hostname parsed, pu_username parsed, pu_password parsed,
     if pu_path parsed \<noteq> [] then Some (dropWhile (\<lambda>c. c = CHR 0x2F) (pu_path parsed)) else None]"

definition sanitize_psql_stderr :: "(string \<Rightarrow> parsed_url) \<Rightarrow> (string \<times> string) list \<Rightarrow> string \<Rightarrow> string" where
  "sanitize_psql_stderr urlparse environ stderr =
     (let redacted = (case non_empty (dict_get environ ''DATABASE_URL'') of
            None \<Rightarrow> stderr
          | Some url \<Rightarrow> foldl (\<lambda>s value. replace_value value s) (replace_value (Some url) stderr) (url_secrets (urlparse url)))
      in take MAX_PSQL_STDERR_LOG_BYTES (redact_patterns redacted))"

text \<open>
  The non-blank stripped lines of \<open>psql\<close>; a \<open>psql\<close> that does not start or fails ends the audit.  \<open>psql\<close> is the
  reason when it did not start, else its return code, output lines and error output.
\<close>

definition iter_psql_lines :: "(string \<Rightarrow> string) \<Rightarrow> string + (int \<times> string list \<times> string) \<Rightarrow> string \<Rightarrow> audit_error + string list" where
  "iter_psql_lines sanitize psql label = (case psql of
     Inl reason \<Rightarrow> Inl (Exit (''Failed to start psql for '' @ label @ '': '' @ reason))
   | Inr (returncode, raw_lines, stderr) \<Rightarrow>
       if returncode \<noteq> 0
       then Inl (Exit (''Failed to query '' @ label @ '' via psql; returncode='' @ str_int returncode @ ''; stderr='' @ sanitize stderr))
       else Inr (filter (\<lambda>l. l \<noteq> []) (map strip raw_lines)))"

text \<open>\<open>Path.name\<close>, the size and the digest of the bytes of a file.\<close>

definition file_label :: "string \<Rightarrow> string" where
  "file_label path = (case rev (filter (\<lambda>part. part \<notin> {[], ''.''}) (split_on slash path)) of [] \<Rightarrow> [] | part # _ \<Rightarrow> part)"

definition source_fingerprint :: "(string \<Rightarrow> string) \<Rightarrow> string \<Rightarrow> string \<Rightarrow> json" where
  "source_fingerprint sha path bytes =
     JDict [(''label'', JStr (file_label path)), (''size_bytes'', JInt (int (length bytes))), (''sha256'', JStr (sha bytes))]"

definition is_non_empty_string :: "json \<Rightarrow> bool" where
  "is_non_empty_string v = (case v of JStr s \<Rightarrow> s \<noteq> [] \<and> \<not> list_all is_ws s | _ \<Rightarrow> False)"

subsection \<open>Nodes\<close>

definition node_summary_init :: counters where
  "node_summary_init =
     [(''node_records_total'', 0), (''node_ids_total'', 0), (''node_duplicate_ids'', 0), (''node_invalid_json_records'', 0),
      (''node_non_object_json_records'', 0), (''nodes_missing_id'', 0), (''nodes_non_string_id'', 0), (''nodes_empty_id'', 0)]"

text \<open>One line of the nodes file; a set of ids is a list without repetition.\<close>

fun jsonl_node_step :: "(string \<Rightarrow> json option) \<Rightarrow> string list \<times> counters \<Rightarrow> string \<Rightarrow> string list \<times> counters" where
  "jsonl_node_step loads (node_ids, summary) line =
     (if list_all is_ws line then (node_ids, summary)
      else let summary = bump summary ''node_records_total'' in
        case loads line of
          None \<Rightarrow> (node_ids, bump summary ''node_invalid_json_records'')
        | Some (JDict obj) \<Rightarrow>
            (case dict_get obj ''id'' of
               None \<Rightarrow> (node_ids, bump summary ''nodes_missing_id'')
             | Some (JStr i) \<Rightarrow>
                 if strip i = [] then (node_ids, bump summary ''nodes_empty_id'')
                 else if i \<in> set node_ids then (node_ids, bump summary ''node_duplicate_ids'')
                 else (i # node_ids, bump summary ''node_ids_total'')
             | Some _ \<Rightarrow> (node_ids, bump summary ''nodes_non_string_id''))
        | Some _ \<Rightarrow> (node_ids, bump summary ''node_non_object_json_records''))"

definition load_jsonl_nodes :: "(string \<Rightarrow> json option) \<Rightarrow> string list \<Rightarrow> string list \<times> counters" where
  "load_jsonl_nodes loads lines = foldl (jsonl_node_step loads) ([], node_summary_init) lines"

fun psql_node_step :: "string list \<times> counters \<Rightarrow> string \<Rightarrow> string list \<times> counters" where
  "psql_node_step (node_ids, summary) line =
     (let summary = bump summary ''node_records_total''; node_id = strip line in
      if node_id = [] then (node_ids, bump summary ''nodes_empty_id'')
      else if node_id \<in> set node_ids then (node_ids, bump summary ''node_duplicate_ids'')
      else (node_id # node_ids, bump summary ''node_ids_total''))"

definition load_postgres_nodes :: "audit_error + string list \<Rightarrow> audit_error + (string list \<times> counters)" where
  "load_postgres_nodes psql = bindE psql (\<lambda>lines. Inr (foldl psql_node_step ([], node_summary_init) lines))"

subsection \<open>Edges\<close>

definition edge_summary_init :: counters where
  "edge_summary_init = [(''edge_records_total'', 0), (''invalid_json_records'', 0), (''non_object_json_records'', 0)]"

text \<open>The record of one non-blank line: the edge with its position, or a counter.\<close>

definition edge_record :: "(string \<Rightarrow> json option) \<Rightarrow> string \<Rightarrow> int \<Rightarrow> string \<Rightarrow> counters \<Rightarrow> counters \<times> dict list" where
  "edge_record loads position n line summary =
     (let summary = bump summary ''edge_records_total'' in
      case loads line of
        None \<Rightarrow> (bump summary ''invalid_json_records'', [])
      | Some (JDict obj) \<Rightarrow> (summary, [dict_set obj position (JInt n)])
      | Some _ \<Rightarrow> (bump summary ''non_object_json_records'', []))"

fun iter_jsonl_edges :: "(string \<Rightarrow> json option) \<Rightarrow> int \<Rightarrow> string list \<Rightarrow> counters \<Rightarrow> counters \<times> dict list" where
  "iter_jsonl_edges loads line_number [] summary = (summary, [])"
| "iter_jsonl_edges loads line_number (line # rest) summary =
     (let n = line_number + 1 in
      if list_all is_ws line then iter_jsonl_edges loads n rest summary
      else
        let (s, es) = edge_record loads ''line_number'' n line summary;
            (s', es') = iter_jsonl_edges loads n rest s
        in (s', es @ es'))"

fun iter_postgres_edges :: "(string \<Rightarrow> json option) \<Rightarrow> int \<Rightarrow> string list \<Rightarrow> counters \<Rightarrow> counters \<times> dict list" where
  "iter_postgres_edges loads row_number [] summary = (summary, [])"
| "iter_postgres_edges loads row_number (line # rest) summary =
     (let n = row_number + 1;
          (s, es) = edge_record loads ''row_number'' n line summary;
          (s', es') = iter_postgres_edges loads n rest s
      in (s', es @ es'))"

definition ALLOWED_TYPE_HINTS :: "string list" where
  "ALLOWED_TYPE_HINTS = [''node'', ''account'', ''role'']"

text \<open>\<open>[A-Za-z0-9_.:-]+\<close>.\<close>

definition is_hint_char :: "char \<Rightarrow> bool" where
  "is_hint_char c = (let n = of_char c :: nat in
     (65 \<le> n \<and> n \<le> 90) \<or> (97 \<le> n \<and> n \<le> 122) \<or> (48 \<le> n \<and> n \<le> 58) \<or> n = 95 \<or> n = 46 \<or> n = 45)"

definition safe_type_hint_for_finding :: "(string \<Rightarrow> string) \<Rightarrow> json \<Rightarrow> string option \<times> string option" where
  "safe_type_hint_for_finding sha type_hint =
     (case type_hint of
        JNull \<Rightarrow> (None, None)
      | JStr s \<Rightarrow>
          if s \<in> set ALLOWED_TYPE_HINTS then (Some s, Some ''str'')
          else if length s \<le> 64 \<and> s \<noteq> [] \<and> list_all is_hint_char s then (Some s, Some ''str'')
          else (Some (hash_ref sha s ''type_hint''), Some ''str'')
      | v \<Rightarrow> (Some (''<'' @ type_name v @ ''>''), Some (type_name v)))"

record edge_finding =
  ef_edge_ref :: string
  ef_side :: string
  ef_target_ref :: "string option"
  ef_type_hint :: "string option"
  ef_classification :: string
  ef_type_hint_type :: "string option"

definition side_finding :: "string \<Rightarrow> string \<Rightarrow> string option \<Rightarrow> string option \<Rightarrow> string \<Rightarrow> edge_finding" where
  "side_finding edge_ref side target_ref hint cls =
     \<lparr>ef_edge_ref = edge_ref, ef_side = side, ef_target_ref = target_ref, ef_type_hint = hint,
      ef_classification = cls, ef_type_hint_type = None\<rparr>"

definition classify_edge_side ::
  "(string \<Rightarrow> string) \<Rightarrow> string \<Rightarrow> string \<Rightarrow> string \<Rightarrow> json \<Rightarrow> string list \<Rightarrow> bool \<Rightarrow> string \<times> edge_finding option" where
  "classify_edge_side sha edge_ref side target_id type_hint0 node_ids show_ids =
     (let target_ref = (if show_ids then Some target_id else hash_id sha target_id);
          type_hint = (case type_hint0 of JStr s \<Rightarrow> if strip s = [] then JNull else type_hint0 | _ \<Rightarrow> type_hint0);
          (safe_type_hint, type_hint_type) = safe_type_hint_for_finding sha type_hint
      in
      if type_hint = JStr ''node'' then
        (if target_id \<in> set node_ids then (''typed_node_reference'', None)
         else (''typed_node_missing_reference'',
               Some (side_finding edge_ref side target_ref (Some ''node'') ''typed_node_missing_reference'')))
      else if type_hint \<in> {JStr ''account'', JStr ''role''} then
        (''typed_non_node_reference'',
         Some (side_finding edge_ref side target_ref (Some (py_str type_hint)) ''typed_non_node_reference''))
      else if type_hint \<noteq> JNull then
        (''typed_unknown_reference'',
         Some ((side_finding edge_ref side target_ref safe_type_hint ''typed_unknown_reference'')\<lparr>ef_type_hint_type := type_hint_type\<rparr>))
      else if target_id \<in> set node_ids then (''untyped_existing_node_reference'', None)
      else (''untyped_missing_reference'',
            Some (side_finding edge_ref side target_ref None ''untyped_missing_reference'')))"

definition finding_sort_key :: "edge_finding \<Rightarrow> string \<times> string \<times> string \<times> string" where
  "finding_sort_key f = (ef_classification f, ef_side f, ef_edge_ref f,
     (case ef_target_ref f of Some t \<Rightarrow> t | None \<Rightarrow> ''None''))"

text \<open>The new list and whether a finding was dropped.\<close>

definition append_finding :: "edge_finding list \<Rightarrow> edge_finding \<Rightarrow> int \<Rightarrow> edge_finding list \<times> bool" where
  "append_finding findings finding max_findings =
     (if max_findings = -1 then (findings @ [finding], False)
      else if max_findings = 0 then (findings, True)
      else let fs = sort_key finding_sort_key (findings @ [finding]) in
        if int (length fs) > max_findings then (butlast fs, True) else (fs, False))"

subsection \<open>The evaluation\<close>

record audit_state =
  as_summary :: counters
  as_findings :: "edge_finding list"
  as_truncated :: bool

definition add_finding :: "int \<Rightarrow> edge_finding option \<Rightarrow> audit_state \<Rightarrow> audit_state" where
  "add_finding max_findings f st =
     (case f of
        None \<Rightarrow> st
      | Some finding \<Rightarrow>
          let (fs, dropped) = append_finding (as_findings st) finding max_findings in
          st\<lparr>as_findings := fs, as_truncated := as_truncated st \<or> dropped\<rparr>)"

definition bump_st :: "string \<Rightarrow> audit_state \<Rightarrow> audit_state" where
  "bump_st k st = st\<lparr>as_summary := bump (as_summary st) k\<rparr>"

definition position_ref :: "(string \<Rightarrow> string) \<Rightarrow> dict \<Rightarrow> string" where
  "position_ref sha edge =
     (case dict_get edge ''line_number'' of
        Some v \<Rightarrow> hash_ref sha (''line:'' @ py_str v) ''edge''
      | None \<Rightarrow> (case dict_get edge ''row_number'' of
          Some v \<Rightarrow> hash_ref sha (''row:'' @ py_str v) ''edge''
        | None \<Rightarrow> hash_ref sha ''unknown'' ''edge''))"

definition is_missing :: "string \<Rightarrow> bool" where
  "is_missing cls = (cls = ''typed_node_missing_reference'' \<or> cls = ''untyped_missing_reference'')"

text \<open>One side of an edge: its counter and its finding.\<close>

definition audit_side :: "int \<Rightarrow> string \<times> edge_finding option \<Rightarrow> audit_state \<Rightarrow> audit_error + audit_state" where
  "audit_side max_findings cf st =
     bindE (increment_classification (as_summary st) (fst cf)) (\<lambda>summary.
     Inr (add_finding max_findings (snd cf) (st\<lparr>as_summary := summary\<rparr>)))"

definition edge_ok :: "dict \<Rightarrow> bool" where
  "edge_ok edge = (is_non_empty_string (jget edge ''id'') \<and> is_non_empty_string (jget edge ''source_id'')
     \<and> is_non_empty_string (jget edge ''target_id''))"

definition edge_sides :: "(string \<Rightarrow> string) \<Rightarrow> string list \<Rightarrow> bool \<Rightarrow> dict \<Rightarrow>
    (string \<times> edge_finding option) \<times> (string \<times> edge_finding option)" where
  "edge_sides sha node_ids show_ids edge =
     (let edge_id = py_str (jget edge ''id''); edge_ref = (if show_ids then edge_id else hash_edge sha edge_id) in
      (classify_edge_side sha edge_ref ''source'' (py_str (jget edge ''source_id'')) (jget edge ''source_type'') node_ids show_ids,
       classify_edge_side sha edge_ref ''target'' (py_str (jget edge ''target_id'')) (jget edge ''target_type'') node_ids show_ids))"

definition malformed_finding :: "(string \<Rightarrow> string) \<Rightarrow> dict \<Rightarrow> edge_finding" where
  "malformed_finding sha edge = side_finding (position_ref sha edge) ''unknown'' None None ''malformed_edge''"

definition audit_edge ::
  "(string \<Rightarrow> string) \<Rightarrow> string list \<Rightarrow> bool \<Rightarrow> int \<Rightarrow> audit_state \<Rightarrow> dict \<Rightarrow> audit_error + audit_state" where
  "audit_edge sha node_ids show_ids max_findings st edge =
     (if \<not> edge_ok edge
      then Inr (add_finding max_findings (Some (malformed_finding sha edge)) (bump_st ''malformed_edges'' st))
      else
        let (src, tgt) = edge_sides sha node_ids show_ids edge;
            missing = (if is_missing (fst src) then 1 else 0) + (if is_missing (fst tgt) then 1 else 0 :: nat)
        in
        bindE (audit_side max_findings src (bump_st ''auditable_edges_total'' st)) (\<lambda>st.
        bindE (audit_side max_findings tgt st) (\<lambda>st.
        let st = (if missing > 0 then bump_st ''edges_with_any_missing_node_reference'' st else st);
            st = (if missing = 2 then bump_st ''edges_with_both_missing_node_references'' st else st)
        in Inr st)))"

fun audit_edges ::
  "(string \<Rightarrow> string) \<Rightarrow> string list \<Rightarrow> bool \<Rightarrow> int \<Rightarrow> audit_state \<Rightarrow> dict list \<Rightarrow> audit_error + audit_state" where
  "audit_edges sha node_ids show_ids max_findings st [] = Inr st"
| "audit_edges sha node_ids show_ids max_findings st (e # es) =
     bindE (audit_edge sha node_ids show_ids max_findings st e) (\<lambda>st.
       audit_edges sha node_ids show_ids max_findings st es)"

definition edge_counters :: counters where
  "edge_counters =
     [(''edges_total'', 0), (''auditable_edges_total'', 0), (''edge_records_total'', 0), (''edge_sides_total'', 0),
      (''typed_node_references'', 0), (''typed_node_missing_references'', 0), (''typed_non_node_references'', 0),
      (''typed_unknown_references'', 0), (''untyped_existing_node_references'', 0), (''untyped_missing_references'', 0),
      (''node_reference_sides'', 0), (''missing_node_reference_sides'', 0), (''malformed_edges'', 0),
      (''invalid_json_records'', 0), (''non_object_json_records'', 0), (''edges_with_any_missing_node_reference'', 0),
      (''edges_with_both_missing_node_references'', 0)]"

definition node_defect_keys :: "string list" where
  "node_defect_keys = [''node_invalid_json_records'', ''node_non_object_json_records'', ''nodes_missing_id'',
     ''nodes_non_string_id'', ''nodes_empty_id'', ''node_duplicate_ids'']"

definition node_keys :: "string list" where
  "node_keys = ''node_records_total'' # node_defect_keys"

definition summary_init :: "counters \<Rightarrow> counters" where
  "summary_init nodes =
     (''nodes_total'', cnt nodes ''node_ids_total'') # edge_counters @ map (\<lambda>k. (k, cnt nodes k)) node_keys"

definition summary_totals :: "counters \<Rightarrow> counters \<Rightarrow> counters" where
  "summary_totals edges s0 =
     (let s = dict_set s0 ''edge_records_total'' (cnt edges ''edge_records_total'');
          s = dict_set s ''invalid_json_records'' (cnt edges ''invalid_json_records'');
          s = dict_set s ''non_object_json_records'' (cnt edges ''non_object_json_records'');
          s = dict_set s ''edges_total'' (cnt s ''edge_records_total'');
          s = dict_set s ''edge_sides_total'' (cnt s ''auditable_edges_total'' * 2);
          s = dict_set s ''node_reference_sides'' (cnt s ''typed_node_references'' + cnt s ''untyped_existing_node_references'');
          s = dict_set s ''missing_node_reference_sides'' (cnt s ''typed_node_missing_references'' + cnt s ''untyped_missing_references'')
      in s)"

record policy_signals =
  ps_strict_node_fk_ready :: bool
  ps_loose_reference_semantics_observed :: bool
  ps_requires_policy_decision :: bool
  ps_requires_cleanup :: bool
  ps_requires_runtime_data_run :: bool
  ps_runtime_reference_data_observed :: bool
  ps_type_hint_backfill_recommended :: bool
  ps_fk_compatible_reference_sides :: int

definition cleanup_keys :: "string list" where
  "cleanup_keys = node_defect_keys @ [''malformed_edges'', ''invalid_json_records'', ''non_object_json_records'',
     ''typed_node_missing_references'', ''untyped_missing_references'']"

definition policy_of :: "string \<Rightarrow> counters \<Rightarrow> policy_signals" where
  "policy_of source_kind s =
     (let runtime = (source_kind = ''runtime'' \<and> cnt s ''auditable_edges_total'' > 0) in
      \<lparr>ps_strict_node_fk_ready =
         (runtime \<and> list_all (\<lambda>k. cnt s k = 0) cleanup_keys
          \<and> cnt s ''typed_non_node_references'' = 0 \<and> cnt s ''typed_unknown_references'' = 0),
       ps_loose_reference_semantics_observed = (cnt s ''typed_non_node_references'' > 0),
       ps_requires_policy_decision =
         (cnt s ''typed_non_node_references'' > 0 \<or> cnt s ''typed_unknown_references'' > 0
          \<or> cnt s ''untyped_missing_references'' > 0 \<or> cnt s ''typed_node_missing_references'' > 0),
       ps_requires_cleanup = list_ex (\<lambda>k. cnt s k > 0) cleanup_keys,
       ps_requires_runtime_data_run = (\<not> runtime),
       ps_runtime_reference_data_observed = runtime,
       ps_type_hint_backfill_recommended = (cnt s ''untyped_existing_node_references'' > 0),
       ps_fk_compatible_reference_sides = cnt s ''typed_node_references'' + cnt s ''untyped_existing_node_references''\<rparr>)"

record audit_report =
  ar_source :: json
  ar_summary :: counters
  ar_policy :: policy_signals
  ar_truncated :: bool
  ar_limit :: "int option"
  ar_findings :: "edge_finding list"

definition evaluate_audit_data ::
  "(string \<Rightarrow> string) \<Rightarrow> string list \<Rightarrow> counters \<times> dict list \<Rightarrow> json \<Rightarrow> string \<Rightarrow> bool \<Rightarrow> counters \<Rightarrow> int \<Rightarrow>
   audit_error + audit_report" where
  "evaluate_audit_data sha node_ids edges source source_kind show_ids node_parse_summary max_findings =
     bindE (audit_edges sha node_ids show_ids max_findings
              \<lparr>as_summary = summary_init node_parse_summary, as_findings = [], as_truncated = False\<rparr> (snd edges)) (\<lambda>st.
     let summary = summary_totals (fst edges) (as_summary st) in
     Inr \<lparr>ar_source = source, ar_summary = summary, ar_policy = policy_of source_kind summary,
          ar_truncated = as_truncated st,
          ar_limit = (if max_findings = -1 then None else Some max_findings),
          ar_findings = sort_key finding_sort_key (as_findings st)\<rparr>)"

subsection \<open>The command\<close>

record audit_args =
  aa_nodes_jsonl :: "string option"
  aa_edges_jsonl :: "string option"
  aa_postgres :: bool
  aa_source_kind :: string
  aa_show_ids :: bool
  aa_max_findings :: int

record audit_env =
  ae_environ :: "(string \<times> string) list"
  ae_urlparse :: "string \<Rightarrow> parsed_url"
  ae_unquote :: "string \<Rightarrow> string"
  ae_has_psql :: bool
  ae_psql :: "(string \<times> string) list \<Rightarrow> string \<Rightarrow> string + (int \<times> string list \<times> string)"
  ae_lines :: "string \<Rightarrow> string + string list"
  ae_is_file :: "string \<Rightarrow> bool"
  ae_bytes :: "string \<Rightarrow> string + string"
  ae_digest :: "string \<Rightarrow> string"
  ae_loads :: "string \<Rightarrow> json option"
  ae_sha :: "string \<Rightarrow> string"

definition file_lines :: "audit_env \<Rightarrow> string \<Rightarrow> string \<Rightarrow> audit_error + string list" where
  "file_lines env label path = (case ae_lines env path of
     Inr ls \<Rightarrow> Inr ls | Inl reason \<Rightarrow> Inl (Exit (''Cannot read '' @ label @ '' file '' @ path @ '': '' @ reason)))"

definition safe_source_fingerprint :: "audit_env \<Rightarrow> string \<Rightarrow> string \<Rightarrow> audit_error + json" where
  "safe_source_fingerprint env path label = (case ae_bytes env path of
     Inr bytes \<Rightarrow> Inr (source_fingerprint (ae_digest env) path bytes)
   | Inl reason \<Rightarrow> Inl (Exit (''Cannot fingerprint '' @ label @ '' file '' @ path @ '': '' @ reason)))"

definition psql_lines :: "audit_env \<Rightarrow> (string \<times> string) list \<Rightarrow> string \<Rightarrow> audit_error + string list" where
  "psql_lines env pg label = iter_psql_lines (sanitize_psql_stderr (ae_urlparse env) (ae_environ env)) (ae_psql env pg label) label"

definition audit_main :: "audit_env \<Rightarrow> audit_args \<Rightarrow> audit_error + audit_report" where
  "audit_main env args =
     (if aa_max_findings args < -1 then Inl (Exit ''--max-findings must be -1 or >= 0'')
      else if aa_postgres args then
        (case dict_get (ae_environ env) ''DATABASE_URL'' of
           None \<Rightarrow> Inl (Exit ''DATABASE_URL not set for PostgreSQL audit'')
         | Some url \<Rightarrow>
             bindE (postgres_env_from_database_url (ae_unquote env) (ae_environ env) (ae_urlparse env url)) (\<lambda>pg.
             if \<not> ae_has_psql env then Inl (Exit ''psql is not available'')
             else
               bindE (load_postgres_nodes (psql_lines env pg ''domain_nodes'')) (\<lambda>(node_ids, node_summary).
               bindE (psql_lines env pg ''domain_edges'') (\<lambda>ls.
               evaluate_audit_data (ae_sha env) node_ids (iter_postgres_edges (ae_loads env) 0 ls edge_summary_init)
                 (JDict [(''kind'', JStr ''postgres''), (''source_kind'', JStr (aa_source_kind args))])
                 (aa_source_kind args) (aa_show_ids args) node_summary (aa_max_findings args)))))
      else
        (case (aa_nodes_jsonl args, aa_edges_jsonl args) of
           (Some (n # ns), Some (e # es)) \<Rightarrow>
             bindE (file_lines env ''nodes'' (n # ns)) (\<lambda>node_lines.
             bindE (safe_source_fingerprint env (n # ns) ''nodes'') (\<lambda>node_source.
             if \<not> ae_is_file env (e # es)
             then Inl (Exit (''Cannot read edges file '' @ (e # es) @ '': not a regular file''))
             else
             bindE (safe_source_fingerprint env (e # es) ''edges'') (\<lambda>edge_source.
             bindE (file_lines env ''edges'' (e # es)) (\<lambda>edge_lines.
             let (node_ids, node_summary) = load_jsonl_nodes (ae_loads env) node_lines in
             evaluate_audit_data (ae_sha env) node_ids (iter_jsonl_edges (ae_loads env) 0 edge_lines edge_summary_init)
               (JDict [(''kind'', JStr ''jsonl''), (''source_kind'', JStr (aa_source_kind args)),
                  (''nodes_source'', node_source), (''edges_source'', edge_source)])
               (aa_source_kind args) (aa_show_ids args) node_summary (aa_max_findings args)))))
         | _ \<Rightarrow> Inl (Exit ''Must provide either --postgres or both --nodes-jsonl and --edges-jsonl'')))"

subsection \<open>Keeping the smallest findings\<close>

text \<open>Insertion behind the elements with the same key: what appending and sorting stably does.\<close>

fun insert_right :: "('a \<Rightarrow> 'b :: linorder) \<Rightarrow> 'a \<Rightarrow> 'a list \<Rightarrow> 'a list" where
  "insert_right f x [] = [x]"
| "insert_right f x (y # ys) = (if f y \<le> f x then y # insert_right f x ys else x # y # ys)"

lemma insort_insert_right: "insort_key f a (insert_right f x ys) = insert_right f x (insort_key f a ys)"
  by (induction ys) auto

lemma sort_snoc: "sort_key f (xs @ [x]) = insert_right f x (sort_key f xs)"
  by (induction xs) (simp_all add: insort_insert_right)

lemma take_Cons_take: "take n (y # take n ys) = take n (y # ys)"
  by (cases n) simp_all

lemma take_insert_right: "take k (insert_right f x (take k ys)) = take k (insert_right f x ys)"
proof (induction ys arbitrary: k)
  case (Cons y ys)
  then show ?case by (cases k) (auto simp: take_Cons_take)
qed simp

lemma sorted_take_sort: "sort_key f (take k (sort_key f xs)) = take k (sort_key f xs)"
  by (rule sort_key_id_if_sorted) (simp add: sorted_wrt_take flip: take_map)

text \<open>Keeping only the first \<open>k\<close> at every step keeps the first \<open>k\<close> of all.\<close>

lemma take_sort_snoc:
  "take k (sort_key f (take k (sort_key f xs) @ [x])) = take k (sort_key f (xs @ [x]))"
  by (simp add: sort_snoc sorted_take_sort take_insert_right)

definition kept :: "int \<Rightarrow> edge_finding list \<Rightarrow> edge_finding list" where
  "kept m xs = (if m = -1 then xs else take (nat m) (sort_key finding_sort_key xs))"

lemma append_kept:
  assumes "m = -1 \<or> m \<ge> 0"
  shows "append_finding (kept m xs) x m = (kept m (xs @ [x]), m \<noteq> -1 \<and> int (length xs) \<ge> m)"
proof (cases "m \<le> 0")
  case True
  with assms show ?thesis by (auto simp: append_finding_def kept_def)
next
  case False
  then obtain k where k: "m = int k" "k > 0" by (metis nonneg_int_cases not_le not_less_iff_gr_or_eq of_nat_0_less_iff)
  let ?fs = "sort_key finding_sort_key (take k (sort_key finding_sort_key xs) @ [x])"
  have len: "length ?fs = min k (length xs) + 1" by simp
  show ?thesis
  proof (cases "k \<le> length xs")
    case True
    then have "butlast ?fs = take k ?fs" by (simp add: butlast_conv_take len)
    with True k show ?thesis
      by (simp add: append_finding_def kept_def Let_def take_sort_snoc)
  next
    case False
    then have "take k ?fs = ?fs" by simp
    with False k show ?thesis
      using take_sort_snoc [of k finding_sort_key xs x] by (simp add: append_finding_def kept_def Let_def)
  qed
qed

lemma sort_kept: "sort_key finding_sort_key (kept m xs) =
    (if m = -1 then sort_key finding_sort_key xs else take (nat m) (sort_key finding_sort_key xs))"
  by (simp add: kept_def sorted_take_sort)

subsection \<open>The contribution of one edge\<close>

definition edge_findings :: "(string \<Rightarrow> string) \<Rightarrow> string list \<Rightarrow> bool \<Rightarrow> dict \<Rightarrow> edge_finding list" where
  "edge_findings sha ids show e =
     (if \<not> edge_ok e then [malformed_finding sha e]
      else let (src, tgt) = edge_sides sha ids show e in
        (case snd src of None \<Rightarrow> [] | Some f \<Rightarrow> [f]) @ (case snd tgt of None \<Rightarrow> [] | Some f \<Rightarrow> [f]))"

definition hits :: "string \<Rightarrow> string \<Rightarrow> int" where
  "hits k cls = (if dict_get CLASSIFICATION_COUNTERS cls = Some k then 1 else 0)"

definition edge_count :: "(string \<Rightarrow> string) \<Rightarrow> string list \<Rightarrow> bool \<Rightarrow> string \<Rightarrow> dict \<Rightarrow> int" where
  "edge_count sha ids show k e =
     (if \<not> edge_ok e then (if k = ''malformed_edges'' then 1 else 0)
      else let (src, tgt) = edge_sides sha ids show e;
               missing = (if is_missing (fst src) then 1 else 0) + (if is_missing (fst tgt) then 1 else 0 :: nat)
        in (if k = ''auditable_edges_total'' then 1 else 0) + hits k (fst src) + hits k (fst tgt)
         + (if k = ''edges_with_any_missing_node_reference'' \<and> missing > 0 then 1 else 0)
         + (if k = ''edges_with_both_missing_node_references'' \<and> missing = 2 then 1 else 0))"

lemma cnt_set: "cnt (dict_set s k v) k' = (if k' = k then v else cnt s k')"
  by (simp add: cnt_def dict_set_get)

lemma cnt_bump: "cnt (bump s k) k' = cnt s k' + (if k' = k then 1 else 0)"
  by (simp add: bump_def cnt_set)

lemma classify_known:
  "\<exists>key. dict_get CLASSIFICATION_COUNTERS (fst (classify_edge_side sha er side t hint ids show)) = Some key"
  unfolding classify_edge_side_def Let_def
  by (auto simp: CLASSIFICATION_COUNTERS_def dict_get_def split: prod.split)

text \<open>The state after some edges: the findings kept, the flag, and the counters.\<close>

definition audit_inv :: "int \<Rightarrow> edge_finding list \<Rightarrow> audit_state \<Rightarrow> bool" where
  "audit_inv m fs st = (as_findings st = kept m fs \<and> (as_truncated st \<longleftrightarrow> m \<noteq> -1 \<and> int (length fs) > m))"

lemma add_finding_inv:
  assumes "m = -1 \<or> m \<ge> 0" and "audit_inv m fs st"
  shows "audit_inv m (fs @ (case f of None \<Rightarrow> [] | Some x \<Rightarrow> [x])) (add_finding m f st)"
    and "as_summary (add_finding m f st) = as_summary st"
proof -
  show "as_summary (add_finding m f st) = as_summary st"
    by (simp add: add_finding_def split: option.split prod.split)
  show "audit_inv m (fs @ (case f of None \<Rightarrow> [] | Some x \<Rightarrow> [x])) (add_finding m f st)"
  proof (cases f)
    case (Some x)
    from assms(2) have a: "as_findings st = kept m fs" "as_truncated st \<longleftrightarrow> m \<noteq> -1 \<and> int (length fs) > m"
      by (simp_all add: audit_inv_def)
    show ?thesis
      unfolding Some add_finding_def option.case a(1) append_kept [OF assms(1)] audit_inv_def
      using a(2) by auto
  qed (simp add: add_finding_def assms(2))
qed

lemma bump_st_inv [simp]:
  "audit_inv m fs (bump_st k st) = audit_inv m fs st" "as_summary (bump_st k st) = bump (as_summary st) k"
  by (simp_all add: audit_inv_def bump_st_def)

lemma audit_side_step:
  assumes "m = -1 \<or> m \<ge> 0" and "audit_inv m fs st" and "dict_get CLASSIFICATION_COUNTERS (fst cf) = Some key"
  shows "\<exists>st'. audit_side m cf st = Inr st' \<and> audit_inv m (fs @ (case snd cf of None \<Rightarrow> [] | Some x \<Rightarrow> [x])) st'
     \<and> (\<forall>k. cnt (as_summary st') k = cnt (as_summary st) k + hits k (fst cf))"
proof -
  let ?st = "st\<lparr>as_summary := bump (as_summary st) key\<rparr>"
  have "audit_inv m fs ?st" using assms(2) by (simp add: audit_inv_def)
  note a = add_finding_inv [OF assms(1) this, of "snd cf"]
  have "audit_side m cf st = Inr (add_finding m (snd cf) ?st)"
    by (simp add: audit_side_def increment_classification_def assms(3))
  moreover have "cnt (as_summary (add_finding m (snd cf) ?st)) k = cnt (as_summary st) k + hits k (fst cf)" for k
    by (simp add: a(2) cnt_bump hits_def assms(3))
  ultimately show ?thesis using a(1) by auto
qed

lemma audit_edge_step:
  assumes m: "m = -1 \<or> m \<ge> 0" and inv: "audit_inv m fs st"
  shows "\<exists>st'. audit_edge sha ids show m st e = Inr st' \<and> audit_inv m (fs @ edge_findings sha ids show e) st'
     \<and> (\<forall>k. cnt (as_summary st') k = cnt (as_summary st) k + edge_count sha ids show k e)"
proof (cases "edge_ok e")
  case False
  then show ?thesis
    using add_finding_inv [OF m, of fs "bump_st ''malformed_edges'' st" "Some (malformed_finding sha e)"] inv
    by (auto simp: audit_edge_def edge_findings_def edge_count_def cnt_bump)
next
  case True
  obtain src tgt where st: "edge_sides sha ids show e = (src, tgt)" by (cases "edge_sides sha ids show e")
  then obtain k1 k2 where k: "dict_get CLASSIFICATION_COUNTERS (fst src) = Some k1"
    "dict_get CLASSIFICATION_COUNTERS (fst tgt) = Some k2"
    using classify_known unfolding edge_sides_def Let_def by (metis prod.inject)
  have "audit_inv m fs (bump_st ''auditable_edges_total'' st)" using inv by simp
  from audit_side_step [OF m this k(1)] obtain st1 where s1:
    "audit_side m src (bump_st ''auditable_edges_total'' st) = Inr st1"
    "audit_inv m (fs @ (case snd src of None \<Rightarrow> [] | Some x \<Rightarrow> [x])) st1"
    "\<forall>k. cnt (as_summary st1) k = cnt (as_summary (bump_st ''auditable_edges_total'' st)) k + hits k (fst src)" by blast
  from audit_side_step [OF m s1(2) k(2)] obtain st2 where s2:
    "audit_side m tgt st1 = Inr st2"
    "audit_inv m ((fs @ (case snd src of None \<Rightarrow> [] | Some x \<Rightarrow> [x])) @ (case snd tgt of None \<Rightarrow> [] | Some x \<Rightarrow> [x])) st2"
    "\<forall>k. cnt (as_summary st2) k = cnt (as_summary st1) k + hits k (fst tgt)" by blast
  show ?thesis
    using s1 s2 True by (simp add: audit_edge_def st edge_findings_def edge_count_def cnt_bump)
qed

lemma audit_edges_run:
  assumes m: "m = -1 \<or> m \<ge> 0" and "audit_inv m fs st"
  shows "\<exists>st'. audit_edges sha ids show m st es = Inr st'
     \<and> audit_inv m (fs @ concat (map (edge_findings sha ids show) es)) st'
     \<and> (\<forall>k. cnt (as_summary st') k = cnt (as_summary st) k + sum_list (map (edge_count sha ids show k) es))"
  using assms(2)
proof (induction es arbitrary: fs st)
  case (Cons e es)
  from audit_edge_step [OF m Cons.prems] obtain st1 where s1: "audit_edge sha ids show m st e = Inr st1"
    "audit_inv m (fs @ edge_findings sha ids show e) st1"
    "\<forall>k. cnt (as_summary st1) k = cnt (as_summary st) k + edge_count sha ids show k e" by blast
  from Cons.IH [OF s1(2)] obtain st2 where "audit_edges sha ids show m st1 es = Inr st2"
    "audit_inv m ((fs @ edge_findings sha ids show e) @ concat (map (edge_findings sha ids show) es)) st2"
    "\<forall>k. cnt (as_summary st2) k = cnt (as_summary st1) k + sum_list (map (edge_count sha ids show k) es)" by blast
  with s1 show ?case by auto
qed simp

lemma evaluate_run:
  assumes "m = -1 \<or> m \<ge> 0"
  obtains r where "evaluate_audit_data sha ids edges source kind show nodes m = Inr r"
    and "ar_findings r = sort_key finding_sort_key (kept m (concat (map (edge_findings sha ids show) (snd edges))))"
    and "ar_truncated r \<longleftrightarrow> m \<noteq> -1 \<and> int (length (concat (map (edge_findings sha ids show) (snd edges)))) > m"
    and "ar_policy r = policy_of kind (ar_summary r)"
    and "\<exists>s. ar_summary r = summary_totals (fst edges) s
      \<and> (\<forall>k. cnt s k = cnt (summary_init nodes) k + sum_list (map (edge_count sha ids show k) (snd edges)))"
proof -
  let ?st = "\<lparr>as_summary = summary_init nodes, as_findings = [], as_truncated = False\<rparr>"
  have "audit_inv m [] ?st" using assms by (auto simp: audit_inv_def kept_def)
  from audit_edges_run [OF assms this, of sha ids "show" "snd edges"] obtain st where st:
    "audit_edges sha ids show m ?st (snd edges) = Inr st"
    "audit_inv m (concat (map (edge_findings sha ids show) (snd edges))) st"
    "\<forall>k. cnt (as_summary st) k = cnt (summary_init nodes) k + sum_list (map (edge_count sha ids show k) (snd edges))"
    by auto
  let ?r = "\<lparr>ar_source = source, ar_summary = summary_totals (fst edges) (as_summary st),
       ar_policy = policy_of kind (summary_totals (fst edges) (as_summary st)), ar_truncated = as_truncated st,
       ar_limit = (if m = -1 then None else Some m), ar_findings = sort_key finding_sort_key (as_findings st)\<rparr>"
  have "evaluate_audit_data sha ids edges source kind show nodes m = Inr ?r"
    unfolding evaluate_audit_data_def st(1) by (simp add: Let_def)
  then show ?thesis by (rule that) (use st in \<open>auto simp: audit_inv_def\<close>)
qed

subsection \<open>Counting\<close>

lemma hits_nonneg: "hits k c \<ge> 0"
  by (simp add: hits_def)

lemma edge_count_nonneg: "edge_count sha ids show k e \<ge> 0"
  using hits_nonneg by (auto simp: edge_count_def Let_def split: prod.split intro!: add_nonneg_nonneg)

lemma count_zero:
  "sum_list (map (edge_count sha ids show k) es) = 0 \<longleftrightarrow> (\<forall>e \<in> set es. edge_count sha ids show k e = 0)"
  by (subst sum_list_nonneg_eq_0_iff) (auto simp: edge_count_nonneg)

abbreviation counter_keys :: "string list" where
  "counter_keys \<equiv> map snd CLASSIFICATION_COUNTERS"

lemma hits_total: "dict_get CLASSIFICATION_COUNTERS c = Some key \<Longrightarrow> (\<Sum>k\<leftarrow>counter_keys. hits k c) = 1"
  by (auto simp: CLASSIFICATION_COUNTERS_def hits_def dict_get_def split: if_splits)

lemma edge_sides_known:
  assumes "edge_sides sha ids show e = (src, tgt)"
  shows "\<exists>k. dict_get CLASSIFICATION_COUNTERS (fst src) = Some k" "\<exists>k. dict_get CLASSIFICATION_COUNTERS (fst tgt) = Some k"
  using assms classify_known unfolding edge_sides_def Let_def by (metis prod.inject)+

text \<open>The keys that the totals overwrite, and those that an edge counts beside its classes.\<close>

definition total_keys :: "string list" where
  "total_keys = [''edge_records_total'', ''invalid_json_records'', ''non_object_json_records'', ''edges_total'',
     ''edge_sides_total'', ''node_reference_sides'', ''missing_node_reference_sides'']"

definition event_keys :: "string list" where
  "event_keys = [''malformed_edges'', ''auditable_edges_total'', ''edges_with_any_missing_node_reference'',
     ''edges_with_both_missing_node_references'']"

text \<open>The four groups of keys are disjoint, and the edge counters start at zero.\<close>

lemma key_groups:
  "list_all (\<lambda>k. k \<notin> set event_keys \<and> k \<notin> set total_keys \<and> dict_get edge_counters k = Some 0 \<and> k \<noteq> ''nodes_total'') counter_keys"
  "list_all (\<lambda>k. k \<notin> set counter_keys \<and> k \<notin> set total_keys \<and> dict_get edge_counters k = Some 0 \<and> k \<noteq> ''nodes_total'') event_keys"
  "list_all (\<lambda>k. k \<notin> set counter_keys \<and> k \<notin> set total_keys \<and> k \<notin> set event_keys \<and> dict_get edge_counters k = None
     \<and> k \<noteq> ''nodes_total'') node_keys"
  by code_simp+

lemmas key_facts = key_groups [unfolded list_all_iff]

lemma event_keys_iff: "k \<in> set event_keys \<longleftrightarrow> k = ''malformed_edges'' \<or> k = ''auditable_edges_total''
    \<or> k = ''edges_with_any_missing_node_reference'' \<or> k = ''edges_with_both_missing_node_references''"
  by (simp only: event_keys_def list.set insert_iff empty_iff simp_thms)

lemma hits_other: "k \<notin> set counter_keys \<Longrightarrow> hits k c = 0"
  by (auto simp: hits_def dict_get_def dest!: map_of_SomeD intro: rev_image_eqI)

lemma edge_count_class:
  assumes "k \<in> set counter_keys" and "edge_ok e" and "edge_sides sha ids show e = (src, tgt)"
  shows "edge_count sha ids show k e = hits k (fst src) + hits k (fst tgt)"
proof -
  have "k \<notin> set event_keys" using key_facts(1) assms(1) by blast
  then show ?thesis unfolding edge_count_def assms(3) event_keys_iff using assms(2) by (simp only: if_False simp_thms) simp
qed

lemma edge_count_class_malformed: "k \<in> set counter_keys \<Longrightarrow> \<not> edge_ok e \<Longrightarrow> edge_count sha ids show k e = 0"
  using key_facts(1) by (auto simp: edge_count_def event_keys_def)

lemma edge_count_node: "k \<in> set node_keys \<Longrightarrow> edge_count sha ids show k e = 0"
proof -
  assume "k \<in> set node_keys"
  then have "k \<notin> set event_keys" "k \<notin> set counter_keys" using key_facts(3) by blast+
  then show ?thesis unfolding edge_count_def event_keys_iff by (auto simp: hits_other split: prod.split)
qed

lemma not_counter: "hits ''auditable_edges_total'' c = 0" "hits ''malformed_edges'' c = 0"
  by (rule hits_other, code_simp)+

lemma edge_count_auditable: "edge_count sha ids show ''auditable_edges_total'' e = (if edge_ok e then 1 else 0)"
  by (auto simp: edge_count_def not_counter split: prod.split)

lemma edge_count_malformed: "edge_count sha ids show ''malformed_edges'' e = (if edge_ok e then 0 else 1)"
  by (auto simp: edge_count_def not_counter split: prod.split)

lemma edge_count_sides:
  "(\<Sum>k\<leftarrow>counter_keys. edge_count sha ids show k e) = 2 * edge_count sha ids show ''auditable_edges_total'' e"
proof (cases "edge_ok e")
  case False
  then have "map (\<lambda>k. edge_count sha ids show k e) counter_keys = map (\<lambda>_. 0) counter_keys"
    by (intro map_cong) (auto simp: edge_count_class_malformed)
  then have "(\<Sum>k\<leftarrow>counter_keys. edge_count sha ids show k e) = sum_list (map (\<lambda>_. 0) counter_keys)" by (rule arg_cong)
  also have "\<dots> = 0" by (rule sum_list_0)
  finally show ?thesis using False by (simp only: edge_count_auditable) simp
next
  case True
  obtain src tgt where st: "edge_sides sha ids show e = (src, tgt)" by (cases "edge_sides sha ids show e")
  have "map (\<lambda>k. edge_count sha ids show k e) counter_keys = map (\<lambda>k. hits k (fst src) + hits k (fst tgt)) counter_keys"
    by (intro map_cong) (auto simp: edge_count_class [OF _ True st])
  then have "(\<Sum>k\<leftarrow>counter_keys. edge_count sha ids show k e) = (\<Sum>k\<leftarrow>counter_keys. hits k (fst src) + hits k (fst tgt))"
    by (rule arg_cong)
  also have "\<dots> = (\<Sum>k\<leftarrow>counter_keys. hits k (fst src)) + (\<Sum>k\<leftarrow>counter_keys. hits k (fst tgt))"
    by (rule sum_list_addf)
  also have "\<dots> = 2" using hits_total edge_sides_known [OF st] by fastforce
  finally show ?thesis using True by (simp only: edge_count_auditable) simp
qed

lemma sum_list_cases: "(\<Sum>e\<leftarrow>es. if P e then 1 else 0) + (\<Sum>e\<leftarrow>es. if P e then 0 else 1) = int (length es)"
  by (induction es) auto

lemma sum_list_swap: "(\<Sum>k\<leftarrow>ks. \<Sum>e\<leftarrow>es. f k e) = (\<Sum>e\<leftarrow>es. \<Sum>k\<leftarrow>ks. f k e :: int)"
proof (induction es)
  case (Cons e es)
  then show ?case by (simp add: sum_list_addf)
qed (simp add: sum_list_0)

lemma cnt_totals: "k \<notin> set total_keys \<Longrightarrow> cnt (summary_totals edges s) k = cnt s k"
  by (simp only: total_keys_def list.set insert_iff de_Morgan_disj summary_totals_def Let_def cnt_set if_False)

lemma cnt_init_edge: "dict_get edge_counters k = Some 0 \<Longrightarrow> k \<noteq> ''nodes_total'' \<Longrightarrow> cnt (summary_init nodes) k = 0"
  by (simp add: summary_init_def cnt_def dict_get_def map_add_def)

lemma cnt_init_class: "k \<in> set counter_keys \<Longrightarrow> cnt (summary_init nodes) k = 0"
  using key_facts(1) cnt_init_edge by blast

lemma cnt_init_event: "k \<in> set event_keys \<Longrightarrow> cnt (summary_init nodes) k = 0"
  using key_facts(2) cnt_init_edge by blast

lemma map_of_map_self: "map_of (map (\<lambda>k. (k, f k)) ks) k = (if k \<in> set ks then Some (f k) else None)"
  by (induction ks) auto

lemma cnt_init_node: "k \<in> set node_keys \<Longrightarrow> cnt (summary_init nodes) k = cnt nodes k"
proof -
  assume k: "k \<in> set node_keys"
  then have "dict_get edge_counters k = None" "k \<noteq> ''nodes_total''" using key_facts(3) by blast+
  with k show ?thesis
    by (simp add: summary_init_def cnt_def [of "_ # _"] dict_get_def map_add_def map_of_map_self)
qed

lemma event_members: "''auditable_edges_total'' \<in> set event_keys" "''malformed_edges'' \<in> set event_keys"
  by (simp_all add: event_keys_iff)

lemmas cnt_init_edges = cnt_init_event [OF event_members(1)] cnt_init_event [OF event_members(2)]

lemmas totals_event = cnt_totals [OF conjunct1 [OF conjunct2 [OF bspec [OF key_facts(2) event_members(1)]]]]
  cnt_totals [OF conjunct1 [OF conjunct2 [OF bspec [OF key_facts(2) event_members(2)]]]]

subsection \<open>Properties\<close>

text \<open>
  C33. The bounded report is the head of the full one: with a limit the audit keeps exactly the first
  findings of the stably sorted list of all findings, without a limit all of them, and the truncation
  flag is set exactly when there were more.  In particular the evaluation always returns.
\<close>

theorem evaluate_audit_data_findings:
  assumes "max_findings = -1 \<or> 0 \<le> max_findings"
  shows "case evaluate_audit_data sha node_ids edges source source_kind show_ids nodes max_findings of
     Inl _ \<Rightarrow> False
   | Inr r \<Rightarrow>
       let all = sort_key finding_sort_key (concat (map (edge_findings sha node_ids show_ids) (snd edges))) in
       ar_findings r = (if max_findings = -1 then all else take (nat max_findings) all)
       \<and> (ar_truncated r \<longleftrightarrow> length (ar_findings r) < length all)"
proof -
  obtain r where
    r: "evaluate_audit_data sha node_ids edges source source_kind show_ids nodes max_findings = Inr r"
      "ar_findings r = sort_key finding_sort_key (kept max_findings (concat (map (edge_findings sha node_ids show_ids) (snd edges))))"
      "ar_truncated r \<longleftrightarrow> max_findings \<noteq> -1 \<and>
         int (length (concat (map (edge_findings sha node_ids show_ids) (snd edges)))) > max_findings"
    by (rule evaluate_run [OF assms, of sha node_ids edges source source_kind show_ids nodes], rule that)
  define F where "F = concat (map (edge_findings sha node_ids show_ids) (snd edges))"
  show ?thesis
    unfolding r(1) sum.case Let_def r(2) sort_kept r(3) F_def [symmetric]
    by (cases "max_findings = -1") (use assms in auto)
qed

definition demo_edges :: "counters \<times> dict list" where
  "demo_edges = ([], [[(''id'', JStr ''e1''), (''source_id'', JStr ''n1''), (''target_id'', JStr ''n9'')],
     [(''id'', JStr ''e2''), (''source_id'', JStr ''n1''), (''target_id'', JStr ''a1''), (''target_type'', JStr ''account'')]])"

theorem evaluate_audit_data_findings_witness:
  "case evaluate_audit_data id [''n1''] demo_edges JNull ''runtime'' True [] 1 of
     Inl _ \<Rightarrow> False
   | Inr r \<Rightarrow> ar_findings r = take 1 (sort_key finding_sort_key (concat (map (edge_findings id [''n1''] True) (snd demo_edges))))"
  using evaluate_audit_data_findings [where max_findings = 1 and sha = id and node_ids = "[''n1'']"
      and edges = demo_edges and source = JNull and source_kind = "''runtime''" and show_ids = True and nodes = "[]"]
  by (auto simp: Let_def split: sum.splits)

text \<open>
  Nothing is lost in the counters: every edge record is counted as auditable or malformed, and the
  six reference classes account for exactly the two sides of every auditable edge.
\<close>

theorem evaluate_audit_data_conservation:
  assumes "max_findings = -1 \<or> 0 \<le> max_findings"
    and "evaluate_audit_data sha node_ids edges source source_kind show_ids nodes max_findings = Inr r"
  shows "cnt (ar_summary r) ''auditable_edges_total'' + cnt (ar_summary r) ''malformed_edges'' = int (length (snd edges))
   \<and> (\<Sum>k\<leftarrow>map snd CLASSIFICATION_COUNTERS. cnt (ar_summary r) k) = cnt (ar_summary r) ''edge_sides_total''
   \<and> cnt (ar_summary r) ''edge_sides_total'' = 2 * cnt (ar_summary r) ''auditable_edges_total''"
proof -
  let ?E = "\<lambda>k. edge_count sha node_ids show_ids k" and ?es = "snd edges"
  from evaluate_run [OF assms(1), of sha node_ids edges source source_kind show_ids nodes] assms(2) obtain s where
    sm: "ar_summary r = summary_totals (fst edges) s"
    and c: "\<forall>k. cnt s k = cnt (summary_init nodes) k + sum_list (map (?E k) ?es)" by (metis sum.inject(2))
  have a: "cnt s ''auditable_edges_total'' = (\<Sum>e\<leftarrow>?es. ?E ''auditable_edges_total'' e)"
    and m: "cnt s ''malformed_edges'' = (\<Sum>e\<leftarrow>?es. ?E ''malformed_edges'' e)"
    by (simp_all add: c cnt_init_edges)
  have "(\<Sum>e\<leftarrow>?es. ?E ''auditable_edges_total'' e) + (\<Sum>e\<leftarrow>?es. ?E ''malformed_edges'' e) = int (length ?es)"
    unfolding edge_count_auditable edge_count_malformed by (rule sum_list_cases)
  moreover have "map (cnt (ar_summary r)) counter_keys = map (\<lambda>k. \<Sum>e\<leftarrow>?es. ?E k e) counter_keys"
    by (intro map_cong refl) (use key_facts(1) in \<open>simp only: sm cnt_totals c cnt_init_class add_0 simp_thms\<close>)
  then have "(\<Sum>k\<leftarrow>counter_keys. cnt (ar_summary r) k) = (\<Sum>k\<leftarrow>counter_keys. \<Sum>e\<leftarrow>?es. ?E k e)" by (rule arg_cong)
  then have "(\<Sum>k\<leftarrow>counter_keys. cnt (ar_summary r) k) = 2 * cnt s ''auditable_edges_total''"
    unfolding sum_list_swap edge_count_sides a by (simp add: sum_list_const_mult)
  moreover have "cnt (ar_summary r) ''edge_sides_total'' = 2 * cnt s ''auditable_edges_total''"
    using totals_event(1) by (simp add: sm summary_totals_def Let_def cnt_set)
  ultimately show ?thesis by (simp only: sm totals_event a m simp_thms)
qed

theorem evaluate_audit_data_conservation_witness:
  "\<exists>r. evaluate_audit_data id [''n1''] demo_edges JNull ''runtime'' True [] (-1) = Inr r
     \<and> cnt (ar_summary r) ''edge_sides_total'' = 2 * cnt (ar_summary r) ''auditable_edges_total''"
proof -
  let ?v = "evaluate_audit_data id [''n1''] demo_edges JNull ''runtime'' True [] (-1)"
  obtain r where r: "?v = Inr r" by (rule evaluate_run [of "-1" id "[''n1'']" demo_edges JNull "''runtime''" True "[]"]) auto
  from evaluate_audit_data_conservation [OF _ r] r show ?thesis by blast
qed

subsection \<open>Readiness for a foreign key\<close>

definition node_hint :: "json \<Rightarrow> bool" where
  "node_hint v = (v = JNull \<or> v = JStr ''node'' \<or> (\<exists>s. v = JStr s \<and> strip s = []))"

lemma classify_good:
  assumes "fst (classify_edge_side sha er side t hint ids show) \<in> {''typed_node_reference'', ''untyped_existing_node_reference''}"
  shows "t \<in> set ids \<and> node_hint hint"
  using assms unfolding classify_edge_side_def Let_def node_hint_def
  by (cases hint) (auto split: prod.splits if_splits)

lemma classify_node:
  assumes "t \<in> set ids" and "node_hint hint"
  shows "fst (classify_edge_side sha er side t hint ids show) \<in> {''typed_node_reference'', ''untyped_existing_node_reference''}"
  using assms unfolding classify_edge_side_def Let_def node_hint_def
  by (auto split: prod.split json.split)

definition bad_keys :: "string list" where
  "bad_keys = [''typed_node_missing_references'', ''typed_non_node_references'', ''typed_unknown_references'',
     ''untyped_missing_references'']"

text \<open>An edge that a strict foreign key accepts.\<close>

definition fk_edge :: "string list \<Rightarrow> dict \<Rightarrow> bool" where
  "fk_edge node_ids e = (edge_ok e
     \<and> py_str (jget e ''source_id'') \<in> set node_ids \<and> node_hint (jget e ''source_type'')
     \<and> py_str (jget e ''target_id'') \<in> set node_ids \<and> node_hint (jget e ''target_type''))"

lemma bad_keys_counters: "k \<in> set bad_keys \<Longrightarrow> k \<in> set counter_keys"
proof -
  have "list_all (\<lambda>k. k \<in> set counter_keys) bad_keys" by code_simp
  then show "k \<in> set bad_keys \<Longrightarrow> ?thesis" by (simp only: list_all_iff)
qed

lemma classify_fk:
  "(\<forall>k \<in> set bad_keys. hits k (fst (classify_edge_side sha er side t hint ids show)) = 0) \<longleftrightarrow> t \<in> set ids \<and> node_hint hint"
proof -
  let ?c = "fst (classify_edge_side sha er side t hint ids show)"
  have "list_all (\<lambda>c. (\<forall>k \<in> set bad_keys. hits k c = 0) \<longleftrightarrow> c \<in> {''typed_node_reference'', ''untyped_existing_node_reference''})
      (map fst CLASSIFICATION_COUNTERS)" by code_simp
  moreover have "?c \<in> set (map fst CLASSIFICATION_COUNTERS)"
    using classify_known [of sha er side t hint ids "show"] by (force simp: dict_get_def dest: map_of_SomeD)
  ultimately have "(\<forall>k \<in> set bad_keys. hits k ?c = 0) \<longleftrightarrow> ?c \<in> {''typed_node_reference'', ''untyped_existing_node_reference''}"
    unfolding list_all_iff by blast
  also have "\<dots> \<longleftrightarrow> t \<in> set ids \<and> node_hint hint"
    using classify_good [of sha er side t hint ids "show"] classify_node [of t ids hint sha er side "show"] by blast
  finally show ?thesis .
qed

lemma edge_fk:
  "edge_ok e \<and> (\<forall>k \<in> set bad_keys. edge_count sha ids show k e = 0) \<longleftrightarrow> fk_edge ids e"
proof (cases "edge_ok e")
  case True
  obtain src tgt where st: "edge_sides sha ids show e = (src, tgt)" by (cases "edge_sides sha ids show e")
  let ?ref = "if show then py_str (jget e ''id'') else hash_edge sha (py_str (jget e ''id''))"
  from st have cls:
    "classify_edge_side sha ?ref ''source'' (py_str (jget e ''source_id'')) (jget e ''source_type'') ids show = src"
    "classify_edge_side sha ?ref ''target'' (py_str (jget e ''target_id'')) (jget e ''target_type'') ids show = tgt"
    unfolding edge_sides_def Let_def prod.inject by blast+
  have "(\<forall>k \<in> set bad_keys. edge_count sha ids show k e = 0) \<longleftrightarrow>
      (\<forall>k \<in> set bad_keys. hits k (fst src) = 0) \<and> (\<forall>k \<in> set bad_keys. hits k (fst tgt) = 0)"
    using edge_count_class [OF bad_keys_counters True st] hits_nonneg by (metis add_nonneg_eq_0_iff)
  also have "\<dots> \<longleftrightarrow> fk_edge ids e"
    unfolding cls [symmetric] classify_fk fk_edge_def using True by blast
  finally show ?thesis using True by blast
qed (simp add: fk_edge_def)

lemma cleanup_split: "list_all P cleanup_keys \<and> P ''typed_non_node_references'' \<and> P ''typed_unknown_references'' \<longleftrightarrow>
    list_all P node_defect_keys \<and> P ''malformed_edges'' \<and> P ''invalid_json_records'' \<and> P ''non_object_json_records''
    \<and> list_all P bad_keys"
  unfolding cleanup_keys_def bad_keys_def by (simp only: list_all_append list.pred_inject simp_thms) blast

text \<open>
  C34. The readiness signal is exact: the report says that a strict node foreign key can be introduced
  precisely for runtime data with at least one edge, when every edge is well formed and both its ends are
  ids of known nodes with no type hint other than node, and no record of nodes or edges was defective.
\<close>

theorem strict_node_fk_ready_iff:
  assumes "max_findings = -1 \<or> 0 \<le> max_findings"
    and "evaluate_audit_data sha node_ids edges source source_kind show_ids nodes max_findings = Inr r"
  shows "ps_strict_node_fk_ready (ar_policy r) \<longleftrightarrow>
     source_kind = ''runtime'' \<and> snd edges \<noteq> [] \<and> (\<forall>e \<in> set (snd edges). fk_edge node_ids e)
     \<and> (\<forall>k \<in> set node_defect_keys. cnt nodes k = 0)
     \<and> cnt (fst edges) ''invalid_json_records'' = 0 \<and> cnt (fst edges) ''non_object_json_records'' = 0"
proof -
  let ?E = "\<lambda>k. edge_count sha node_ids show_ids k" and ?es = "snd edges"
  from evaluate_run [OF assms(1), of sha node_ids edges source source_kind show_ids nodes] assms(2) obtain s where
    sm: "ar_summary r = summary_totals (fst edges) s" and p: "ar_policy r = policy_of source_kind (ar_summary r)"
    and c: "\<forall>k. cnt s k = cnt (summary_init nodes) k + sum_list (map (?E k) ?es)" by (metis sum.inject(2))
  let ?S = "cnt (summary_totals (fst edges) s)"
  have nodes: "?S k = cnt nodes k" if "k \<in> set node_defect_keys" for k
  proof -
    from that have k: "k \<in> set node_keys" by (simp only: node_keys_def list.set insert_iff simp_thms)
    then have "k \<notin> set total_keys" using key_facts(3) by blast
    then have "?S k = cnt s k" by (rule cnt_totals)
    also have "\<dots> = cnt nodes k + sum_list (map (?E k) ?es)" using c cnt_init_node [OF k] by simp
    finally have "?S k = cnt nodes k + sum_list (map (?E k) ?es)" .
    moreover have "sum_list (map (?E k) ?es) = 0" by (simp only: count_zero edge_count_node [OF k]) simp
    ultimately show ?thesis by simp
  qed
  have mal: "?S ''malformed_edges'' = 0 \<longleftrightarrow> (\<forall>e \<in> set ?es. edge_ok e)"
    by (simp add: totals_event c cnt_init_edges count_zero edge_count_malformed)
  have bad: "?S k = 0 \<longleftrightarrow> (\<forall>e \<in> set ?es. ?E k e = 0)" if "k \<in> set bad_keys" for k
  proof -
    note k = bad_keys_counters [OF that]
    then have "k \<notin> set total_keys" using key_facts(1) by blast
    then have "?S k = cnt s k" by (rule cnt_totals)
    also have "\<dots> = sum_list (map (?E k) ?es)" using c cnt_init_class [OF k] by simp
    finally have "?S k = sum_list (map (?E k) ?es)" .
    then show ?thesis by (simp only: count_zero)
  qed
  have aud: "?S ''auditable_edges_total'' = (\<Sum>e\<leftarrow>?es. if edge_ok e then 1 else 0)"
    unfolding edge_count_auditable [of sha node_ids show_ids, symmetric]
    by (simp only: totals_event c cnt_init_edges add_0)
  have pos: "0 < (\<Sum>e\<leftarrow>?es. if edge_ok e then 1 else 0 :: int)" if "\<forall>e \<in> set ?es. edge_ok e" "?es \<noteq> []"
    using that by (cases ?es) (auto intro!: add_pos_nonneg sum_list_nonneg)
  have inv: "?S ''invalid_json_records'' = cnt (fst edges) ''invalid_json_records''"
      "?S ''non_object_json_records'' = cnt (fst edges) ''non_object_json_records''"
    by (simp_all add: summary_totals_def Let_def cnt_set)
  have nb: "(\<forall>k \<in> set node_defect_keys. ?S k = 0) \<longleftrightarrow> (\<forall>k \<in> set node_defect_keys. cnt nodes k = 0)"
      "(\<forall>k \<in> set bad_keys. ?S k = 0) \<longleftrightarrow> (\<forall>k \<in> set bad_keys. \<forall>e \<in> set ?es. ?E k e = 0)"
    by (auto simp only: nodes bad)
  have "ps_strict_node_fk_ready (ar_policy r) \<longleftrightarrow> source_kind = ''runtime'' \<and> ?S ''auditable_edges_total'' > 0
      \<and> (list_all (\<lambda>k. ?S k = 0) cleanup_keys \<and> ?S ''typed_non_node_references'' = 0 \<and> ?S ''typed_unknown_references'' = 0)"
    unfolding p policy_of_def Let_def sm policy_signals.simps by (simp only: conj_assoc)
  also have "\<dots> \<longleftrightarrow> source_kind = ''runtime'' \<and> ?S ''auditable_edges_total'' > 0
      \<and> (\<forall>k \<in> set node_defect_keys. cnt nodes k = 0) \<and> (\<forall>e \<in> set ?es. edge_ok e)
      \<and> cnt (fst edges) ''invalid_json_records'' = 0 \<and> cnt (fst edges) ''non_object_json_records'' = 0
      \<and> (\<forall>k \<in> set bad_keys. \<forall>e \<in> set ?es. ?E k e = 0)"
    unfolding cleanup_split [of "\<lambda>k. ?S k = 0"] mal inv unfolding list_all_iff nb by (rule refl)
  also have "\<dots> \<longleftrightarrow> source_kind = ''runtime'' \<and> ?es \<noteq> [] \<and> (\<forall>e \<in> set ?es. fk_edge node_ids e)
     \<and> (\<forall>k \<in> set node_defect_keys. cnt nodes k = 0)
     \<and> cnt (fst edges) ''invalid_json_records'' = 0 \<and> cnt (fst edges) ''non_object_json_records'' = 0"
    unfolding aud edge_fk [of _ sha node_ids show_ids, symmetric] using pos by (cases "?es = []") auto
  finally show ?thesis .
qed

definition ready_edges :: "counters \<times> dict list" where
  "ready_edges = ([], [[(''id'', JStr ''e1''), (''source_id'', JStr ''n1''), (''target_id'', JStr ''n2''), (''target_type'', JStr ''node'')]])"

theorem strict_node_fk_ready_iff_witness:
  "\<exists>r. evaluate_audit_data id [''n1'', ''n2''] ready_edges JNull ''runtime'' True [] 0 = Inr r
     \<and> ps_strict_node_fk_ready (ar_policy r)"
proof -
  let ?v = "evaluate_audit_data id [''n1'', ''n2''] ready_edges JNull ''runtime'' True [] 0"
  obtain r where r: "?v = Inr r"
    by (rule evaluate_run [of 0 id "[''n1'', ''n2'']" ready_edges JNull "''runtime''" True "[]"]) auto
  have "ps_strict_node_fk_ready (ar_policy r)"
    unfolding strict_node_fk_ready_iff [OF _ r, simplified]
    by (simp add: ready_edges_def fk_edge_def edge_ok_def is_non_empty_string_def is_ws_def node_hint_def
        jget_def dict_get_def cnt_def)
  with r show ?thesis by blast
qed

subsection \<open>Loading nodes\<close>

text \<open>Every record is counted once: as an id or under one of the defects.\<close>

definition node_outcome_keys :: "string list" where
  "node_outcome_keys = ''node_ids_total'' # node_defect_keys"

definition nodes_inv :: "nat \<Rightarrow> string list \<times> counters \<Rightarrow> bool" where
  "nodes_inv n = (\<lambda>(ids, s). distinct ids \<and> (\<forall>i \<in> set ids. strip i \<noteq> [])
     \<and> cnt s ''node_ids_total'' = int (length ids) \<and> cnt s ''node_records_total'' = int n
     \<and> (\<Sum>k\<leftarrow>node_outcome_keys. cnt s k) = int n)"

lemma outcome_keys: "distinct node_outcome_keys" "''node_records_total'' \<notin> set node_outcome_keys"
  "''node_ids_total'' \<in> set node_outcome_keys" "''node_ids_total'' \<notin> set node_defect_keys"
  by code_simp+

lemma sum_bump:
  "distinct ks \<Longrightarrow> (\<Sum>j\<leftarrow>ks. cnt (bump s k) j) = (\<Sum>j\<leftarrow>ks. cnt s j) + (if k \<in> set ks then 1 else 0)"
  by (induction ks) (auto simp: cnt_bump)

lemma nodes_inv_step:
  assumes "nodes_inv n (ids, s)" and "k \<in> set node_outcome_keys"
    and "if k = ''node_ids_total'' then ids' = i # ids \<and> i \<notin> set ids \<and> strip i \<noteq> [] else ids' = ids"
  shows "nodes_inv (Suc n) (ids', bump (bump s ''node_records_total'') k)"
proof -
  have "k \<noteq> ''node_records_total''" using assms(2) outcome_keys(2) by blast
  moreover have "(\<Sum>j\<leftarrow>node_outcome_keys. cnt (bump (bump s ''node_records_total'') k) j) = int n + 1"
    using assms(1,2) outcome_keys(1,2) by (simp add: sum_bump nodes_inv_def)
  moreover have "cnt (bump (bump s ''node_records_total'') k) ''node_ids_total'' = int (length ids')"
    using assms(1,3) by (auto simp: cnt_bump nodes_inv_def split: if_splits)
  ultimately show ?thesis
    using assms(1,3) cnt_bump [of _ k "''node_records_total''"] cnt_bump [of s "''node_records_total''" "''node_records_total''"]
    unfolding nodes_inv_def by (auto split: if_splits)
qed

lemma defect_outcome: "k \<in> set node_defect_keys \<Longrightarrow> k \<in> set node_outcome_keys \<and> k \<noteq> ''node_ids_total''"
  using outcome_keys(4) by (auto simp: node_outcome_keys_def)

lemma defect_members:
  "''node_invalid_json_records'' \<in> set node_defect_keys" "''node_non_object_json_records'' \<in> set node_defect_keys"
  "''nodes_missing_id'' \<in> set node_defect_keys" "''nodes_non_string_id'' \<in> set node_defect_keys"
  "''nodes_empty_id'' \<in> set node_defect_keys" "''node_duplicate_ids'' \<in> set node_defect_keys"
  by (simp_all only: node_defect_keys_def list.set insert_iff simp_thms)

lemma nodes_defect:
  "nodes_inv n (ids, s) \<Longrightarrow> k \<in> set node_defect_keys \<Longrightarrow> nodes_inv (Suc n) (ids, bump (bump s ''node_records_total'') k)"
  using nodes_inv_step [of n ids s k ids] defect_outcome [of k] by simp

lemma nodes_new:
  "nodes_inv n (ids, s) \<Longrightarrow> i \<notin> set ids \<Longrightarrow> strip i \<noteq> [] \<Longrightarrow>
   nodes_inv (Suc n) (i # ids, bump (bump s ''node_records_total'') ''node_ids_total'')"
  using nodes_inv_step [of n ids s "''node_ids_total''" "i # ids" i] outcome_keys(3) by simp

lemma jsonl_node_step_inv:
  assumes "nodes_inv n (ids, s)"
  shows "nodes_inv (if list_all is_ws line then n else Suc n) (jsonl_node_step loads (ids, s) line)"
proof (cases "list_all is_ws line")
  case False
  note D = nodes_defect [OF assms defect_members(1)] nodes_defect [OF assms defect_members(2)]
    nodes_defect [OF assms defect_members(3)] nodes_defect [OF assms defect_members(4)]
    nodes_defect [OF assms defect_members(5)] nodes_defect [OF assms defect_members(6)]
  show ?thesis
    unfolding jsonl_node_step.simps Let_def using False D nodes_new [OF assms]
    by (simp only: if_False split: option.split json.split) simp
qed (use assms in simp)

lemma psql_node_step_inv: "nodes_inv n (ids, s) \<Longrightarrow> nodes_inv (Suc n) (psql_node_step (ids, s) line)"
  using nodes_defect [OF _ defect_members(5)] nodes_defect [OF _ defect_members(6)] nodes_new [of n ids s "strip line"]
  by (simp add: Let_def)

lemma nodes_inv_init: "nodes_inv 0 ([], node_summary_init)"
  by (simp add: nodes_inv_def, code_simp)

lemma jsonl_nodes_inv:
  assumes "nodes_inv n st"
  shows "nodes_inv (n + length (filter (\<lambda>l. \<not> list_all is_ws l) lines)) (foldl (jsonl_node_step loads) st lines)"
  using assms
proof (induction lines arbitrary: n st)
  case (Cons l ls)
  obtain ids s where st: "st = (ids, s)" by (cases st)
  from Cons.IH [OF jsonl_node_step_inv [OF Cons.prems [unfolded st], of l loads]] show ?case
    by (simp add: st del: jsonl_node_step.simps split: if_splits)
qed simp

text \<open>
  Loading the nodes file accounts for every record: the ids are distinct and not blank, their number
  is the id total, the record total is the number of lines that are not blank, and it is the sum of the id
  total and the six defect counters.
\<close>

theorem load_jsonl_nodes_accounting:
  "case load_jsonl_nodes loads lines of (ids, s) \<Rightarrow>
     distinct ids \<and> list_all (\<lambda>i. strip i \<noteq> []) ids
     \<and> cnt s ''node_ids_total'' = int (length ids)
     \<and> cnt s ''node_records_total'' = int (length (filter (\<lambda>l. \<not> list_all is_ws l) lines))
     \<and> cnt s ''node_records_total'' = cnt s ''node_ids_total'' + (\<Sum>k\<leftarrow>node_defect_keys. cnt s k)"
proof -
  obtain ids s where r: "load_jsonl_nodes loads lines = (ids, s)" by (cases "load_jsonl_nodes loads lines")
  have "nodes_inv (length (filter (\<lambda>l. \<not> list_all is_ws l) lines)) (ids, s)"
    using jsonl_nodes_inv [OF nodes_inv_init, of lines loads] r by (simp add: load_jsonl_nodes_def)
  then show ?thesis by (simp add: r nodes_inv_def node_outcome_keys_def list_all_iff)
qed

subsection \<open>The database environment\<close>

definition url_keys :: "string list" where
  "url_keys = [''PGHOST'', ''PGPORT'', ''PGUSER'', ''PGPASSWORD'', ''PGDATABASE''] @ map snd query_env_map"

definition pg_key :: "string \<Rightarrow> bool" where
  "pg_key k = (k = ''DATABASE_URL'' \<or> starts_with ''PG'' k)"

lemma url_keys_pg: "k \<in> set url_keys \<Longrightarrow> starts_with ''PG'' k"
proof -
  have "list_all (starts_with ''PG'') url_keys" by code_simp
  then show "k \<in> set url_keys \<Longrightarrow> ?thesis" by (simp only: list_all_iff)
qed

lemma get_filter: "dict_get (filter (\<lambda>(k, _). P k) d) k = (if P k then dict_get d k else None)"
  by (induction d) (auto simp: dict_get_def)

lemma foldl_set_some_other:
  "\<forall>(j, v) \<in> set kvs. j = k \<longrightarrow> v = None \<Longrightarrow> dict_get (foldl set_some env kvs) k = dict_get env k"
  by (induction kvs arbitrary: env) (auto simp: set_some_def dict_set_get split: option.split)

lemma url_settings_keys: "map fst (url_settings unquote parsed) = url_keys"
  by (simp add: url_settings_def url_keys_def query_env_map_def)

lemma password_once: "\<forall>(j, v) \<in> set (url_settings unquote parsed). j = ''PGPASSWORD'' \<longrightarrow> v = map_option unquote (non_empty (pu_password parsed))"
  by (simp add: url_settings_def query_env_map_def)



end
