(* ===== verification/Py_Float.thy ===== *)
theory Py_Float
  imports Py_Base
begin

text \<open>
  Python's floats as IEEE 754 binary64 values: a finite double is the rational it stands for, every
  operation is the exact one followed by rounding to nearest, ties to even.  The sign of zero is not
  represented; no operation below depends on it.  \<open>fkey\<close> embeds the values that are numbers into a linear
  order, which is how comparisons and sorting see them.
\<close>

text \<open>The exponent of the leading bit of a positive integer.\<close>

function int_log2 :: "int \<Rightarrow> int" where
  "int_log2 n = (if n < 2 then 0 else 1 + int_log2 (n div 2))"
  by pat_completeness auto
termination by (relation "measure nat") auto

declare int_log2.simps [simp del]

text \<open>The \<open>e\<close> with \<open>2 ^ e \<le> a / b < 2 ^ (e + 1)\<close>, from the logarithms of numerator and denominator.\<close>

definition quot_log2 :: "int \<Rightarrow> int \<Rightarrow> int" where
  "quot_log2 a b =
     (let e = int_log2 a - int_log2 b
      in if (if 0 \<le> e then b * 2 ^ nat e \<le> a else b \<le> a * 2 ^ nat (- e)) then e else e - 1)"

definition div_half_even :: "int \<Rightarrow> int \<Rightarrow> int" where
  "div_half_even n d =
     (let f = n div d; r = n mod d in
      if 2 * r < d then f
      else if 2 * r > d then f + 1
      else if even f then f else f + 1)"

text \<open>
  The exponent \<open>e\<close> of the unit in the last place is that of the 53 bit significand, or the least one;
  the significand is the quotient by \<open>2 ^ e\<close>, rounded.
\<close>

definition round_double :: "rat \<Rightarrow> fnum" where
  "round_double q =
     (if q = 0 then Fin 0
      else
        let (a, b) = quotient_of q;
            e = max (quot_log2 \<bar>a\<bar> b - 52) (- 1074)
        in if e < 0
           then Fin (of_int (div_half_even (a * 2 ^ nat (- e)) b) / of_int (2 ^ nat (- e)))
           else let r = div_half_even a (b * 2 ^ nat e) * 2 ^ nat e
                in if r \<ge> 2 ^ 1024 then PosInf else if r \<le> - (2 ^ 1024) then NegInf else Fin (of_int r))"

fun fl_neg :: "fnum \<Rightarrow> fnum" where
  "fl_neg (Fin x) = Fin (- x)"
| "fl_neg PosInf = NegInf"
| "fl_neg NegInf = PosInf"
| "fl_neg NaN = NaN"

fun fl_add :: "fnum \<Rightarrow> fnum \<Rightarrow> fnum" where
  "fl_add (Fin x) (Fin y) = round_double (x + y)"
| "fl_add NaN _ = NaN"
| "fl_add _ NaN = NaN"
| "fl_add PosInf NegInf = NaN"
| "fl_add NegInf PosInf = NaN"
| "fl_add (Fin _) y = y"
| "fl_add x _ = x"

definition fl_sub :: "fnum \<Rightarrow> fnum \<Rightarrow> fnum" where
  "fl_sub x y = fl_add x (fl_neg y)"

text \<open>The sign of a number: 1, 0 or -1.\<close>

fun fl_sign :: "fnum \<Rightarrow> int" where
  "fl_sign (Fin x) = (if x > 0 then 1 else if x < 0 then - 1 else 0)"
| "fl_sign PosInf = 1"
| "fl_sign NegInf = - 1"
| "fl_sign NaN = 0"

definition fl_inf :: "int \<Rightarrow> fnum" where
  "fl_inf s = (if s > 0 then PosInf else if s < 0 then NegInf else NaN)"

fun fl_mul :: "fnum \<Rightarrow> fnum \<Rightarrow> fnum" where
  "fl_mul (Fin x) (Fin y) = round_double (x * y)"
| "fl_mul NaN _ = NaN"
| "fl_mul _ NaN = NaN"
| "fl_mul x y = fl_inf (fl_sign x * fl_sign y)"

text \<open>Division by a number that is not zero; Python raises ZeroDivisionError for zero.\<close>

fun fl_div :: "fnum \<Rightarrow> fnum \<Rightarrow> fnum" where
  "fl_div (Fin x) (Fin y) = round_double (x / y)"
| "fl_div NaN _ = NaN"
| "fl_div _ NaN = NaN"
| "fl_div (Fin _) _ = Fin 0"
| "fl_div x (Fin y) = fl_inf (fl_sign x * (if y < 0 then - 1 else 1))"
| "fl_div _ _ = NaN"

function isqrt :: "int \<Rightarrow> int" where
  "isqrt n = (if n \<le> 0 then 0
     else let r = 2 * isqrt (n div 4) in if (r + 1) * (r + 1) \<le> n then r + 1 else r)"
  by pat_completeness auto
termination by (relation "measure nat") auto

declare isqrt.simps [simp del]

text \<open>
  The correctly rounded root: the integer root at a scale of at least 60 bits, with half a unit added
  when it is not exact, rounds as the root does.
\<close>

definition rat_sqrt :: "rat \<Rightarrow> fnum" where
  "rat_sqrt q =
     (let (a, b) = quotient_of q;
          k = nat (max 0 (60 - quot_log2 a b div 2));
          n = a * 4 ^ k;
          s = isqrt (n div b)
      in round_double (of_int (if s * s * b = n then 2 * s else 2 * s + 1) / of_int (2 ^ (k + 1))))"

text \<open>\<open>math.sqrt\<close>; a negative argument, a ValueError in Python, does not occur in the sources modelled.\<close>

fun fl_sqrt :: "fnum \<Rightarrow> fnum" where
  "fl_sqrt (Fin x) = (if x = 0 then Fin 0 else rat_sqrt x)"
| "fl_sqrt x = x"

definition fkey :: "fnum \<Rightarrow> int \<times> rat" where
  "fkey f = (case f of NegInf \<Rightarrow> (- 1, 0) | Fin x \<Rightarrow> (0, x) | PosInf \<Rightarrow> (1, 0) | NaN \<Rightarrow> (2, 0))"

text \<open>Comparisons: false when an operand is not a number.\<close>

definition fl_le :: "fnum \<Rightarrow> fnum \<Rightarrow> bool" where
  "fl_le x y = (x \<noteq> NaN \<and> y \<noteq> NaN \<and> fkey x \<le> fkey y)"

definition fl_lt :: "fnum \<Rightarrow> fnum \<Rightarrow> bool" where
  "fl_lt x y = (x \<noteq> NaN \<and> y \<noteq> NaN \<and> fkey x < fkey y)"

definition is_finite :: "fnum \<Rightarrow> bool" where
  "is_finite f = (case f of Fin _ \<Rightarrow> True | _ \<Rightarrow> False)"

text \<open>\<open>a / b\<close> of two integers, correctly rounded, for \<open>b\<close> not zero.\<close>

definition int_div :: "nat \<Rightarrow> nat \<Rightarrow> fnum" where
  "int_div a b = round_double (of_nat a / of_nat b)"

text \<open>
  \<open>sum\<close> of floats from the integer 0: since Python 3.12 (the pinned version) with Neumaier's compensation,
  which is added at the end when it is finite.
\<close>

fun fl_abs :: "fnum \<Rightarrow> fnum" where
  "fl_abs (Fin x) = Fin \<bar>x\<bar>"
| "fl_abs NaN = NaN"
| "fl_abs _ = PosInf"

fun sum_step :: "fnum \<Rightarrow> fnum \<times> fnum \<Rightarrow> fnum \<times> fnum" where
  "sum_step x (s, c) =
     (let t = fl_add s x in
      (t, fl_add c (if fl_le (fl_abs x) (fl_abs s) then fl_add (fl_sub s t) x
                    else fl_add (fl_sub x t) s)))"

fun py_sum :: "fnum list \<Rightarrow> fnum" where
  "py_sum [] = Fin 0"
| "py_sum (x # xs) =
     (let (s, c) = fold sum_step xs (x, Fin 0) in if is_finite c then fl_add s c else s)"

text \<open>\<open>max\<close> of floats keeps the first of equal ones.\<close>

definition fl_max :: "fnum \<Rightarrow> fnum \<Rightarrow> fnum" where
  "fl_max x y = (if fl_lt x y then y else x)"

subsection \<open>Lemmas\<close>

lemma fkey_inj: "fkey x = fkey y \<longleftrightarrow> x = y"
  by (cases x; cases y) (simp_all add: fkey_def)

lemma fl_le_linear: "x \<noteq> NaN \<Longrightarrow> y \<noteq> NaN \<Longrightarrow> fl_le x y \<or> fl_le y x"
  by (auto simp: fl_le_def)

lemma fl_le_trans: "fl_le x y \<Longrightarrow> fl_le y z \<Longrightarrow> fl_le x z"
  by (auto simp: fl_le_def)

lemma fl_not_le: "x \<noteq> NaN \<Longrightarrow> y \<noteq> NaN \<Longrightarrow> \<not> fl_le x y \<longleftrightarrow> fl_lt y x"
  by (auto simp: fl_le_def fl_lt_def)

lemma round_double_not_NaN [simp]: "round_double q \<noteq> NaN"
  by (simp add: round_double_def Let_def split: prod.split)

lemma int_div_not_NaN [simp]: "int_div a b \<noteq> NaN"
  by (simp add: int_div_def)

lemma fl_neg_NaN [simp]: "fl_neg x = NaN \<longleftrightarrow> x = NaN"
  by (cases x) simp_all

lemma isqrt_bounds: "0 \<le> n \<Longrightarrow> isqrt n * isqrt n \<le> n \<and> n < (isqrt n + 1) * (isqrt n + 1)"
proof (induction n rule: isqrt.induct)
  case (1 n)
  show ?case
  proof (cases "n = 0")
    case False
    let ?r = "isqrt (n div 4)"
    from 1 False have IH: "?r * ?r \<le> n div 4" "n div 4 < (?r + 1) * (?r + 1)" by auto
    have "4 * (?r * ?r) \<le> n" using IH(1) by linarith
    moreover have "n div 4 + 1 \<le> (?r + 1) * (?r + 1)" using IH(2) by simp
    then have "n < 4 * ((?r + 1) * (?r + 1))" by linarith
    ultimately show ?thesis
      using False 1(2) by (subst (1 2 3 4) isqrt.simps) (auto simp: Let_def algebra_simps)
  qed (simp add: isqrt.simps)
qed

lemma int_log2_less: "n < 2 ^ Suc k \<Longrightarrow> int_log2 n \<le> int k"
proof (induction k arbitrary: n)
  case 0
  then show ?case by (simp add: int_log2.simps)
next
  case (Suc k)
  then have "n div 2 < 2 ^ Suc k" by simp
  from Suc.IH [OF this] show ?case by (subst int_log2.simps) auto
qed

lemma quot_log2_int: "0 < a \<Longrightarrow> a < 2 ^ Suc k \<Longrightarrow> quot_log2 a 1 \<le> int k"
  using int_log2_less [of a k] by (simp add: quot_log2_def Let_def int_log2.simps [of 1])

text \<open>Integers of up to 53 bits are doubles.\<close>

lemma round_double_of_int:
  assumes "\<bar>n\<bar> < 2 ^ 53" shows "round_double (of_int n) = Fin (of_int n)"
proof (cases "n = 0")
  case False
  with assms have e: "quot_log2 \<bar>n\<bar> 1 \<le> 52" using quot_log2_int [of "\<bar>n\<bar>" 52] by simp
  have d: "div_half_even m 1 = m" for m by (simp add: div_half_even_def)
  have q: "quotient_of (of_int n) = (n, 1)" by (simp add: Fract_of_int_eq quotient_of_Fract normalize_def)
  show ?thesis
  proof (cases "quot_log2 \<bar>n\<bar> 1 = 52")
    case True
    have "n < 2 ^ 1024" "\<not> n \<le> - (2 ^ 1024)"
      using assms power_increasing [of 53 1024 "2 :: int"] by linarith+
    with True False show ?thesis by (simp add: round_double_def q d)
  next
    case less: False
    with e have "max (quot_log2 \<bar>n\<bar> 1 - 52) (- 1074) < 0" by linarith
    with False show ?thesis by (simp add: round_double_def q d del: max_less_iff_conj)
  qed
qed (simp add: round_double_def)

end
