(* ===== verification/Hybrid_Ranking.thy ===== *)
theory Hybrid_Ranking
  imports Json_Contract Repo_Paths Py_Float
begin

text \<open>
  \<open>src/scripts/search/hybrid_ranking_core.py\<close>: search documents and queries behind a privacy boundary,
  vectors bound to one immutable generation, the lexical ranking and the hybrid ranking that appends at
  most one semantic candidate, with a lexical fallback when the provider is unavailable.

  The three patterns of the privacy boundary are modelled with a small matcher, floats by \<open>Py_Float\<close>.
  Parameters, the record \<open>search_env\<close>: the Unicode tables behind \<open>unicodedata.normalize("NFKC", _)\<close>, the
  SHA-256 of a text in UTF-8, and the order \<open>list.sort\<close> leaves a list in that holds a NaN, which no
  comparison decides.  The provider, which the module only declares as a protocol, is a record of two
  stateful operations.
\<close>

subsection \<open>Constants and errors\<close>

definition NORMALIZATION_REVISION :: string where
  "NORMALIZATION_REVISION = ''weltgewebe-search-normalization-v1''"

definition RANKING_REVISION :: string where
  "RANKING_REVISION = ''weltgewebe-hybrid-ranking-v2''"

definition MAX_DIMENSIONS :: int where "MAX_DIMENSIONS = 8192"

definition MAX_CANDIDATES :: nat where "MAX_CANDIDATES = 1000"

definition MAX_TEXT_CHARACTERS :: int where "MAX_TEXT_CHARACTERS = 65536"

definition SEMANTIC_MINIMUM_COSINE :: fnum where "SEMANTIC_MINIMUM_COSINE = round_double (55 / 100)"

definition SEMANTIC_MINIMUM_MARGIN :: fnum where "SEMANTIC_MINIMUM_MARGIN = round_double (15 / 1000)"

definition SEMANTIC_APPEND_LIMIT :: nat where "SEMANTIC_APPEND_LIMIT = 1"

definition RANK_EXACT_TITLE :: int where "RANK_EXACT_TITLE = 0"
definition RANK_EXACT_TAG :: int where "RANK_EXACT_TAG = 1"
definition RANK_TITLE_PREFIX :: int where "RANK_TITLE_PREFIX = 2"
definition RANK_TYPO :: int where "RANK_TYPO = 3"
definition RANK_FULL_TEXT :: int where "RANK_FULL_TEXT = 4"

definition STOP_WORDS :: "string list" where
  "STOP_WORDS =
     [''aber'', ''als'', ''am'', ''an'', ''auch'', ''auf'', ''aus'', ''bei'', ''bin'', ''bis'', ''das'', ''dass'',
      ''dem'', ''den'', ''der'', ''des'', ''die'', ''ein'', ''eine'', ''einem'', ''einen'', ''einer'', ''es'',
      ''etwas'', ''f'' @ [CHR 0xFC] @ ''r'', ''gegen'', ''gemeinsam'', ''hat'', ''ich'', ''im'', ''in'', ''ist'',
      ''kann'', ''man'', ''mein'', ''meine'', ''mit'', ''m'' @ [CHR 0xF6] @ ''chte'', ''nach'', ''nicht'', ''nur'',
      ''oder'', ''ohne'', ''sich'', ''sie'', ''soll'', ''um'', ''und'', ''von'', ''vor'', ''was'', ''wenn'', ''wer'',
      ''wie'', ''will'', ''wir'', ''wo'', ''zu'', ''zum'', ''zur'']"

datatype search_error =
    SearchCoreErr string
  | ProviderBoundaryErr string
  | ProviderUnavailableErr string
  | VectorValidationErr string
  | GenerationMismatchErr string
  | PrivacyBoundaryErr string
  | PyErr string

record search_env =
  env_nfkc :: "string \<Rightarrow> string"
  env_sha256 :: "string \<Rightarrow> string"
  env_nan_order :: "(fnum \<times> string) list \<Rightarrow> (fnum \<times> string) list"

subsection \<open>Patterns\<close>

text \<open>
  The constructs the patterns use: a character class, concatenation, choice, bounded repetition, a word
  boundary, and one-character negative lookarounds.  \<open>rx_ends r s i\<close> lists the positions where a match
  that starts at \<open>i\<close> may end; a search succeeds if some position starts a match.
\<close>

datatype rx =
    Cls "char \<Rightarrow> bool"
  | Cat rx rx
  | Alt rx rx
  | Rep nat nat rx
  | Plus rx
  | Bnd
  | NotBehind "char \<Rightarrow> bool"
  | NotAhead "char \<Rightarrow> bool"

fun rx_iter :: "(nat \<Rightarrow> nat list) \<Rightarrow> nat \<Rightarrow> nat list \<Rightarrow> nat list" where
  "rx_iter f 0 is = is"
| "rx_iter f (Suc k) is = rx_iter f k (remdups (concat (map f is)))"

definition at_char :: "(char \<Rightarrow> bool) \<Rightarrow> string \<Rightarrow> nat \<Rightarrow> bool" where
  "at_char p s i = (i < length s \<and> p (s ! i))"

definition before_char :: "(char \<Rightarrow> bool) \<Rightarrow> string \<Rightarrow> nat \<Rightarrow> bool" where
  "before_char p s i = (0 < i \<and> at_char p s (i - 1))"

primrec rx_ends :: "rx \<Rightarrow> string \<Rightarrow> nat \<Rightarrow> nat list" where
  "rx_ends (Cls p) s i = (if at_char p s i then [i + 1] else [])"
| "rx_ends (Cat a b) s i = remdups (concat (map (rx_ends b s) (rx_ends a s i)))"
| "rx_ends (Alt a b) s i = rx_ends a s i @ rx_ends b s i"
| "rx_ends (Rep lo hi a) s i = concat (map (\<lambda>k. rx_iter (rx_ends a s) k [i]) [lo..<hi + 1])"
| "rx_ends (Plus a) s i = concat (map (\<lambda>k. rx_iter (rx_ends a s) k [i]) [1..<length s + 1])"
| "rx_ends Bnd s i = (if before_char is_word s i \<noteq> at_char is_word s i then [i] else [])"
| "rx_ends (NotBehind p) s i = (if before_char p s i then [] else [i])"
| "rx_ends (NotAhead p) s i = (if at_char p s i then [] else [i])"

definition rx_search :: "rx \<Rightarrow> string \<Rightarrow> bool" where
  "rx_search r s = list_ex (\<lambda>i. rx_ends r s i \<noteq> []) [0..<length s + 1]"

definition one_of :: "string \<Rightarrow> char \<Rightarrow> bool" where
  "one_of cs c = (c \<in> set cs)"

definition is_alnum_ascii :: "char \<Rightarrow> bool" where
  "is_alnum_ascii c = (let n = of_char c :: nat in
     (48 \<le> n \<and> n \<le> 57) \<or> (65 \<le> n \<and> n \<le> 90) \<or> (97 \<le> n \<and> n \<le> 122))"

fun rx_lit :: "string \<Rightarrow> rx" where
  "rx_lit [] = Rep 0 0 Bnd"
| "rx_lit [c] = Cls (\<lambda>x. x = c)"
| "rx_lit (c # cs) = Cat (Cls (\<lambda>x. x = c)) (rx_lit cs)"

definition EMAIL_LIKE :: rx where
  "EMAIL_LIKE =
     (let host = Plus (Cls (\<lambda>c. is_alnum_ascii c \<or> c = CHR ''-'')) in
      Cat Bnd
       (Cat (Plus (Cls (\<lambda>c. is_alnum_ascii c \<or> one_of (''.!#$%&'' @ [CHR 0x27] @ ''*+/=?^_'' @ [CHR 0x60] @ ''{|}~-'') c)))
       (Cat (rx_lit ''@'')
       (Cat host
       (Cat (Plus (Cat (rx_lit ''.'') host))
        Bnd)))))"

definition PHONE_LIKE :: rx where
  "PHONE_LIKE =
     Cat (NotBehind (\<lambda>c. is_word c \<or> c = CHR ''-''))
     (Cat (Alt (rx_lit ''+49'')
          (Alt (rx_lit ''0049'')
            (Cat (rx_lit ''0'') (Cat (Cls (\<lambda>c. is_digit c \<and> c \<noteq> CHR ''0'')) (Rep 1 4 (Cls is_digit))))))
     (Cat (Rep 6 14 (Cat (Rep 0 1 (Cls (one_of '' /-''))) (Cls is_digit)))
      (NotAhead (\<lambda>c. is_word c \<or> c = CHR ''-''))))"

definition OCTET :: rx where
  "OCTET =
     Alt (Cat (rx_lit ''25'') (Cls (one_of ''012345'')))
    (Alt (Cat (rx_lit ''2'') (Cat (Cls (one_of ''01234'')) (Cls is_digit)))
     (Cat (Rep 0 1 (rx_lit ''1'')) (Cat (Rep 0 1 (Cls is_digit)) (Cls is_digit))))"

definition IPV4_LIKE :: rx where
  "IPV4_LIKE =
     Cat (NotBehind (\<lambda>c. is_digit c \<or> c = CHR ''.''))
     (Cat OCTET
     (Cat (Rep 3 3 (Cat (rx_lit ''.'') OCTET))
      (NotAhead (\<lambda>c. is_digit c \<or> c = CHR ''.''))))"

subsection \<open>Text\<close>

text \<open>\<open>re.sub(r"[^\w]+", " ", value)\<close>: each maximal run of other characters becomes one space.\<close>

fun sub_non_word :: "bool \<Rightarrow> string \<Rightarrow> string" where
  "sub_non_word in_run [] = []"
| "sub_non_word in_run (c # cs) =
     (if is_word c then c # sub_non_word False cs
      else if in_run then sub_non_word True cs
      else CHR '' '' # sub_non_word True cs)"

definition normalize_text :: "search_env \<Rightarrow> string \<Rightarrow> string" where
  "normalize_text env t = join '' '' (split_ws (sub_non_word False (casefold (env_nfkc env t))))"

definition require_text :: "json \<Rightarrow> string \<Rightarrow> bool \<Rightarrow> search_error + string" where
  "require_text v label allow_empty =
     (case v of
        JStr s \<Rightarrow>
          bindE (guardE (allow_empty \<or> strip s \<noteq> []) (SearchCoreErr (label @ '' must not be empty''))) (\<lambda>_.
          bindE (guardE (int (length s) \<le> MAX_TEXT_CHARACTERS)
                   (SearchCoreErr (label @ '' exceeds '' @ str_int MAX_TEXT_CHARACTERS @ '' characters''))) (\<lambda>_.
          Inr s))
      | _ \<Rightarrow> Inl (SearchCoreErr (label @ '' must be a string'')))"

definition reject_personal_data :: "string list \<Rightarrow> string \<Rightarrow> search_error + unit" where
  "reject_personal_data texts label =
     iterE (\<lambda>t.
       bindE (guardE (\<not> rx_search EMAIL_LIKE t) (PrivacyBoundaryErr (label @ '' contains an email-like value''))) (\<lambda>_.
       bindE (guardE (\<not> rx_search PHONE_LIKE t) (PrivacyBoundaryErr (label @ '' contains a phone-like value''))) (\<lambda>_.
       guardE (\<not> rx_search IPV4_LIKE t) (PrivacyBoundaryErr (label @ '' contains an IPv4-like value''))))) texts"

subsection \<open>Identities\<close>

record model_identity =
  mi_provider :: string
  mi_model_id :: string
  mi_model_revision :: string
  mi_runtime_id :: string
  mi_dimensions :: int

text \<open>The constructor: \<open>__post_init__\<close> raises or the object exists.\<close>

definition ModelIdentity_init :: "json \<Rightarrow> json \<Rightarrow> json \<Rightarrow> json \<Rightarrow> json \<Rightarrow> search_error + model_identity" where
  "ModelIdentity_init provider model_id model_revision runtime_id dimensions =
     bindE (require_text provider ''provider'' False) (\<lambda>p.
     bindE (require_text model_id ''model_id'' False) (\<lambda>m.
     bindE (require_text model_revision ''model_revision'' False) (\<lambda>v.
     bindE (require_text runtime_id ''runtime_id'' False) (\<lambda>r.
     bindE (guardE (starts_with ''local:'' p)
              (ProviderBoundaryErr ''embedding provider must use the local: namespace'')) (\<lambda>_.
     case dimensions of
       JInt n \<Rightarrow>
         bindE (guardE (1 \<le> n \<and> n \<le> MAX_DIMENSIONS)
                  (VectorValidationErr (''embedding dimensions must be between 1 and '' @ str_int MAX_DIMENSIONS))) (\<lambda>_.
         Inr \<lparr>mi_provider = p, mi_model_id = m, mi_model_revision = v, mi_runtime_id = r, mi_dimensions = n\<rparr>)
     | _ \<Rightarrow> Inl (VectorValidationErr ''embedding dimensions must be an integer''))))))"

definition model_as_dict :: "model_identity \<Rightarrow> json" where
  "model_as_dict m = JDict
     [(''provider'', JStr (mi_provider m)), (''model_id'', JStr (mi_model_id m)),
      (''model_revision'', JStr (mi_model_revision m)), (''runtime_id'', JStr (mi_runtime_id m)),
      (''dimensions'', JInt (mi_dimensions m))]"

record generation_identity =
  gi_generation_id :: string
  gi_model :: model_identity
  gi_document_revision :: string
  gi_normalization_revision :: string
  gi_ranking_revision :: string

definition derive_id :: "search_env \<Rightarrow> model_identity \<Rightarrow> json \<Rightarrow> search_error + string" where
  "derive_id env model document_revision =
     bindE (require_text document_revision ''document_revision'' False) (\<lambda>rev.
     Inr (''search-gen-'' @ env_sha256 env (canonical_json (JDict
       [(''model'', model_as_dict model), (''document_revision'', JStr rev),
        (''normalization_revision'', JStr NORMALIZATION_REVISION),
        (''ranking_revision'', JStr RANKING_REVISION)]))))"

definition GenerationIdentity_init ::
  "search_env \<Rightarrow> string \<Rightarrow> model_identity \<Rightarrow> json \<Rightarrow> string \<Rightarrow> string \<Rightarrow> search_error + generation_identity" where
  "GenerationIdentity_init env gid model document_revision normalization ranking =
     bindE (require_text document_revision ''document_revision'' False) (\<lambda>rev.
     bindE (guardE (normalization = NORMALIZATION_REVISION)
              (GenerationMismatchErr ''normalization revision is not supported by this core'')) (\<lambda>_.
     bindE (guardE (ranking = RANKING_REVISION)
              (GenerationMismatchErr ''ranking revision is not supported by this core'')) (\<lambda>_.
     bindE (derive_id env model (JStr rev)) (\<lambda>expected.
     bindE (guardE (gid = expected)
              (GenerationMismatchErr ''generation id does not match its immutable identity'')) (\<lambda>_.
     Inr \<lparr>gi_generation_id = gid, gi_model = model, gi_document_revision = rev,
          gi_normalization_revision = normalization, gi_ranking_revision = ranking\<rparr>)))))"

definition GenerationIdentity_build :: "search_env \<Rightarrow> model_identity \<Rightarrow> json \<Rightarrow> search_error + generation_identity" where
  "GenerationIdentity_build env model document_revision =
     bindE (derive_id env model document_revision) (\<lambda>gid.
     GenerationIdentity_init env gid model document_revision NORMALIZATION_REVISION RANKING_REVISION)"

definition generation_as_dict :: "generation_identity \<Rightarrow> json" where
  "generation_as_dict g = JDict
     [(''generation_id'', JStr (gi_generation_id g)), (''model'', model_as_dict (gi_model g)),
      (''document_revision'', JStr (gi_document_revision g)),
      (''normalization_revision'', JStr (gi_normalization_revision g)),
      (''ranking_revision'', JStr (gi_ranking_revision g))]"

subsection \<open>Documents and queries\<close>

record search_document =
  sd_node_id :: string
  sd_title :: string
  sd_summary :: string
  sd_body :: string
  sd_tags :: "string list"
  sd_kind :: string
  sd_language :: string

datatype tags_arg = TagTuple "json list" | OtherTags

text \<open>
  The constructor.  A document that exists has \<open>privacy_class\<close> "synthetic" and
  \<open>contains_personal_data\<close> False, so the record does not repeat them.
\<close>

definition SearchDocument_init ::
  "json \<Rightarrow> json \<Rightarrow> json \<Rightarrow> json \<Rightarrow> tags_arg \<Rightarrow> json \<Rightarrow> json \<Rightarrow> json \<Rightarrow> json \<Rightarrow> search_error + search_document" where
  "SearchDocument_init node_id title summary body tags kind language privacy_class contains_personal_data =
     bindE (require_text node_id ''node_id'' False) (\<lambda>n.
     bindE (require_text title ''title'' False) (\<lambda>t.
     bindE (require_text summary ''summary'' True) (\<lambda>s.
     bindE (require_text body ''body'' True) (\<lambda>b.
     bindE (require_text kind ''kind'' False) (\<lambda>k.
     bindE (require_text language ''language'' False) (\<lambda>l.
     bindE (guardE (privacy_class = JStr ''synthetic'' \<and> contains_personal_data = JBool False)
              (PrivacyBoundaryErr ''search document must be explicitly synthetic and PII-free'')) (\<lambda>_.
     case tags of
       OtherTags \<Rightarrow> Inl (SearchCoreErr ''search document tags must be an immutable tuple'')
     | TagTuple ts \<Rightarrow>
         bindE (guardE (0 < length ts \<and> length ts \<le> 32)
                  (SearchCoreErr ''search document must contain between 1 and 32 tags'')) (\<lambda>_.
         bindE (mapE (\<lambda>tag. require_text tag ''tag'' False) ts) (\<lambda>tag_texts.
         bindE (reject_personal_data ([n, t, s, b] @ tag_texts @ [k, l]) ''search document'') (\<lambda>_.
         Inr \<lparr>sd_node_id = n, sd_title = t, sd_summary = s, sd_body = b, sd_tags = tag_texts,
              sd_kind = k, sd_language = l\<rparr>))))))))))"

definition DOCUMENT_FIELDS :: "string list" where
  "DOCUMENT_FIELDS =
     [''node_id'', ''title'', ''summary'', ''body'', ''tags'', ''kind'', ''language'', ''privacy_class'',
      ''contains_personal_data'']"

definition from_mapping :: "dict \<Rightarrow> search_error + search_document" where
  "from_mapping v =
     bindE (guardE (set (dict_keys v) = set DOCUMENT_FIELDS)
              (PrivacyBoundaryErr ''search document must contain exactly the authorized search fields'')) (\<lambda>_.
     case jget v ''tags'' of
       JList tags \<Rightarrow>
         bindE (guardE (tags \<noteq> [] \<and> length tags \<le> 32 \<and> list_all is_str tags)
                  (SearchCoreErr ''search document tags are invalid'')) (\<lambda>_.
         SearchDocument_init (jget v ''node_id'') (jget v ''title'') (jget v ''summary'') (jget v ''body'')
           (TagTuple tags) (jget v ''kind'') (jget v ''language'') (jget v ''privacy_class'')
           (jget v ''contains_personal_data''))
     | _ \<Rightarrow> Inl (SearchCoreErr ''search document tags are invalid''))"

definition document_embedding_text :: "search_document \<Rightarrow> string" where
  "document_embedding_text d = join [CHR 0x0A]
     [''Titel: '' @ sd_title d, ''Kurzbeschreibung: '' @ sd_summary d, ''Information: '' @ sd_body d,
      ''Tags: '' @ join '', '' (sd_tags d), ''Art: '' @ sd_kind d, ''Sprache: '' @ sd_language d]"

definition content_sha256 :: "search_env \<Rightarrow> search_document \<Rightarrow> string" where
  "content_sha256 env d =
     (let norm = (\<lambda>t. JStr (normalize_text env t)) in
      env_sha256 env (canonical_json (JDict
        [(''normalization_revision'', JStr NORMALIZATION_REVISION), (''node_id'', JStr (sd_node_id d)),
         (''title'', norm (sd_title d)), (''summary'', norm (sd_summary d)), (''body'', norm (sd_body d)),
         (''tags'', JList (map norm (sd_tags d))), (''kind'', norm (sd_kind d)),
         (''language'', norm (sd_language d))])))"

record search_query = sq_text :: string

definition SearchQuery_init :: "json \<Rightarrow> json \<Rightarrow> json \<Rightarrow> search_error + search_query" where
  "SearchQuery_init txt privacy_class contains_personal_data =
     bindE (require_text txt ''query'' False) (\<lambda>t.
     bindE (guardE (privacy_class = JStr ''synthetic'' \<and> contains_personal_data = JBool False)
              (PrivacyBoundaryErr ''search query must be explicitly synthetic and PII-free'')) (\<lambda>_.
     bindE (reject_personal_data [t] ''search query'') (\<lambda>_.
     Inr \<lparr>sq_text = t\<rparr>)))"

definition query_embedding_text :: "search_query \<Rightarrow> string" where
  "query_embedding_text q =
     ''Aufgabe: Finde den relevantesten sichtbaren Weltgewebe-Knoten.'' @ [CHR 0x0A] @ ''Anfrage: '' @ sq_text q"

subsection \<open>Vectors\<close>

text \<open>An element of a vector, and what is passed as one: a sequence, or something else (text included).\<close>

datatype velem = PInt int | PBool bool | PFloat fnum | PNotNumber

datatype vec_arg = VecSeq "velem list" | VecOther

text \<open>\<open>float(value)\<close> of a number; an integer beyond the doubles raises OverflowError.\<close>

definition to_float :: "velem \<Rightarrow> string \<Rightarrow> (string \<Rightarrow> search_error) \<Rightarrow> search_error + fnum" where
  "to_float v msg err =
     (case v of
        PFloat f \<Rightarrow> Inr f
      | PInt i \<Rightarrow> (case round_double (of_int i) of
                    Fin x \<Rightarrow> Inr (Fin x)
                  | _ \<Rightarrow> Inl (PyErr ''int too large to convert to float''))
      | _ \<Rightarrow> Inl (err msg))"

definition squared_norm :: "fnum list \<Rightarrow> fnum" where
  "squared_norm xs = py_sum (map (\<lambda>x. fl_mul x x) xs)"

definition validate_vector :: "vec_arg \<Rightarrow> json \<Rightarrow> search_error + fnum list" where
  "validate_vector vs expected_dimensions =
     (case expected_dimensions of
        JInt n \<Rightarrow>
          bindE (guardE (1 \<le> n \<and> n \<le> MAX_DIMENSIONS)
                   (VectorValidationErr ''expected dimensions are outside the supported range'')) (\<lambda>_.
          case vs of
            VecOther \<Rightarrow> Inl (VectorValidationErr ''embedding vector must be a numeric sequence'')
          | VecSeq es \<Rightarrow>
              bindE (guardE (int (length es) = n) (VectorValidationErr ''embedding vector dimension mismatch'')) (\<lambda>_.
              bindE (mapE (\<lambda>v.
                       bindE (to_float v ''embedding vector contains a non-number'' VectorValidationErr) (\<lambda>number.
                       bindE (guardE (is_finite number)
                                (VectorValidationErr ''embedding vector contains a non-finite value'')) (\<lambda>_.
                       Inr number))) es) (\<lambda>converted.
              bindE (guardE (fl_sqrt (squared_norm converted) \<noteq> Fin 0)
                       (VectorValidationErr ''embedding vector has zero norm'')) (\<lambda>_.
              Inr converted))))
      | _ \<Rightarrow> Inl (VectorValidationErr ''expected dimensions must be an integer''))"

record bound_vector =
  bv_generation_id :: string
  bv_values :: vec_arg

definition BoundVector_build :: "generation_identity \<Rightarrow> vec_arg \<Rightarrow> search_error + bound_vector" where
  "BoundVector_build g vs =
     bindE (validate_vector vs (JInt (mi_dimensions (gi_model g)))) (\<lambda>xs.
     Inr \<lparr>bv_generation_id = gi_generation_id g, bv_values = VecSeq (map PFloat xs)\<rparr>)"

definition cosine_similarity :: "fnum list \<Rightarrow> fnum list \<Rightarrow> search_error + fnum" where
  "cosine_similarity left right =
     bindE (guardE (length left = length right \<and> left \<noteq> [])
              (VectorValidationErr ''cosine inputs have different or empty dimensions'')) (\<lambda>_.
     let numerator = py_sum (map (\<lambda>(a, b). fl_mul a b) (zip left right));
         left_norm = fl_sqrt (squared_norm left);
         right_norm = fl_sqrt (squared_norm right)
     in bindE (guardE (left_norm \<noteq> Fin 0 \<and> right_norm \<noteq> Fin 0)
                 (VectorValidationErr ''cosine input has zero norm'')) (\<lambda>_.
        bindE (guardE (fl_mul left_norm right_norm \<noteq> Fin 0) (PyErr ''float division by zero'')) (\<lambda>_.
        Inr (fl_div numerator (fl_mul left_norm right_norm)))))"

subsection \<open>Lexical signals\<close>

record lexical_signal_rec =
  ls_rank_class :: int
  ls_label :: string
  ls_score :: fnum

definition tokens :: "search_env \<Rightarrow> string \<Rightarrow> string set" where
  "tokens env t = set (filter (\<lambda>token. 2 \<le> length token \<and> token \<notin> set STOP_WORDS) (split_ws (normalize_text env t)))"

definition trigrams :: "search_env \<Rightarrow> string \<Rightarrow> string set" where
  "trigrams env t =
     (let normalized = ''  '' @ normalize_text env t @ '' '' in
      set (map (\<lambda>i. take 3 (drop i normalized)) [0..<length normalized - 2]))"

definition trigram_similarity :: "search_env \<Rightarrow> string \<Rightarrow> string \<Rightarrow> fnum" where
  "trigram_similarity env left right =
     (let l = trigrams env left; r = trigrams env right in
      if l = {} \<or> r = {} then Fin 0 else int_div (card (l \<inter> r)) (card (l \<union> r)))"

text \<open>
  The counts are far below \<open>2 ^ 53\<close>, a text has at most 65536 characters, so their conversion to a float
  is exact.
\<close>

definition field_step :: "string set \<Rightarrow> string set \<times> fnum \<Rightarrow> string set \<times> fnum \<Rightarrow> string set \<times> fnum" where
  "field_step query_tokens field acc =
     (let common = query_tokens \<inter> fst field in
      (fst acc \<union> common, fl_add (snd acc) (fl_mul (snd field) (Fin (of_nat (card common))))))"

definition document_fields :: "search_env \<Rightarrow> search_document \<Rightarrow> (string set \<times> fnum) list" where
  "document_fields env d =
     [(tokens env (sd_title d), Fin 4), (tokens env (join '' '' (sd_tags d)), Fin 3),
      (tokens env (sd_summary d), Fin 2), (tokens env (sd_kind d), Fin 2), (tokens env (sd_body d), Fin 1)]"

definition full_text_score :: "search_env \<Rightarrow> string \<Rightarrow> search_document \<Rightarrow> nat \<times> fnum" where
  "full_text_score env query d =
     (let query_tokens = tokens env query in
      if query_tokens = {} then (0, Fin 0)
      else
        let (matched, weighted) = fold (field_step query_tokens) (document_fields env d) ({}, Fin 0);
            required = (if card query_tokens \<le> 3 then 1 else 2)
        in if card matched < required then (card matched, Fin 0)
           else (card matched, fl_div weighted (fl_mul (Fin 4) (Fin (of_nat (card query_tokens))))))"

definition typo_score :: "search_env \<Rightarrow> string \<Rightarrow> search_document \<Rightarrow> fnum" where
  "typo_score env query d =
     fold (\<lambda>x m. fl_max m x)
       (trigram_similarity env query (sd_summary d) # map (trigram_similarity env query) (sd_tags d))
       (trigram_similarity env query (sd_title d))"

definition lexical_signal :: "search_env \<Rightarrow> search_query \<Rightarrow> search_document \<Rightarrow> lexical_signal_rec option" where
  "lexical_signal env q d =
     (let nq = normalize_text env (sq_text q);
          nt = normalize_text env (sd_title d)
      in
      if nt = nq then Some \<lparr>ls_rank_class = RANK_EXACT_TITLE, ls_label = ''exact_title'', ls_score = Fin 1\<rparr>
      else if nq \<in> set (map (normalize_text env) (sd_tags d))
        then Some \<lparr>ls_rank_class = RANK_EXACT_TAG, ls_label = ''exact_tag'', ls_score = Fin 1\<rparr>
      else if starts_with nq nt
        then Some \<lparr>ls_rank_class = RANK_TITLE_PREFIX, ls_label = ''title_prefix'',
                   ls_score = int_div (length nq) (length nt)\<rparr>
      else
        let typo = typo_score env (sq_text q) d in
        if fl_le (round_double (30 / 100)) typo
        then Some \<lparr>ls_rank_class = RANK_TYPO, ls_label = ''typo'', ls_score = typo\<rparr>
        else
          let (matched, score) = full_text_score env (sq_text q) d in
          if matched \<noteq> 0 \<and> fl_lt (Fin 0) score
          then Some \<lparr>ls_rank_class = RANK_FULL_TEXT, ls_label = ''full_text'', ls_score = score\<rparr>
          else None)"

subsection \<open>Ranking\<close>

record ranking_result =
  rr_ranked_node_ids :: "string list"
  rr_mode :: string
  rr_generation :: "generation_identity option"
  rr_fallback_reason :: "string option"

definition validate_candidates :: "search_document list \<Rightarrow> search_error + unit" where
  "validate_candidates candidates =
     bindE (guardE (length candidates \<le> MAX_CANDIDATES)
              (SearchCoreErr (''candidate set exceeds '' @ str_nat MAX_CANDIDATES))) (\<lambda>_.
     guardE (distinct (map sd_node_id candidates)) (SearchCoreErr ''candidate node ids must be unique''))"

text \<open>A precomputed ranking is a text (refused), or a sequence of objects.\<close>

datatype ranking_arg = RankText | RankSeq "json list"

fun hashable :: "json \<Rightarrow> bool" where
  "hashable (JList _) = False" | "hashable (JDict _) = False" | "hashable _ = True"

fun distinct_values :: "json list \<Rightarrow> bool" where
  "distinct_values [] = True"
| "distinct_values (x # xs) = (\<not> py_in x xs \<and> distinct_values xs)"

definition validate_precomputed_lexical ::
  "search_document list \<Rightarrow> ranking_arg \<Rightarrow> search_error + string list" where
  "validate_precomputed_lexical candidates ids =
     (case ids of
        RankText \<Rightarrow> Inl (SearchCoreErr ''precomputed lexical ranking must be a node-id sequence'')
      | RankSeq ranked \<Rightarrow>
          bindE (guardE (list_all hashable ranked) (PyErr ''unhashable type'')) (\<lambda>_.
          bindE (guardE (distinct_values ranked)
                   (SearchCoreErr ''precomputed lexical ranking contains duplicate node ids'')) (\<lambda>_.
          mapE (\<lambda>v. case v of
                    JStr s \<Rightarrow> if s \<in> set (map sd_node_id candidates) then Inr s
                              else Inl (SearchCoreErr ''precomputed lexical ranking exceeds the authorized candidate set'')
                  | _ \<Rightarrow> Inl (SearchCoreErr ''precomputed lexical ranking exceeds the authorized candidate set''))
            ranked)))"

text \<open>\<open>xs[:limit]\<close>.\<close>

definition slice_to :: "int \<Rightarrow> 'a list \<Rightarrow> 'a list" where
  "slice_to limit xs = take (nat (if 0 \<le> limit then limit else int (length xs) + limit)) xs"

definition scored_entry :: "search_env \<Rightarrow> search_query \<Rightarrow> search_document \<Rightarrow> (int \<times> fnum \<times> string) option" where
  "scored_entry env q d =
     map_option (\<lambda>sig. (ls_rank_class sig, fl_neg (ls_score sig), sd_node_id d)) (lexical_signal env q d)"

text \<open>The order of the tuples \<open>(rank class, -score, node id)\<close>.\<close>

definition entry_key :: "int \<times> fnum \<times> string \<Rightarrow> int \<times> (int \<times> rat) \<times> string" where
  "entry_key e = (case e of (c, f, n) \<Rightarrow> (c, fkey f, n))"

definition limit_guard :: "int \<Rightarrow> search_error + unit" where
  "limit_guard limit = guardE (1 \<le> limit \<and> limit \<le> 100) (SearchCoreErr ''ranking limit must be between 1 and 100'')"

definition rank_lexical :: "search_env \<Rightarrow> search_query \<Rightarrow> search_document list \<Rightarrow> int \<Rightarrow> search_error + ranking_result" where
  "rank_lexical env q candidates limit =
     bindE (validate_candidates candidates) (\<lambda>_.
     bindE (limit_guard limit) (\<lambda>_.
     let scored = sort_key entry_key (List.map_filter (scored_entry env q) candidates) in
     Inr \<lparr>rr_ranked_node_ids = map (\<lambda>(_, _, n). n) (slice_to limit scored), rr_mode = ''lexical'',
          rr_generation = None, rr_fallback_reason = None\<rparr>))"

definition check_threshold :: "string \<Rightarrow> velem \<Rightarrow> fnum \<Rightarrow> fnum \<Rightarrow> search_error + fnum" where
  "check_threshold label v lo hi =
     bindE (to_float v (label @ '' must be numeric'') SearchCoreErr) (\<lambda>f.
     bindE (guardE (is_finite f \<and> fl_le lo f \<and> fl_le f hi)
              (SearchCoreErr (label @ '' is outside the supported finite range''))) (\<lambda>_.
     Inr f))"

definition check_candidate_vector ::
  "generation_identity \<Rightarrow> string \<times> bound_vector \<Rightarrow> search_error + string \<times> fnum list" where
  "check_candidate_vector g entry =
     (case entry of (node_id, vector) \<Rightarrow>
      bindE (guardE (bv_generation_id vector = gi_generation_id g)
               (GenerationMismatchErr (''candidate vector '' @ repr_str node_id @ '' belongs to a different generation''))) (\<lambda>_.
      bindE (validate_vector (bv_values vector) (JInt (mi_dimensions (gi_model g)))) (\<lambda>xs.
      Inr (node_id, xs))))"

definition semantic_entry ::
  "fnum list \<Rightarrow> (string \<times> fnum list) list \<Rightarrow> search_document \<Rightarrow> search_error + fnum \<times> string" where
  "semantic_entry query_values checked d =
     (case dict_get checked (sd_node_id d) of
        None \<Rightarrow> Inl (PyErr ''KeyError'')
      | Some xs \<Rightarrow> bindE (cosine_similarity query_values xs) (\<lambda>score. Inr (score, sd_node_id d)))"

text \<open>\<open>semantic.sort(key=lambda item: (-item[0], item[1]))\<close>.\<close>

definition semantic_key :: "fnum \<times> string \<Rightarrow> (int \<times> rat) \<times> string" where
  "semantic_key e = (fkey (fl_neg (fst e)), snd e)"

definition sort_semantic :: "search_env \<Rightarrow> (fnum \<times> string) list \<Rightarrow> (fnum \<times> string) list" where
  "sort_semantic env xs = (if NaN \<in> set (map fst xs) then env_nan_order env xs else sort_key semantic_key xs)"

definition runner_up :: "(fnum \<times> string) list \<Rightarrow> fnum" where
  "runner_up xs = (case xs of _ # y # _ \<Rightarrow> fst y | _ \<Rightarrow> Fin (- 1))"

definition semantic_pick :: "fnum \<Rightarrow> fnum \<Rightarrow> (fnum \<times> string) list \<Rightarrow> string list" where
  "semantic_pick minimum_cosine minimum_margin semantic =
     (case semantic of
        [] \<Rightarrow> []
      | best # _ \<Rightarrow>
          if fl_le minimum_cosine (fst best) \<and> fl_le minimum_margin (fl_sub (fst best) (runner_up semantic))
          then map snd (take SEMANTIC_APPEND_LIMIT semantic) else [])"

definition rank_hybrid ::
  "search_env \<Rightarrow> search_query \<Rightarrow> search_document list \<Rightarrow> generation_identity \<Rightarrow> bound_vector \<Rightarrow>
   (string \<times> bound_vector) list \<Rightarrow> ranking_arg \<Rightarrow> int \<Rightarrow> velem \<Rightarrow> velem \<Rightarrow> search_error + ranking_result" where
  "rank_hybrid env q candidates g query_vector candidate_vectors lexical limit minimum_cosine minimum_margin =
     bindE (validate_candidates candidates) (\<lambda>_.
     bindE (limit_guard limit) (\<lambda>_.
     bindE (check_threshold ''semantic_minimum_cosine'' minimum_cosine (Fin (- 1)) (Fin 1)) (\<lambda>cosine_gate.
     bindE (check_threshold ''semantic_minimum_margin'' minimum_margin (Fin 0) (Fin 2)) (\<lambda>margin_gate.
     bindE (guardE (bv_generation_id query_vector = gi_generation_id g)
              (GenerationMismatchErr ''query vector belongs to a different generation'')) (\<lambda>_.
     bindE (validate_vector (bv_values query_vector) (JInt (mi_dimensions (gi_model g)))) (\<lambda>query_values.
     bindE (guardE (set (dict_keys candidate_vectors) = set (map sd_node_id candidates))
              (GenerationMismatchErr ''candidate vectors do not cover the exact authorized candidate set'')) (\<lambda>_.
     bindE (mapE (check_candidate_vector g) candidate_vectors) (\<lambda>checked.
     bindE (validate_precomputed_lexical candidates lexical) (\<lambda>lexical_ids.
     bindE (mapE (semantic_entry query_values checked)
              (filter (\<lambda>d. sd_node_id d \<notin> set lexical_ids) candidates)) (\<lambda>semantic.
     let semantic_ids = semantic_pick cosine_gate margin_gate (sort_semantic env semantic);
         ranked = lexical_ids @ filter (\<lambda>n. n \<notin> set lexical_ids) semantic_ids
     in Inr \<lparr>rr_ranked_node_ids = slice_to limit ranked, rr_mode = ''hybrid'', rr_generation = Some g,
             rr_fallback_reason = None\<rparr>))))))))))"

subsection \<open>The provider\<close>

record 's provider =
  pr_identity :: "'s \<Rightarrow> (search_error + model_identity) \<times> 's"
  pr_embed :: "string list \<Rightarrow> 's \<Rightarrow> (search_error + vec_arg list) \<times> 's"

definition bound_all :: "search_env \<Rightarrow> search_document list \<Rightarrow> model_identity \<Rightarrow> json \<Rightarrow> vec_arg list \<Rightarrow> vec_arg list \<Rightarrow>
    search_error + generation_identity \<times> (string \<times> bound_vector) list \<times> bound_vector list" where
  "bound_all env documents before document_revision document_vectors query_vectors =
     bindE (GenerationIdentity_build env before document_revision) (\<lambda>g.
     bindE (mapE (\<lambda>(d, v). bindE (BoundVector_build g v) (\<lambda>b. Inr (sd_node_id d, b)))
              (zip documents document_vectors)) (\<lambda>bound_documents.
     bindE (mapE (BoundVector_build g) query_vectors) (\<lambda>bound_queries.
     Inr (g, bound_documents, bound_queries))))"

definition embed_bound ::
  "search_env \<Rightarrow> 's provider \<Rightarrow> search_document list \<Rightarrow> search_query list \<Rightarrow> json \<Rightarrow> 's \<Rightarrow>
   (search_error + generation_identity \<times> (string \<times> bound_vector) list \<times> bound_vector list) \<times> 's" where
  "embed_bound env pr documents queries document_revision =
     bindSE (\<lambda>s. (validate_candidates documents, s)) (\<lambda>_.
     bindSE (pr_identity pr) (\<lambda>before.
     bindSE (pr_embed pr (map document_embedding_text documents)) (\<lambda>document_vectors.
     bindSE (pr_embed pr (map query_embedding_text queries)) (\<lambda>query_vectors.
     bindSE (pr_identity pr) (\<lambda>after s.
     (bindE (guardE (before = after)
               (ProviderBoundaryErr ''embedding provider identity changed during one measurement'')) (\<lambda>_.
      bindE (guardE (length document_vectors = length documents \<and> length query_vectors = length queries)
               (VectorValidationErr ''embedding provider returned an unexpected vector count'')) (\<lambda>_.
      bound_all env documents before document_revision document_vectors query_vectors)), s))))))"

definition rank_with_provider ::
  "search_env \<Rightarrow> 's provider \<Rightarrow> search_query \<Rightarrow> search_document list \<Rightarrow> json \<Rightarrow> ranking_arg \<Rightarrow> int \<Rightarrow> 's \<Rightarrow>
   (search_error + ranking_result) \<times> 's" where
  "rank_with_provider env pr q candidates document_revision lexical limit s =
     (case embed_bound env pr candidates [q] document_revision s of
        (Inl (ProviderUnavailableErr msg), s') \<Rightarrow>
          (bindE (validate_precomputed_lexical candidates lexical) (\<lambda>lexical_ids.
           Inr \<lparr>rr_ranked_node_ids = slice_to limit lexical_ids, rr_mode = ''lexical_fallback'',
                rr_generation = None, rr_fallback_reason = Some msg\<rparr>), s')
      | (Inl e, s') \<Rightarrow> (Inl e, s')
      | (Inr (g, document_vectors, query_vectors), s') \<Rightarrow>
          (rank_hybrid env q candidates g (hd query_vectors) document_vectors lexical limit
             (PFloat SEMANTIC_MINIMUM_COSINE) (PFloat SEMANTIC_MINIMUM_MARGIN), s'))"

subsection \<open>Normalised text\<close>

lemma is_word_not_ws: "is_word c \<Longrightarrow> \<not> is_ws c"
  by (auto simp: is_word_def is_ws_def Let_def)

lemma is_ws_space [simp]: "is_ws (CHR '' '')"
  by (simp add: is_ws_def)

lemma split_sub_non_word:
  "split_ws_acc w (sub_non_word False s) = word_runs_acc w s \<and>
   split_ws_acc [] (sub_non_word True s) = word_runs_acc [] s"
  by (induction s arbitrary: w) (auto simp: is_word_not_ws)

text \<open>Normalisation keeps the runs of word characters, separated by single spaces.\<close>

lemma normalize_text_word_runs:
  "normalize_text env t = join '' '' (word_runs (casefold (env_nfkc env t)))"
  by (simp add: normalize_text_def split_ws_def word_runs_def split_sub_non_word)

lemma word_runs_acc_empty: "word_runs_acc w s = [] \<longleftrightarrow> w = [] \<and> (\<forall>c \<in> set s. \<not> is_word c)"
  by (induction s arbitrary: w) auto

lemma word_runs_acc_nonempty: "x \<in> set (word_runs_acc w s) \<Longrightarrow> x \<noteq> []"
  by (induction s arbitrary: w) (auto split: if_splits)

lemma join_empty: "join sep xs = [] \<Longrightarrow> (\<forall>x \<in> set xs. x \<noteq> []) \<Longrightarrow> xs = []"
  by (cases xs rule: remdups_adj.cases) auto

lemma normalize_text_empty:
  "normalize_text env t = [] \<longleftrightarrow> (\<forall>c \<in> set (casefold (env_nfkc env t)). \<not> is_word c)"
proof -
  have "join '' '' (word_runs s) = [] \<longleftrightarrow> word_runs s = []" for s
    using join_empty [of "'' ''" "word_runs s"] word_runs_acc_nonempty
    by (auto simp: word_runs_def)
  then show ?thesis by (simp add: normalize_text_word_runs word_runs_def word_runs_acc_empty)
qed

text \<open>
  A query without a word character normalises to the empty text, which is a prefix of every title: such a
  query matches every document as an exact title, exact tag or title prefix.
\<close>

lemma lexical_signal_no_words:
  assumes "\<forall>c \<in> set (casefold (env_nfkc env (sq_text q))). \<not> is_word c"
  shows "\<exists>sig. lexical_signal env q d = Some sig \<and> ls_rank_class sig \<le> RANK_TITLE_PREFIX"
proof -
  have "normalize_text env (sq_text q) = []" using assms by (simp add: normalize_text_empty)
  then show ?thesis
    by (simp add: lexical_signal_def Let_def RANK_EXACT_TITLE_def RANK_EXACT_TAG_def RANK_TITLE_PREFIX_def)
qed

subsection \<open>Lexical ranking\<close>

lemma insort_key_map: "insort_key f (g x) (map g xs) = map g (insort_key (\<lambda>y. f (g y)) x xs)"
  by (induction xs) auto

lemma sort_key_map: "sort_key f (map g xs) = map g (sort_key (\<lambda>y. f (g y)) xs)"
  by (induction xs) (simp_all add: insort_key_map)

text \<open>The sort key of a document that has a signal.\<close>

definition document_key :: "search_env \<Rightarrow> search_query \<Rightarrow> search_document \<Rightarrow> int \<times> (int \<times> rat) \<times> string" where
  "document_key env q d =
     (case lexical_signal env q d of
        Some sig \<Rightarrow> (ls_rank_class sig, fkey (fl_neg (ls_score sig)), sd_node_id d)
      | None \<Rightarrow> (0, (0, 0), sd_node_id d))"

abbreviation signalled :: "search_env \<Rightarrow> search_query \<Rightarrow> search_document list \<Rightarrow> search_document list" where
  "signalled env q ds \<equiv> filter (\<lambda>d. lexical_signal env q d \<noteq> None) ds"

lemma document_key_node: "document_key env q d = document_key env q d' \<Longrightarrow> sd_node_id d = sd_node_id d'"
  by (auto simp: document_key_def split: option.splits)

lemma scored_entries:
  "List.map_filter (scored_entry env q) ds = map (\<lambda>d. the (scored_entry env q d)) (signalled env q ds)"
  by (simp add: map_filter_def scored_entry_def comp_def)

lemma entry_key_document:
  "lexical_signal env q d \<noteq> None \<Longrightarrow> entry_key (the (scored_entry env q d)) = document_key env q d"
  by (auto simp: entry_key_def scored_entry_def document_key_def)

lemma sort_key_cong: "(\<And>x. x \<in> set xs \<Longrightarrow> f x = g x) \<Longrightarrow> sort_key f xs = sort_key g xs"
proof (induction xs)
  case (Cons x xs)
  have "insort_key f x ys = insort_key g x ys" if "\<forall>y \<in> set ys. f y = g y" "f x = g x" for ys
    using that by (induction ys) auto
  with Cons show ?case by simp
qed simp

lemma ranked_ids_eq:
  "map (\<lambda>(_, _, n). n) (slice_to limit (sort_key entry_key (List.map_filter (scored_entry env q) ds))) =
     map sd_node_id (slice_to limit (sort_key (document_key env q) (signalled env q ds)))"
proof -
  have "sort_key entry_key (List.map_filter (scored_entry env q) ds) =
      map (\<lambda>d. the (scored_entry env q d)) (sort_key (document_key env q) (signalled env q ds))"
    unfolding scored_entries sort_key_map
    by (rule arg_cong [where f = "map _"], rule sort_key_cong) (simp add: entry_key_document)
  then show ?thesis
    by (auto simp: slice_to_def take_map scored_entry_def dest!: in_set_takeD)
qed

lemma sorted_take_drop:
  assumes "sorted (map f xs)" "x \<in> set (take n xs)" "y \<in> set (drop n xs)"
  shows "f x \<le> f y"
proof -
  have "sorted (map f (take n xs) @ map f (drop n xs))"
    using assms(1) by (simp flip: map_append)
  with assms show ?thesis by (simp only: sorted_append) auto
qed

lemma validate_candidates_Inr:
  "validate_candidates ds = Inr u \<longleftrightarrow> length ds \<le> MAX_CANDIDATES \<and> distinct (map sd_node_id ds)"
  by (auto simp: validate_candidates_def bindE_Inr_iff)

lemma limit_guard_Inr: "limit_guard limit = Inr u \<longleftrightarrow> 1 \<le> limit \<and> limit \<le> 100"
  by (simp add: limit_guard_def)

lemma distinct_node_ids: "distinct (map sd_node_id ds) \<Longrightarrow> d \<in> set ds \<Longrightarrow> d' \<in> set ds \<Longrightarrow>
    sd_node_id d = sd_node_id d' \<longleftrightarrow> d = d'"
  by (metis distinct_map inj_on_eq_iff)

text \<open>
  C38. On at most 1000 candidates with distinct ids and a limit from 1 to 100, lexical ranking returns the
  best candidates and only those: the ranked ids are the node ids of candidates with a lexical signal,
  without repetition, in strictly increasing order of (rank class, negated score, node id), as many as
  the limit and the matches allow, and every match that was left out ranks strictly behind every one
  returned.
\<close>

theorem rank_lexical_top:
  assumes "length candidates \<le> MAX_CANDIDATES" "distinct (map sd_node_id candidates)" "1 \<le> limit" "limit \<le> 100"
  shows "\<exists>r ds. rank_lexical env q candidates limit = Inr r
     \<and> rr_ranked_node_ids r = map sd_node_id ds \<and> set ds \<subseteq> set (signalled env q candidates)
     \<and> distinct (rr_ranked_node_ids r)
     \<and> length ds = min (nat limit) (length (signalled env q candidates))
     \<and> sorted_wrt (\<lambda>d d'. document_key env q d < document_key env q d') ds
     \<and> (\<forall>d \<in> set (signalled env q candidates) - set ds. \<forall>d' \<in> set ds. document_key env q d' < document_key env q d)"
proof -
  let ?K = "document_key env q"
  let ?S = "sort_key ?K (signalled env q candidates)"
  let ?ds = "take (nat limit) ?S"
  let ?r = "\<lparr>rr_ranked_node_ids = map sd_node_id ?ds, rr_mode = ''lexical'', rr_generation = None,
             rr_fallback_reason = None\<rparr>"
  have run: "rank_lexical env q candidates limit = Inr ?r"
    using assms unfolding rank_lexical_def bindE_Inr_iff Let_def validate_candidates_Inr limit_guard_Inr
    by (simp add: ranked_ids_eq) (simp add: slice_to_def)
  have dS: "distinct (map sd_node_id ?S)"
    using assms by (auto simp: distinct_map distinct_filter inj_on_def)
  have strict: "?K d \<noteq> ?K d'" if "d \<in> set ?S" "d' \<in> set ?S" "d \<noteq> d'" for d d'
    using that document_key_node distinct_node_ids [OF dS that(1,2)] by blast
  have "distinct (map ?K ?S)"
    using dS strict by (auto simp: distinct_map inj_on_def)
  then have "sorted_wrt (<) (map ?K ?S)" by (simp add: strict_sorted_iff)
  then have wrt: "sorted_wrt (\<lambda>d d'. ?K d < ?K d') ?ds"
    by (simp add: sorted_wrt_map sorted_wrt_take)
  have out: "?K d' < ?K d" if "d \<in> set (signalled env q candidates) - set ?ds" "d' \<in> set ?ds" for d d'
  proof -
    have d: "d \<in> set ?S" using that by simp
    with that have "d \<in> set (drop (nat limit) ?S)"
      by (metis Diff_iff Un_iff append_take_drop_id set_append)
    then have "?K d' \<le> ?K d" using that(2) by (intro sorted_take_drop) simp_all
    moreover have "?K d' \<noteq> ?K d" using that d strict by (metis Diff_iff in_set_takeD)
    ultimately show ?thesis by simp
  qed
  have sub: "set ?ds \<subseteq> set (signalled env q candidates)"
    by (metis set_take_subset set_sort)
  have dd: "distinct (rr_ranked_node_ids ?r)" using distinct_take [OF dS] by (simp add: take_map)
  show ?thesis
    by (intro exI [of _ ?r] exI [of _ ?ds] conjI ballI run sub dd wrt; (erule (1) out)?)
      (simp_all add: min.commute)
qed

subsection \<open>Hybrid ranking\<close>

text \<open>The cosine the ranking computes for a candidate; NaN stands for a failed validation too.\<close>

definition node_cosine ::
  "generation_identity \<Rightarrow> bound_vector \<Rightarrow> (string \<times> bound_vector) list \<Rightarrow> string \<Rightarrow> fnum" where
  "node_cosine g query_vector candidate_vectors n =
     (let dims = JInt (mi_dimensions (gi_model g)) in
      case (validate_vector (bv_values query_vector) dims, dict_get candidate_vectors n) of
        (Inr a, Some b) \<Rightarrow>
          (case bindE (validate_vector (bv_values b) dims) (cosine_similarity a) of Inr score \<Rightarrow> score | Inl _ \<Rightarrow> NaN)
      | _ \<Rightarrow> NaN)"

text \<open>Best first: a higher value, or the same value and a smaller id.\<close>

definition best_of :: "(string \<Rightarrow> fnum) \<Rightarrow> string list \<Rightarrow> string \<Rightarrow> bool" where
  "best_of f ns n = (n \<in> set ns \<and> list_all (\<lambda>m. fl_lt (f m) (f n) \<or> f m = f n \<and> n \<le> m) ns)"

text \<open>The highest value of the others, and -1 when there is none.\<close>

definition best_other :: "(string \<Rightarrow> fnum) \<Rightarrow> string list \<Rightarrow> string \<Rightarrow> fnum \<Rightarrow> bool" where
  "best_other f ns n ru =
     (if set ns = {n} then ru = Fin (- 1)
      else ru \<in> f ` (set ns - {n}) \<and> (\<forall>m \<in> set ns - {n}. fl_le (f m) ru))"

definition neg_key :: "(string \<Rightarrow> fnum) \<Rightarrow> string \<Rightarrow> (int \<times> rat) \<times> string" where
  "neg_key f n = (fkey (fl_neg (f n)), n)"

lemma fkey_fl_neg_le: "x \<noteq> NaN \<Longrightarrow> y \<noteq> NaN \<Longrightarrow> fkey (fl_neg x) \<le> fkey (fl_neg y) \<longleftrightarrow> fl_le y x"
  by (cases x; cases y) (auto simp: fkey_def fl_le_def)

lemma fkey_fl_neg_less: "x \<noteq> NaN \<Longrightarrow> y \<noteq> NaN \<Longrightarrow> fkey (fl_neg x) < fkey (fl_neg y) \<longleftrightarrow> fl_lt y x"
  by (cases x; cases y) (auto simp: fkey_def fl_lt_def)

lemma fl_neg_inj: "fl_neg x = fl_neg y \<longleftrightarrow> x = y"
  by (cases x; cases y) auto

lemma pair_le: "(a, n) \<le> (b, m) \<longleftrightarrow> a < b \<or> a = b \<and> n \<le> m"
  for a b :: "'a :: linorder" and n m :: "'b :: linorder"
  by (auto simp: less_eq_prod_def)

lemma neg_key_le:
  assumes "f n \<noteq> NaN" "f m \<noteq> NaN"
  shows "neg_key f n \<le> neg_key f m \<longleftrightarrow> fl_lt (f m) (f n) \<or> f m = f n \<and> n \<le> m"
  unfolding neg_key_def pair_le fkey_fl_neg_less [OF assms] fkey_inj fl_neg_inj by auto

lemma fl_lt_le: "fl_lt x y \<Longrightarrow> fl_le x y"
  by (auto simp: fl_lt_def fl_le_def)

lemma fl_le_refl: "x \<noteq> NaN \<Longrightarrow> fl_le x x"
  by (simp add: fl_le_def)

text \<open>The first two of the sorted list are the best node and the best of the others.\<close>

lemma sort_best:
  assumes ns: "ns \<noteq> []" "distinct ns" and num: "\<forall>n \<in> set ns. f n \<noteq> NaN"
  shows "\<exists>n. best_of f ns n \<and> hd (sort_key (neg_key f) ns) = n \<and>
     best_other f ns n (runner_up (map (\<lambda>n. (f n, n)) (sort_key (neg_key f) ns)))"
proof -
  let ?S = "sort_key (neg_key f) ns"
  have set: "set ?S = set ns" by simp
  have num': "f n \<noteq> NaN" if "n \<in> set ?S" for n using num that by (simp only: set) simp
  have srt: "sorted (map (neg_key f) ?S)" by simp
  have "?S \<noteq> []" using ns by (metis length_0_conv length_sort)
  then obtain n rest where S: "?S = n # rest" by (cases ?S) auto
  have d: "distinct (n # rest)" using ns S by (metis distinct_sort)
  have n: "n \<in> set ns" using S set by auto
  have le: "neg_key f n \<le> neg_key f m" if "m \<in> set rest" for m
    using srt that unfolding S by simp
  have best: "best_of f ns n"
    unfolding best_of_def list_all_iff
  proof (intro conjI ballI n)
    fix m assume "m \<in> set ns"
    then consider "m = n" | "m \<in> set rest" using S set by auto
    then show "fl_lt (f m) (f n) \<or> f m = f n \<and> n \<le> m"
      using neg_key_le [of f n m] le num n \<open>m \<in> set ns\<close> by cases auto
  qed
  have "best_other f ns n (runner_up (map (\<lambda>n. (f n, n)) ?S))"
  proof (cases rest)
    case Nil
    then have "set ns = {n}" using S set by simp
    then show ?thesis unfolding S by (simp add: best_other_def runner_up_def Nil)
  next
    case (Cons m rest')
    have others: "set ns - {n} = insert m (set rest')" using S set d Cons by auto
    have "fl_le (f k) (f m)" if "k \<in> insert m (set rest')" for k
    proof -
      have "neg_key f m \<le> neg_key f k" using srt that unfolding S Cons by auto
      then show ?thesis
        using neg_key_le [of f m k] num' [of m] num' [of k] that S Cons fl_lt_le fl_le_refl
        by (auto simp: S)
    qed
    moreover have "set ns \<noteq> {n}" using others by auto
    ultimately show ?thesis unfolding S Cons
      by (simp add: best_other_def runner_up_def others)
  qed
  with best S show ?thesis by auto
qed

lemma check_candidate_vector_Inr:
  "check_candidate_vector g (k, b) = Inr y \<longleftrightarrow>
     bv_generation_id b = gi_generation_id g \<and>
     (\<exists>xs. validate_vector (bv_values b) (JInt (mi_dimensions (gi_model g))) = Inr xs \<and> y = (k, xs))"
  by (auto simp: check_candidate_vector_def bindE_Inr_iff)

lemma checked_vectors:
  assumes "mapE (check_candidate_vector g) cvs = Inr checked"
  shows "dict_get checked n =
     (case dict_get cvs n of None \<Rightarrow> None
      | Some b \<Rightarrow> (case validate_vector (bv_values b) (JInt (mi_dimensions (gi_model g))) of
                    Inr xs \<Rightarrow> Some xs | Inl _ \<Rightarrow> None))"
  using assms
proof (induction cvs arbitrary: checked)
  case (Cons e cvs)
  obtain k b where e: "e = (k, b)" by (cases e)
  with Cons.prems obtain xs rest where
    v: "validate_vector (bv_values b) (JInt (mi_dimensions (gi_model g))) = Inr xs"
    and "mapE (check_candidate_vector g) cvs = Inr rest" and c: "checked = (k, xs) # rest"
    by (auto simp: bindE_Inr_iff check_candidate_vector_Inr)
  with Cons.IH have IH: "dict_get rest n =
     (case dict_get cvs n of None \<Rightarrow> None
      | Some b \<Rightarrow> (case validate_vector (bv_values b) (JInt (mi_dimensions (gi_model g))) of
                    Inr xs \<Rightarrow> Some xs | Inl _ \<Rightarrow> None))" by simp
  show ?case using IH v by (simp add: e c dict_get_def)
qed (simp add: dict_get_def)

lemma semantic_entries:
  assumes "validate_vector (bv_values qv) (JInt (mi_dimensions (gi_model g))) = Inr query_values"
    and "mapE (check_candidate_vector g) cvs = Inr checked"
    and "mapE (semantic_entry query_values checked) ds = Inr semantic"
  shows "semantic = map (\<lambda>n. (node_cosine g qv cvs n, n)) (map sd_node_id ds)"
  using assms(3)
proof (induction ds arbitrary: semantic)
  case (Cons d ds)
  then obtain e rest where e: "semantic_entry query_values checked d = Inr e"
    and "mapE (semantic_entry query_values checked) ds = Inr rest" and s: "semantic = e # rest"
    by (auto simp: bindE_Inr_iff)
  with Cons.IH have "rest = map (\<lambda>n. (node_cosine g qv cvs n, n)) (map sd_node_id ds)" by simp
  moreover have "e = (node_cosine g qv cvs (sd_node_id d), sd_node_id d)"
    using e assms(1) checked_vectors [OF assms(2)]
    by (auto simp: semantic_entry_def node_cosine_def bindE_Inr_iff split: option.splits sum.splits)
  ultimately show ?case using s by simp
qed simp

lemma distinct_values_JStr [simp]: "distinct_values (map JStr xs) = distinct xs"
  by (induction xs) (auto simp: py_in_JStr)

lemma validate_precomputed_lexical_Inr:
  "validate_precomputed_lexical candidates ids = Inr lx \<longleftrightarrow>
     ids = RankSeq (map JStr lx) \<and> distinct lx \<and> set lx \<subseteq> set (map sd_node_id candidates)"
  (is "?L \<longleftrightarrow> ?R")
proof -
  let ?f = "\<lambda>v. case v of
      JStr s \<Rightarrow> if s \<in> set (map sd_node_id candidates) then Inr s
                else Inl (SearchCoreErr ''precomputed lexical ranking exceeds the authorized candidate set'')
    | _ \<Rightarrow> Inl (SearchCoreErr ''precomputed lexical ranking exceeds the authorized candidate set'')"
  have f: "?f v = Inr s \<longleftrightarrow> v = JStr s \<and> s \<in> set (map sd_node_id candidates)" for v s
    by (cases v) auto
  have m: "mapE ?f vs = Inr lx \<longleftrightarrow> vs = map JStr lx \<and> set lx \<subseteq> set (map sd_node_id candidates)" for vs
    using mapE_inverse [of ?f JStr "\<lambda>s. s \<in> set (map sd_node_id candidates)", OF f] by (simp only: subset_iff Ball_def)
  have h: "list_all hashable (map JStr lx)" for lx by (induction lx) auto
  show ?thesis
    unfolding validate_precomputed_lexical_def
    by (cases ids) (auto simp only: ranking_arg.case bindE_Inr_iff guardE_Inr_iff m distinct_values_JStr h
        ranking_arg.inject ranking_arg.distinct simp_thms)
qed

lemma rank_hybrid_Inr:
  "rank_hybrid env q candidates g qv cvs lexical limit minimum_cosine minimum_margin = Inr r \<longleftrightarrow>
     (length candidates \<le> MAX_CANDIDATES \<and> distinct (map sd_node_id candidates)
      \<and> 1 \<le> limit \<and> limit \<le> 100
      \<and> (\<exists>mc mm query_values checked lx semantic.
           check_threshold ''semantic_minimum_cosine'' minimum_cosine (Fin (- 1)) (Fin 1) = Inr mc
         \<and> check_threshold ''semantic_minimum_margin'' minimum_margin (Fin 0) (Fin 2) = Inr mm
         \<and> bv_generation_id qv = gi_generation_id g
         \<and> validate_vector (bv_values qv) (JInt (mi_dimensions (gi_model g))) = Inr query_values
         \<and> set (dict_keys cvs) = set (map sd_node_id candidates)
         \<and> mapE (check_candidate_vector g) cvs = Inr checked
         \<and> lexical = RankSeq (map JStr lx) \<and> distinct lx \<and> set lx \<subseteq> set (map sd_node_id candidates)
         \<and> mapE (semantic_entry query_values checked) (filter (\<lambda>d. sd_node_id d \<notin> set lx) candidates) = Inr semantic
         \<and> r = \<lparr>rr_ranked_node_ids = slice_to limit
                  (lx @ filter (\<lambda>n. n \<notin> set lx) (semantic_pick mc mm (sort_semantic env semantic))),
                rr_mode = ''hybrid'', rr_generation = Some g, rr_fallback_reason = None\<rparr>))"
  unfolding rank_hybrid_def bindE_Inr_iff validate_candidates_Inr limit_guard_Inr guardE_Inr_iff
    validate_precomputed_lexical_Inr Let_def sum.inject
  by blast

lemma check_threshold_PFloat:
  "check_threshold label (PFloat f) lo hi = Inr y \<longleftrightarrow> y = f \<and> is_finite f \<and> fl_le lo f \<and> fl_le f hi"
  by (auto simp: check_threshold_def to_float_def bindE_Inr_iff)

lemma semantic_pick_Cons:
  "semantic_pick mc mm (x # xs) =
     (if fl_le mc (fst x) \<and> fl_le mm (fl_sub (fst x) (runner_up (x # xs))) then [snd x] else [])"
  by (simp add: semantic_pick_def SEMANTIC_APPEND_LIMIT_def)

lemma semantic_pick_sorted:
  assumes "distinct ns" "\<forall>n \<in> set ns. f n \<noteq> NaN" and "ns \<noteq> []"
  shows "\<exists>n ru. best_of f ns n \<and> best_other f ns n ru
     \<and> semantic_pick mc mm (sort_semantic env (map (\<lambda>n. (f n, n)) ns)) =
         (if fl_le mc (f n) \<and> fl_le mm (fl_sub (f n) ru) then [n] else [])"
proof -
  let ?S = "sort_key (neg_key f) ns"
  have "sort_semantic env (map (\<lambda>n. (f n, n)) ns) = sort_key semantic_key (map (\<lambda>n. (f n, n)) ns)"
    using assms(2) by (auto simp: sort_semantic_def)
  also have "\<dots> = map (\<lambda>n. (f n, n)) ?S"
    unfolding sort_key_map by (rule arg_cong [where f = "map _"], rule sort_key_cong)
      (simp add: semantic_key_def neg_key_def)
  finally have sorted: "sort_semantic env (map (\<lambda>n. (f n, n)) ns) = map (\<lambda>n. (f n, n)) ?S" .
  have "?S \<noteq> []" using assms(3) by (metis length_0_conv length_sort)
  then have S: "?S = hd ?S # tl ?S" by simp
  from sort_best [OF assms(3,1,2)] obtain n where n: "best_of f ns n" "hd ?S = n"
    and ru: "best_other f ns n (runner_up (map (\<lambda>n. (f n, n)) ?S))" by blast
  from S n obtain rest where rest: "map (\<lambda>n. (f n, n)) ?S = (f n, n) # rest" by (cases ?S) auto
  have "semantic_pick mc mm (map (\<lambda>n. (f n, n)) ?S) =
      (if fl_le mc (f n) \<and> fl_le mm (fl_sub (f n) (runner_up (map (\<lambda>n. (f n, n)) ?S))) then [n] else [])"
    unfolding rest semantic_pick_Cons fst_conv snd_conv ..
  with n ru show ?thesis unfolding sorted by blast
qed


subsection \<open>Generations\<close>

text \<open>
  The canonical text of an identity can be read back: \<open>undump\<close> takes one escaped character off a text,
  so a dumped string ends at its closing quote, and decimal digits determine their number.
\<close>

definition unhex :: "char \<Rightarrow> nat" where
  "unhex c = (if of_char c < (58 :: nat) then of_char c - 48 else of_char c - 87)"

definition undump :: "string \<Rightarrow> char \<times> string" where
  "undump s =
     (case s of
        x # s' \<Rightarrow>
          if x \<noteq> CHR 0x5C then (x, s')
          else if hd s' = CHR ''n'' then (CHR 0x0A, tl s')
          else if hd s' = CHR ''r'' then (CHR 0x0D, tl s')
          else if hd s' = CHR ''t'' then (CHR 0x09, tl s')
          else if hd s' = CHR ''b'' then (CHR 0x08, tl s')
          else if hd s' = CHR ''f'' then (CHR 0x0C, tl s')
          else if hd s' = CHR ''u'' then (char_of (16 * unhex (s' ! 3) + unhex (s' ! 4)), drop 5 s')
          else (hd s', tl s')
      | [] \<Rightarrow> (CHR 0x00, []))"

lemma unhex_hex_digit: "n < 16 \<Longrightarrow> unhex (hex_digit n) = n"
  by (auto simp: unhex_def hex_digit_def)

lemma char_codes:
  "char_of (34 :: nat) = CHR 0x22" "char_of (92 :: nat) = CHR 0x5C" "char_of (10 :: nat) = CHR 0x0A"
  "char_of (13 :: nat) = CHR 0x0D" "char_of (9 :: nat) = CHR 0x09" "char_of (8 :: nat) = CHR 0x08"
  "char_of (12 :: nat) = CHR 0x0C"
  by code_simp+

lemma undump_dump: "undump (dumps_char c @ a) = (c, a)"
proof -
  define n where "n = (of_char c :: nat)"
  then have c: "c = char_of n" and n: "n < 256" by simp_all
  have h: "unhex (hex_digit (n div 16)) = n div 16" "unhex (hex_digit (n mod 16)) = n mod 16"
    using n by (simp_all add: unhex_hex_digit)
  consider "n = 34" | "n = 92" | "n = 10" | "n = 13" | "n = 9" | "n = 8" | "n = 12"
    | "n < 32" "n \<notin> {10, 13, 9, 8, 12}" | "n \<ge> 32" "n \<noteq> 34" "n \<noteq> 92" by fastforce
  then show ?thesis
  proof cases
    case 8
    then show ?thesis using n by (simp add: undump_def dumps_char_def Let_def c h)
  next
    case 9
    have "char_of n \<noteq> CHR 0x5C"
    proof
      assume "char_of n = CHR 0x5C"
      then have "of_char (char_of n :: char) = (92 :: nat)" by simp
      with 9 n show False by simp
    qed
    with 9 n show ?thesis by (simp add: undump_def dumps_char_def Let_def c)
  qed (simp_all add: undump_def dumps_char_def Let_def c char_codes)
qed

lemma dumps_char_hd: "dumps_char c \<noteq> [] \<and> hd (dumps_char c) \<noteq> CHR 0x22"
  by (auto simp: dumps_char_def Let_def)

lemma dumps_body_inj:
  "concat (map dumps_char s) @ CHR 0x22 # a = concat (map dumps_char t) @ CHR 0x22 # b \<Longrightarrow> s = t \<and> a = b"
proof (induction s arbitrary: t)
  case Nil
  then show ?case using dumps_char_hd by (cases t) (auto simp: hd_append, metis hd_append2 list.sel(1))
next
  case (Cons x s)
  show ?case
  proof (cases t)
    case Nil
    with Cons.prems dumps_char_hd [of x] show ?thesis by (auto, metis hd_append2 list.sel(1))
  next
    case t: (Cons y t')
    with Cons.prems have "undump (dumps_char x @ concat (map dumps_char s) @ CHR 0x22 # a) =
      undump (dumps_char y @ concat (map dumps_char t') @ CHR 0x22 # b)" by simp
    then show ?thesis using Cons.IH t by (simp add: undump_dump)
  qed
qed

lemma dumps_str_inj: "dumps_str s @ a = dumps_str t @ b \<longleftrightarrow> s = t \<and> a = b"
  using dumps_body_inj [of s a t b] by (auto simp: dumps_str_def)

lemma str_int_no_comma: "CHR '','' \<notin> set (str_int i)"
  using digits_nat_digits [of "CHR '',''"] by (auto simp: str_int_def is_digit_def)

lemma str_int_comma: "str_int i @ CHR '','' # a = str_int j @ CHR '','' # b \<longleftrightarrow> i = j \<and> a = b"
  using partition_at_first [OF str_int_no_comma [of i], of a] partition_at_first [OF str_int_no_comma [of j], of b]
  by (metis prod.inject str_int_inj)

lemma generation_keys_sorted: "sort_key fst [(''model'', a :: string), (''document_revision'', b), (''normalization_revision'', c), (''ranking_revision'', d)] =
  [(''document_revision'', b), (''model'', a), (''normalization_revision'', c), (''ranking_revision'', d)]"
  by code_simp

lemma model_keys_sorted: "sort_key fst [(''provider'', a :: string), (''model_id'', b), (''model_revision'', c), (''runtime_id'', d), (''dimensions'', e)] =
  [(''dimensions'', e), (''model_id'', b), (''model_revision'', c),(''provider'', a), (''runtime_id'', d)]"
  by code_simp

lemma canonical_model_inj:
  "canonical_json (model_as_dict m) @ a = canonical_json (model_as_dict m') @ b \<longleftrightarrow> m = m' \<and> a = b"
  by (cases m; cases m')
    (auto simp: model_as_dict_def model_keys_sorted dumps_str_inj str_int_comma)

definition generation_payload :: "model_identity \<Rightarrow> string \<Rightarrow> json" where
  "generation_payload m drev = JDict
     [(''model'', model_as_dict m), (''document_revision'', JStr drev),
      (''normalization_revision'', JStr NORMALIZATION_REVISION), (''ranking_revision'', JStr RANKING_REVISION)]"

lemma canonical_generation_inj:
  "canonical_json (generation_payload m drev) = canonical_json (generation_payload m' drev') \<longleftrightarrow> m = m' \<and> drev = drev'"
  using canonical_model_inj [of m "[]" m' "[]"]
  by (auto simp: generation_payload_def generation_keys_sorted dumps_str_inj canonical_model_inj)

lemma require_text_Inr:
  "require_text v label e = Inr s \<longleftrightarrow> v = JStr s \<and> (e \<or> strip s \<noteq> []) \<and> int (length s) \<le> MAX_TEXT_CHARACTERS"
  by (cases v) (auto simp: require_text_def bindE_Inr_iff)

lemma derive_id_Inr:
  "derive_id env m drev = Inr i \<longleftrightarrow>
     (\<exists>t. require_text drev ''document_revision'' False = Inr t
        \<and> i = ''search-gen-'' @ env_sha256 env (canonical_json (generation_payload m t)))"
  by (auto simp: derive_id_def bindE_Inr_iff generation_payload_def)

text \<open>
  C39. A generation id binds its identity: two generations with the same id have the same model identity (provider, model,
  revision, runtime and dimensions) and the same document revision, or two different texts have the same
  SHA-256.  And the constructor accepts exactly the derived id: the built generation is rebuilt from its own
  fields, and any other id is refused.
\<close>

theorem generation_id_binds:
  assumes g: "GenerationIdentity_build env m drev = Inr g" and g': "GenerationIdentity_build env m' drev' = Inr g'"
  shows "(gi_generation_id g = gi_generation_id g' \<longrightarrow>
            m = m' \<and> drev = drev' \<or> (\<exists>x y. x \<noteq> y \<and> env_sha256 env x = env_sha256 env y))
     \<and> GenerationIdentity_init env gid m drev NORMALIZATION_REVISION RANKING_REVISION =
         (if gid = gi_generation_id g then Inr g
          else Inl (GenerationMismatchErr ''generation id does not match its immutable identity''))"
proof -
  have ids: "\<exists>t. drev = JStr t \<and> gi_generation_id g =
      ''search-gen-'' @ env_sha256 env (canonical_json (generation_payload m t))"
    if "GenerationIdentity_build env m drev = Inr g" for m drev g
    using that
    by (auto simp: GenerationIdentity_build_def GenerationIdentity_init_def bindE_Inr_iff derive_id_Inr require_text_Inr)
  from ids [OF g] obtain t where t: "drev = JStr t" "gi_generation_id g =
    ''search-gen-'' @ env_sha256 env (canonical_json (generation_payload m t))" by blast
  from ids [OF g'] obtain t' where t': "drev' = JStr t'" "gi_generation_id g' =
    ''search-gen-'' @ env_sha256 env (canonical_json (generation_payload m' t'))" by blast
  have "m = m' \<and> drev = drev' \<or> (\<exists>x y. x \<noteq> y \<and> env_sha256 env x = env_sha256 env y)"
    if "gi_generation_id g = gi_generation_id g'"
    using that t t' canonical_generation_inj [of m t m' t'] by auto
  moreover have "GenerationIdentity_init env gid m drev NORMALIZATION_REVISION RANKING_REVISION =
         (if gid = gi_generation_id g then Inr g
          else Inl (GenerationMismatchErr ''generation id does not match its immutable identity''))"
    using g by (auto simp: GenerationIdentity_build_def GenerationIdentity_init_def bindE_Inr_iff guardE_def split: if_splits)
  ultimately show ?thesis by blast
qed

subsection \<open>Vectors of one generation\<close>

lemma to_float_not_PBool: "to_float v msg err = Inr f \<Longrightarrow> v = PFloat f \<or> (\<exists>i. v = PInt i)"
  by (cases v) (auto simp: to_float_def)

lemma validate_vector_Inr:
  assumes "validate_vector vs (JInt n) = Inr xs"
  shows "1 \<le> n \<and> n \<le> MAX_DIMENSIONS \<and> int (length xs) = n \<and> (\<forall>x \<in> set xs. is_finite x)
    \<and> fl_sqrt (squared_norm xs) \<noteq> Fin 0 \<and> (\<exists>es. vs = VecSeq es)"
proof -
  from assms obtain es where es: "vs = VecSeq es"
    by (cases vs) (auto simp: validate_vector_def bindE_Inr_iff)
  let ?f = "\<lambda>v. bindE (to_float v ''embedding vector contains a non-number'' VectorValidationErr) (\<lambda>number.
     bindE (guardE (is_finite number) (VectorValidationErr ''embedding vector contains a non-finite value'')) (\<lambda>_.
     Inr number))"
  from assms es have n: "1 \<le> n" "n \<le> MAX_DIMENSIONS" "int (length es) = n"
    and m: "mapE ?f es = Inr xs" and norm: "fl_sqrt (squared_norm xs) \<noteq> Fin 0"
    by (auto simp: validate_vector_def bindE_Inr_iff)
  have "is_finite (xs ! i)" if "i < length es" for i
    using mapE_nth [OF m that] by (auto simp: bindE_Inr_iff)
  with mapE_length [OF m] n norm es show ?thesis by (auto simp: in_set_conv_nth)
qed

lemma mapE_check_candidate:
  assumes "mapE (check_candidate_vector g) cvs = Inr checked" "(k, b) \<in> set cvs"
  shows "bv_generation_id b = gi_generation_id g \<and>
    (\<exists>xs. validate_vector (bv_values b) (JInt (mi_dimensions (gi_model g))) = Inr xs)"
proof -
  from assms(2) obtain i where "i < length cvs" "cvs ! i = (k, b)" by (auto simp: in_set_conv_nth)
  with mapE_nth [OF assms(1)] show ?thesis by (metis check_candidate_vector_Inr)
qed

text \<open>
  Vectors of different generations are never mixed: when hybrid ranking returns, the query vector and
  the vector of every candidate carry the id of the given generation and have its dimension with finite
  entries and a norm that is not zero, and the vectors cover the candidates exactly.
\<close>

theorem rank_hybrid_single_generation:
  assumes "rank_hybrid env q candidates g qv cvs lexical limit minimum_cosine minimum_margin = Inr r"
  shows "rr_generation r = Some g \<and> set (map fst cvs) = set (map sd_node_id candidates)
     \<and> (\<forall>b \<in> insert qv (snd ` set cvs). bv_generation_id b = gi_generation_id g
         \<and> (\<exists>xs. validate_vector (bv_values b) (JInt (mi_dimensions (gi_model g))) = Inr xs
              \<and> int (length xs) = mi_dimensions (gi_model g) \<and> (\<forall>x \<in> set xs. is_finite x)
              \<and> fl_sqrt (squared_norm xs) \<noteq> Fin 0))"
proof -
  from assms obtain query_values checked where
    q: "bv_generation_id qv = gi_generation_id g"
      "validate_vector (bv_values qv) (JInt (mi_dimensions (gi_model g))) = Inr query_values"
    and keys: "set (dict_keys cvs) = set (map sd_node_id candidates)"
    and checked: "mapE (check_candidate_vector g) cvs = Inr checked" and r: "rr_generation r = Some g"
    unfolding rank_hybrid_Inr by auto
  have "bv_generation_id b = gi_generation_id g \<and>
      (\<exists>xs. validate_vector (bv_values b) (JInt (mi_dimensions (gi_model g))) = Inr xs)"
    if "b \<in> insert qv (snd ` set cvs)" for b
    using that q mapE_check_candidate [OF checked] by auto
  then show ?thesis using r keys validate_vector_Inr by (metis (no_types, lifting) dict_keys_def)
qed

text \<open>
  A vector can be finite and yet have a norm beyond the doubles: it passes the validation and its cosine
  with itself is not a number.
\<close>

lemma validate_vector_overflow:
  "validate_vector (VecSeq [PFloat (Fin (2 ^ 600))]) (JInt 1) = Inr [Fin (2 ^ 600)] \<and>
   cosine_similarity [Fin (2 ^ 600)] [Fin (2 ^ 600)] = Inr NaN"
proof -
  have r: "round_double ((2 ^ 600) * (2 ^ 600)) = PosInf" by code_simp
  then have n: "squared_norm [Fin (2 ^ 600)] = PosInf"
    by (simp add: squared_norm_def is_finite_def)
  show ?thesis
    using r n by (simp add: validate_vector_def cosine_similarity_def to_float_def is_finite_def
        MAX_DIMENSIONS_def fl_inf_def Let_def guardE_def)
qed

subsection \<open>The privacy boundary\<close>

definition document_texts :: "search_document \<Rightarrow> string list" where
  "document_texts d = [sd_node_id d, sd_title d, sd_summary d, sd_body d] @ sd_tags d @ [sd_kind d, sd_language d]"

definition personal_data_free :: "string \<Rightarrow> bool" where
  "personal_data_free t = (\<not> rx_search EMAIL_LIKE t \<and> \<not> rx_search PHONE_LIKE t \<and> \<not> rx_search IPV4_LIKE t)"

lemma reject_personal_data_Inr:
  "reject_personal_data texts label = Inr u \<longleftrightarrow> list_all personal_data_free texts"
  by (auto simp: reject_personal_data_def iterE_Inr_iff bindE_Inr_iff personal_data_free_def list_all_iff)

lemma mapE_require_tag:
  "mapE (\<lambda>tag. require_text tag ''tag'' False) ts = Inr xs \<longleftrightarrow>
     ts = map JStr xs \<and> (\<forall>x \<in> set xs. strip x \<noteq> [] \<and> int (length x) \<le> MAX_TEXT_CHARACTERS)"
  by (rule mapE_inverse) (simp add: require_text_Inr)

text \<open>
  C40. A document enters the search core only through the privacy boundary: it was built from a mapping with
  exactly the authorised fields, marked synthetic and free of personal data, and none of its texts (the
  tags included) is longer than 65536 characters or has an e-mail, phone or IPv4 pattern in it; its id,
  title, kind, language and each of its 1 to 32 tags are not blank.
\<close>

theorem from_mapping_boundary:
  assumes "from_mapping v = Inr d"
  shows "set (map fst v) = set DOCUMENT_FIELDS
     \<and> jget v ''privacy_class'' = JStr ''synthetic'' \<and> jget v ''contains_personal_data'' = JBool False
     \<and> jget v ''title'' = JStr (sd_title d) \<and> jget v ''tags'' = JList (map JStr (sd_tags d))
     \<and> list_all (\<lambda>t. personal_data_free t \<and> int (length t) \<le> MAX_TEXT_CHARACTERS) (document_texts d)
     \<and> list_all (\<lambda>t. strip t \<noteq> []) ([sd_node_id d, sd_title d, sd_kind d, sd_language d] @ sd_tags d)
     \<and> 1 \<le> length (sd_tags d) \<and> length (sd_tags d) \<le> 32"
proof -
  from assms obtain tags where keys: "set (dict_keys v) = set DOCUMENT_FIELDS"
    and tags: "jget v ''tags'' = JList tags" "length tags \<le> 32" "tags \<noteq> []"
    and init: "SearchDocument_init (jget v ''node_id'') (jget v ''title'') (jget v ''summary'') (jget v ''body'')
      (TagTuple tags) (jget v ''kind'') (jget v ''language'') (jget v ''privacy_class'')
      (jget v ''contains_personal_data'') = Inr d"
    by (cases "jget v ''tags''") (auto simp: from_mapping_def bindE_Inr_iff)
  have "tags = map JStr (sd_tags d)"
    using init unfolding SearchDocument_init_def by (auto simp: bindE_Inr_iff require_text_Inr mapE_require_tag)
  with tags have t: "jget v ''tags'' = JList (map JStr (sd_tags d))" "1 \<le> length (sd_tags d)" "length (sd_tags d) \<le> 32"
    by (auto simp: Suc_le_eq)
  have "jget v ''privacy_class'' = JStr ''synthetic'' \<and> jget v ''contains_personal_data'' = JBool False
     \<and> jget v ''title'' = JStr (sd_title d)
     \<and> list_all personal_data_free (document_texts d)
     \<and> list_all (\<lambda>t. int (length t) \<le> MAX_TEXT_CHARACTERS) (document_texts d)
     \<and> list_all (\<lambda>t. strip t \<noteq> []) ([sd_node_id d, sd_title d, sd_kind d, sd_language d] @ sd_tags d)"
    using init unfolding SearchDocument_init_def bindE_Inr_iff require_text_Inr tags_arg.case mapE_require_tag
      reject_personal_data_Inr guardE_Inr_iff
    by (auto simp: document_texts_def list_all_iff)
  with keys t show ?thesis by (auto simp: dict_keys_def list_all_iff)
qed

subsection \<open>Ranking with a provider\<close>

lemma GenerationIdentity_build_model: "GenerationIdentity_build env m drev = Inr g \<Longrightarrow> gi_model g = m"
  by (auto simp: GenerationIdentity_build_def GenerationIdentity_init_def bindE_Inr_iff)

lemma embed_bound_Inr:
  assumes "embed_bound env pr documents queries drev s = (Inr (g, dvs, qvs), s'')"
  shows "\<exists>s1 dv s2 qv s3. pr_identity pr s = (Inr (gi_model g), s1)
    \<and> pr_embed pr (map document_embedding_text documents) s1 = (Inr dv, s2)
    \<and> pr_embed pr (map query_embedding_text queries) s2 = (Inr qv, s3)
    \<and> pr_identity pr s3 = (Inr (gi_model g), s'')"
proof -
  from assms obtain b s1 dv s2 qv s3 where calls: "pr_identity pr s = (Inr b, s1)"
    "pr_embed pr (map document_embedding_text documents) s1 = (Inr dv, s2)"
    "pr_embed pr (map query_embedding_text queries) s2 = (Inr qv, s3)" "pr_identity pr s3 = (Inr b, s'')"
    and bound: "bound_all env documents b drev dv qv = Inr (g, dvs, qvs)"
    unfolding embed_bound_def bindSE_Inr by (auto simp: bindE_Inr_iff)
  from bound have "gi_model g = b"
    by (auto simp: bound_all_def bindE_Inr_iff GenerationIdentity_build_model)
  with calls show ?thesis by blast
qed

lemma semantic_pick_subset: "set (semantic_pick mc mm xs) \<subseteq> snd ` set xs"
  by (cases xs) (auto simp: semantic_pick_Cons, simp add: semantic_pick_def)

lemma semantic_pick_length: "length (semantic_pick mc mm xs) \<le> 1"
  by (cases xs) (auto simp: semantic_pick_Cons, simp add: semantic_pick_def)

lemma sort_semantic_set:
  "(\<And>xs. set (env_nan_order env xs) = set xs) \<Longrightarrow> set (sort_semantic env xs) = set xs"
  by (simp add: sort_semantic_def)

lemma rank_hybrid_ids:
  assumes "rank_hybrid env q candidates g qv cvs lexical limit minimum_cosine minimum_margin = Inr r"
    and order: "\<And>xs. set (env_nan_order env xs) = set xs"
  shows "\<exists>lx extra. lexical = RankSeq (map JStr lx) \<and> distinct (lx @ extra)
    \<and> set (lx @ extra) \<subseteq> set (map sd_node_id candidates) \<and> length extra \<le> 1
    \<and> rr_ranked_node_ids r = take (nat limit) (lx @ extra)
    \<and> rr_mode r = ''hybrid'' \<and> rr_generation r = Some g \<and> rr_fallback_reason r = None"
proof -
  from assms(1) obtain mc mm query_values checked lx semantic where lim: "1 \<le> limit"
    and query: "validate_vector (bv_values qv) (JInt (mi_dimensions (gi_model g))) = Inr query_values"
    and checked: "mapE (check_candidate_vector g) cvs = Inr checked"
    and lx: "lexical = RankSeq (map JStr lx)" "distinct lx" "set lx \<subseteq> set (map sd_node_id candidates)"
    and sem: "mapE (semantic_entry query_values checked) (filter (\<lambda>d. sd_node_id d \<notin> set lx) candidates) = Inr semantic"
    and r: "r = \<lparr>rr_ranked_node_ids =
        slice_to limit (lx @ filter (\<lambda>n. n \<notin> set lx) (semantic_pick mc mm (sort_semantic env semantic))),
      rr_mode = ''hybrid'', rr_generation = Some g, rr_fallback_reason = None\<rparr>"
    unfolding rank_hybrid_Inr by blast
  let ?pick = "semantic_pick mc mm (sort_semantic env semantic)"
  let ?extra = "filter (\<lambda>n. n \<notin> set lx) ?pick"
  have "set ?pick \<subseteq> snd ` set semantic"
    using semantic_pick_subset [of mc mm "sort_semantic env semantic"] by (simp add: sort_semantic_set [OF order])
  then have "set ?extra \<subseteq> set (map sd_node_id candidates)"
    using semantic_entries [OF query checked sem] by auto
  moreover have "length ?extra \<le> 1"
    using semantic_pick_length [of mc mm "sort_semantic env semantic"] length_filter_le order_trans by blast
  moreover have "distinct ?extra" using \<open>length ?extra \<le> 1\<close> by (cases ?extra) auto
  ultimately show ?thesis using lx lim r by (intro exI [of _ lx] exI [of _ ?extra]) (auto simp: slice_to_def)
qed

text \<open>
  What a ranking with a provider returns: the fallback only when the provider reported itself
  unavailable, with its reason, no generation, and nothing but the precomputed ranking; otherwise a hybrid
  ranking of a generation whose model is the identity the provider gave before and after embedding, with
  the precomputed ranking first, no repetition, and at most one id more, of a candidate.
\<close>

theorem rank_with_provider_modes:
  assumes run: "rank_with_provider env pr q candidates drev lexical limit s = (Inr r, s'')"
    and order: "\<And>xs. set (env_nan_order env xs) = set xs"
  shows "\<exists>lx. lexical = RankSeq (map JStr lx) \<and> distinct lx \<and> set lx \<subseteq> set (map sd_node_id candidates) \<and>
     (if rr_mode r = ''lexical_fallback'' then
        rr_generation r = None \<and> rr_ranked_node_ids r = slice_to limit lx
        \<and> (\<exists>msg. rr_fallback_reason r = Some msg
              \<and> fst (embed_bound env pr candidates [q] drev s) = Inl (ProviderUnavailableErr msg))
      else rr_mode r = ''hybrid'' \<and> rr_fallback_reason r = None
        \<and> (\<exists>extra. rr_ranked_node_ids r = take (nat limit) (lx @ extra) \<and> length extra \<le> 1
              \<and> distinct (lx @ extra) \<and> set extra \<subseteq> set (map sd_node_id candidates))
        \<and> (\<exists>g s1 dv s2 qv s3. rr_generation r = Some g \<and> pr_identity pr s = (Inr (gi_model g), s1)
              \<and> pr_embed pr (map document_embedding_text candidates) s1 = (Inr dv, s2)
              \<and> pr_embed pr [query_embedding_text q] s2 = (Inr qv, s3)
              \<and> pr_identity pr s3 = (Inr (gi_model g), s'')))"
proof (cases "embed_bound env pr candidates [q] drev s")
  case (Pair res t)
  show ?thesis
  proof (cases res)
    case (Inl e)
    with run Pair obtain msg where "e = ProviderUnavailableErr msg"
      by (cases e) (auto simp: rank_with_provider_def)
    with run Pair Inl show ?thesis
      by (auto simp: rank_with_provider_def bindE_Inr_iff validate_precomputed_lexical_Inr)
  next
    case (Inr x)
    obtain g dvs qvs where x: "x = (g, dvs, qvs)" by (cases x)
    from run Pair Inr x have hy: "rank_hybrid env q candidates g (hd qvs) dvs lexical limit
        (PFloat SEMANTIC_MINIMUM_COSINE) (PFloat SEMANTIC_MINIMUM_MARGIN) = Inr r" and "t = s''"
      by (auto simp: rank_with_provider_def)
    with embed_bound_Inr [of env pr candidates "[q]" drev s g dvs qvs s''] Pair Inr x
    have calls: "\<exists>s1 dv s2 qv s3. pr_identity pr s = (Inr (gi_model g), s1)
      \<and> pr_embed pr (map document_embedding_text candidates) s1 = (Inr dv, s2)
      \<and> pr_embed pr [query_embedding_text q] s2 = (Inr qv, s3)
      \<and> pr_identity pr s3 = (Inr (gi_model g), s'')" by simp
    from rank_hybrid_ids [OF hy order] obtain lx extra where
      ids: "lexical = RankSeq (map JStr lx)" "distinct (lx @ extra)"
      "set (lx @ extra) \<subseteq> set (map sd_node_id candidates)" "length extra \<le> 1"
      "rr_ranked_node_ids r = take (nat limit) (lx @ extra)"
      and mode: "rr_mode r = ''hybrid''" "rr_generation r = Some g" "rr_fallback_reason r = None" by blast
    from ids have "distinct lx" "set lx \<subseteq> set (map sd_node_id candidates)"
      "set extra \<subseteq> set (map sd_node_id candidates)" by auto
    with ids mode calls show ?thesis by (intro exI [of _ lx] conjI) (simp_all, blast)
  qed
qed

text \<open>
  The fallback does not check the limit: with an unavailable provider a limit of -1, which both rankings
  refuse, drops the last id of the precomputed ranking instead.
\<close>

lemma fallback_negative_limit:
  assumes "embed_bound env pr candidates [q] drev s = (Inl (ProviderUnavailableErr msg), s')"
    and "validate_precomputed_lexical candidates lexical = Inr lx"
  shows "rank_with_provider env pr q candidates drev lexical (- 1) s =
    (Inr \<lparr>rr_ranked_node_ids = butlast lx, rr_mode = ''lexical_fallback'', rr_generation = None,
          rr_fallback_reason = Some msg\<rparr>, s')"
  using assms by (simp add: rank_with_provider_def slice_to_def butlast_conv_take nat_diff_distrib')

subsection \<open>Concrete runs\<close>

definition demo_env :: search_env where
  "demo_env = \<lparr>env_nfkc = (\<lambda>t. t), env_sha256 = (\<lambda>t. ''h''), env_nan_order = (\<lambda>xs. xs)\<rparr>"

definition demo_doc :: "string \<Rightarrow> search_document" where
  "demo_doc n = \<lparr>sd_node_id = n, sd_title = n, sd_summary = [], sd_body = [], sd_tags = [''t''],
     sd_kind = ''k'', sd_language = ''de''\<rparr>"

definition demo_model :: model_identity where
  "demo_model = \<lparr>mi_provider = ''local:x'', mi_model_id = ''m'', mi_model_revision = ''1'',
     mi_runtime_id = ''r'', mi_dimensions = 1\<rparr>"

definition demo_generation :: generation_identity where
  "demo_generation = \<lparr>gi_generation_id = ''search-gen-h'', gi_model = demo_model, gi_document_revision = ''d'',
     gi_normalization_revision = NORMALIZATION_REVISION, gi_ranking_revision = RANKING_REVISION\<rparr>"

definition demo_vector :: "rat \<Rightarrow> bound_vector" where
  "demo_vector x = \<lparr>bv_generation_id = ''search-gen-h'', bv_values = VecSeq [PFloat (Fin x)]\<rparr>"

definition demo_candidates :: "search_document list" where
  "demo_candidates = [demo_doc ''b'', demo_doc ''a'', demo_doc ''c'']"

definition demo_vectors :: "(string \<times> bound_vector) list" where
  "demo_vectors = [(''a'', demo_vector 1), (''b'', demo_vector (- 1)), (''c'', demo_vector 2)]"

definition demo_query :: search_query where "demo_query = \<lparr>sq_text = ''a''\<rparr>"

definition demo_provider :: "unit provider" where
  "demo_provider = \<lparr>pr_identity = (\<lambda>s. (Inr demo_model, s)),
     pr_embed = (\<lambda>texts s. (Inr (map (\<lambda>_. VecSeq [PFloat (Fin 1)]) texts), s))\<rparr>"

definition demo_mapping :: dict where
  "demo_mapping = [(''node_id'', JStr ''n''), (''title'', JStr ''t''), (''summary'', JStr []), (''body'', JStr []),
     (''tags'', JList [JStr ''g'']), (''kind'', JStr ''k''), (''language'', JStr ''de''),
     (''privacy_class'', JStr ''synthetic''), (''contains_personal_data'', JBool False)]"

lemma demo_hybrid_run:
  "rank_hybrid demo_env demo_query demo_candidates demo_generation (demo_vector 1) demo_vectors
     (RankSeq [JStr ''c'']) 10 (PFloat (Fin (1 / 2))) (PFloat (Fin 1)) =
   Inr \<lparr>rr_ranked_node_ids = [''c'', ''a''], rr_mode = ''hybrid'', rr_generation = Some demo_generation,
        rr_fallback_reason = None\<rparr>"
  by code_simp

lemma demo_cosines:
  "list_all (\<lambda>d. node_cosine demo_generation (demo_vector 1) demo_vectors (sd_node_id d) \<noteq> NaN) demo_candidates"
  by code_simp

lemma require_text_ok:
  "strip s \<noteq> [] \<Longrightarrow> length s < 100 \<Longrightarrow> require_text (JStr s) label False = Inr s"
  by (simp add: require_text_Inr MAX_TEXT_CHARACTERS_def)

lemma require_text_empty: "require_text (JStr []) label True = Inr []"
  by (simp add: require_text_Inr MAX_TEXT_CHARACTERS_def)

lemma demo_strip: "list_all (\<lambda>s. strip s \<noteq> []) [''n'', ''t'', ''g'', ''k'', ''de'', ''d'']"
  by code_simp

lemma demo_fields: "set (dict_keys demo_mapping) = set DOCUMENT_FIELDS"
  by code_simp

lemma demo_clean: "reject_personal_data [''n'', ''t'', [], [], ''g'', ''k'', ''de''] label = Inr ()"
proof -
  have "list_all personal_data_free [''n'', ''t'', [], [], ''g'', ''k'', ''de'']" by code_simp
  then show ?thesis by (simp only: reject_personal_data_Inr)
qed

lemma demo_from_mapping: "from_mapping demo_mapping =
   Inr \<lparr>sd_node_id = ''n'', sd_title = ''t'', sd_summary = [], sd_body = [], sd_tags = [''g''],
        sd_kind = ''k'', sd_language = ''de''\<rparr>"
  using demo_strip demo_fields
  by (simp add: from_mapping_def SearchDocument_init_def require_text_ok require_text_empty guardE_def
      demo_clean)
    (simp add: demo_mapping_def jget_def dict_get_def SearchDocument_init_def require_text_ok require_text_empty
      demo_clean guardE_def)

lemma demo_build: "GenerationIdentity_build demo_env demo_model (JStr ''d'') = Inr demo_generation"
  using demo_strip
  by (simp add: GenerationIdentity_build_def GenerationIdentity_init_def derive_id_def require_text_ok
      demo_env_def demo_generation_def guardE_def)

lemma demo_bind: "BoundVector_build demo_generation (VecSeq [PFloat (Fin 1)]) = Inr (demo_vector 1)"
  by code_simp

lemma demo_provider_run:
  "rank_with_provider demo_env demo_provider demo_query [demo_doc ''a''] (JStr ''d'') (RankSeq []) 10 () =
     (Inr \<lparr>rr_ranked_node_ids = [''a''], rr_mode = ''hybrid'', rr_generation = Some demo_generation,
           rr_fallback_reason = None\<rparr>, ())"
proof -
  have "embed_bound demo_env demo_provider [demo_doc ''a''] [demo_query] (JStr ''d'') () =
      (Inr (demo_generation, [(''a'', demo_vector 1)], [demo_vector 1]), ())"
    by (simp add: embed_bound_def bindSE_def bound_all_def demo_provider_def demo_build demo_bind
        validate_candidates_def MAX_CANDIDATES_def guardE_def) (simp add: demo_doc_def)
  moreover have "rank_hybrid demo_env demo_query [demo_doc ''a''] demo_generation (demo_vector 1)
      [(''a'', demo_vector 1)] (RankSeq []) 10 (PFloat SEMANTIC_MINIMUM_COSINE) (PFloat SEMANTIC_MINIMUM_MARGIN) =
     Inr \<lparr>rr_ranked_node_ids = [''a''], rr_mode = ''hybrid'', rr_generation = Some demo_generation,
          rr_fallback_reason = None\<rparr>" by code_simp
  ultimately show ?thesis by (simp add: rank_with_provider_def)
qed

lemma rank_lexical_top_witness:
  "\<exists>r ds. rank_lexical demo_env demo_query demo_candidates 2 = Inr r
     \<and> rr_ranked_node_ids r = map sd_node_id ds \<and> set ds \<subseteq> set (signalled demo_env demo_query demo_candidates)
     \<and> length ds = min 2 (length (signalled demo_env demo_query demo_candidates))
     \<and> sorted_wrt (\<lambda>d d'. document_key demo_env demo_query d < document_key demo_env demo_query d') ds"
proof -
  have "length demo_candidates \<le> MAX_CANDIDATES" "distinct (map sd_node_id demo_candidates)"
    by (simp_all add: demo_candidates_def demo_doc_def MAX_CANDIDATES_def)
  from rank_lexical_top [OF this, of 2 demo_env demo_query] show ?thesis by auto
qed


lemma rank_hybrid_single_generation_witness:
  "set (map fst demo_vectors) = set (map sd_node_id demo_candidates)
   \<and> bv_generation_id (demo_vector 1) = gi_generation_id demo_generation"
  using rank_hybrid_single_generation [OF demo_hybrid_run] by blast

lemma generation_id_binds_witness:
  "GenerationIdentity_init demo_env ''search-gen-x'' demo_model (JStr ''d'') NORMALIZATION_REVISION RANKING_REVISION =
     Inl (GenerationMismatchErr ''generation id does not match its immutable identity'')"
  using generation_id_binds [OF demo_build demo_build, of "''search-gen-x''"] by (simp add: demo_generation_def)

lemma from_mapping_boundary_witness:
  "set (map fst demo_mapping) = set DOCUMENT_FIELDS \<and> jget demo_mapping ''tags'' = JList (map JStr [''g''])"
  using from_mapping_boundary [OF demo_from_mapping] by simp

lemma rank_with_provider_modes_witness:
  "\<exists>lx extra. RankSeq [] = RankSeq (map JStr lx) \<and> [''a''] = take 10 (lx @ extra) \<and> length extra \<le> 1"
proof -
  have "set (env_nan_order demo_env xs) = set xs" for xs by (simp add: demo_env_def)
  from rank_with_provider_modes [OF demo_provider_run this] show ?thesis by auto
qed

end
