(* ===== verification/Watch_Eval.thy ===== *)
theory Watch_Eval
  imports Json_Contract Py_Float
begin

text \<open>
  \<open>src/scripts/ops/independent_production_watch.py\<close>, observation part: reading the public endpoints
  (\<open>fetch\<close>), evaluating one poll (\<open>evaluate\<close>), the anchor of an earlier poll
  (\<open>read_previous_main_observation\<close>) and the report of a cycle (\<open>_evaluate_cycle\<close>).

  A time is the integer of its microseconds since the epoch.  \<open>datetime.fromisoformat\<close> followed by the
  conversion to UTC, \<open>isoformat\<close> and the text of a number of seconds are the fields of the parameter
  \<open>time_lib\<close>; JSON decoding is the parameter \<open>decode\<close>.  What the network answers is an argument.  The
  issues list is mutated by the code while it runs and read by the caller after an abort, so the steps
  pass a state \<open>ev\<close>, and \<open>Inl\<close> is the deadline signal \<open>WatchRuntimeExceeded\<close>, struck while an endpoint is read, the only
  exception that leaves \<open>evaluate\<close>.
\<close>

subsection \<open>Constants and times\<close>

definition URLS :: "(string \<times> string) list" where
  "URLS = [
     (''frontend'', ''https://commonthing.net/_app/version.json''),
     (''api'', ''https://commonthing.net/api/version''),
     (''main'', ''https://api.github.com/repos/heimgewebe/commonthing/commits/main''),
     (''schedule'', ''https://api.github.com/repos/heimgewebe/commonthing/actions/workflows/production-live-contract.yml/runs?event=schedule&per_page=2'')]"

definition SCHEDULE_COMPLETED_URL :: string where
  "SCHEDULE_COMPLETED_URL = ''https://api.github.com/repos/heimgewebe/commonthing/actions/workflows/'' @
     ''production-live-contract.yml/runs?event=schedule&status=completed&per_page=1''"

definition watch_url :: "string \<Rightarrow> string" where
  "watch_url source = (if source = ''schedule_completed'' then SCHEDULE_COMPLETED_URL
     else the (dict_get URLS source))"

definition LIMIT :: int where
  "LIMIT = 512 * 1024"

text \<open>The threshold of 45 minutes and the tolerance of two minutes, in microseconds.\<close>

definition THRESHOLD :: int where
  "THRESHOLD = 45 * 60 * 1000000"

definition CLOCK_SKEW :: int where
  "CLOCK_SKEW = 120 * 1000000"

record time_lib =
  fromisoformat :: "string \<Rightarrow> int option"
  isoformat :: "int \<Rightarrow> string"
  seconds_text :: "int \<Rightarrow> string"

definition timestamp :: "time_lib \<Rightarrow> json \<Rightarrow> int option" where
  "timestamp tm value = (case value of JStr s \<Rightarrow> fromisoformat tm (replace_all ''Z'' ''+00:00'' s) | _ \<Rightarrow> None)"

text \<open>\<open>t.isoformat().replace("+00:00", "Z")\<close>.\<close>

definition zulu :: "time_lib \<Rightarrow> int \<Rightarrow> json" where
  "zulu tm t = JStr (replace_all ''+00:00'' ''Z'' (isoformat tm t))"

text \<open>\<open>round(td.total_seconds())\<close>: the double nearest to the seconds, rounded half to even.\<close>

definition round_seconds :: "int \<Rightarrow> int" where
  "round_seconds us = (case round_double (of_int us / 1000000) of
     Fin q \<Rightarrow> (case quotient_of q of (a, b) \<Rightarrow> div_half_even a b) | _ \<Rightarrow> 0)"

subsection \<open>Reading an endpoint\<close>

definition PRODUCT :: "string list" where
  "PRODUCT = [''frontend'', ''api'']"

definition permanent_product_http_failure :: "string \<Rightarrow> int \<Rightarrow> bool" where
  "permanent_product_http_failure name status =
     (name \<in> set PRODUCT \<and> status \<noteq> 200 \<and> status \<notin> {408, 425, 429})"

text \<open>
  One run of \<open>git ls-remote\<close>: it ends with a return code and an output, or the call raises one of the
  errors the caller expects, or the deadline strikes.
\<close>

datatype git_run = GitDone int string | GitRaised string | GitDeadline string

text \<open>\<open>re.fullmatch(r"([0-9a-f]{40})\\trefs/heads/main\\n?", stdout)\<close>.\<close>

definition main_ref_sha :: "string \<Rightarrow> string option" where
  "main_ref_sha out =
     (let sha = take 40 out; rest = drop 40 out; tail = [CHR 0x09] @ ''refs/heads/main''
      in if is_commit_str sha \<and> (rest = tail \<or> rest = tail @ [CHR 0x0A]) then Some sha else None)"

datatype 'a attempt_result = Returned 'a | Failed string | Deadline string

definition public_main_ref_over_git :: "git_run \<Rightarrow> dict attempt_result" where
  "public_main_ref_over_git run = (case run of
     GitDeadline m \<Rightarrow> Deadline m
   | GitRaised m \<Rightarrow> Failed m
   | GitDone code out \<Rightarrow>
       if code \<noteq> 0 then Failed ''public git ref unavailable''
       else (case main_ref_sha out of
           None \<Rightarrow> Failed ''invalid public git main ref''
         | Some sha \<Rightarrow> Returned [(''sha'', JStr sha), (''observation_transport'', JStr ''git_https'')]))"

text \<open>
  What \<open>urlopen\<close> does: a response (status, body up to the read limit plus one byte, Cache-Control header),
  an \<open>HTTPError\<close>, another exception with its type and text, or the deadline.
\<close>

datatype http_answer =
    Response int string string
  | HttpErr int
  | OtherErr string string
  | HttpDeadline string

text \<open>
  The outcome of one try: a document with its Cache-Control header, or the error text with the
  increments of \<open>product_failures\<close> and \<open>version_failures\<close>.
\<close>

datatype try_result = TryOk dict string | TryFail string bool bool | TryDeadline string

definition value_error :: "string \<Rightarrow> string" where
  "value_error text = ''ValueError: '' @ take 150 text"

definition fetch_try :: "(string \<Rightarrow> json option) \<Rightarrow> string \<Rightarrow> http_answer \<Rightarrow> git_run \<Rightarrow> try_result" where
  "fetch_try decode name answer git = (case answer of
     Response status content cache \<Rightarrow>
       (let product = name \<in> set PRODUCT in
        if status \<noteq> 200
        then TryFail (value_error (''HTTP '' @ str_int status)) (permanent_product_http_failure name status) False
        else if int (length content) > LIMIT
        then TryFail (value_error ''response exceeds limit'') product False
        else (case decode content of
            None \<Rightarrow> TryFail (value_error ''invalid JSON response'') product False
          | Some (JDict data) \<Rightarrow>
              if product \<and> \<not> (case jget data ''commit'' of JStr c \<Rightarrow> is_commit_str c | _ \<Rightarrow> False)
              then TryFail (value_error ''invalid public product version commit'') True True
              else TryOk data cache
          | Some _ \<Rightarrow> TryFail (value_error ''JSON root not an object'') product False))
   | HttpErr code \<Rightarrow>
       (let failed = TryFail (''HTTPError: HTTP '' @ str_int code) (permanent_product_http_failure name code) False
        in if name = ''main'' \<and> code = 403
           then (case public_main_ref_over_git git of
                   Returned d \<Rightarrow> TryOk d [] | Failed _ \<Rightarrow> failed | Deadline m \<Rightarrow> TryDeadline m)
           else failed)
   | OtherErr kind text \<Rightarrow> TryFail (kind @ '': '' @ take 150 text) False False
   | HttpDeadline m \<Rightarrow> TryDeadline m)"

text \<open>What a reader does: it returns a document and the header or raises one of four exceptions.\<close>

datatype reading =
    Read dict string
  | VersionFailed string
  | HttpFailed string
  | ReadFailed string
  | DeadlineHit string

text \<open>\<open>answers\<close> and \<open>gits\<close> are what the two tries of the loop meet.\<close>

definition fetch :: "(string \<Rightarrow> json option) \<Rightarrow> string \<Rightarrow> http_answer \<times> http_answer \<Rightarrow> git_run \<times> git_run \<Rightarrow> reading" where
  "fetch decode name answers gits =
     (case fetch_try decode name (fst answers) (fst gits) of
        TryOk d h \<Rightarrow> Read d h
      | TryDeadline m \<Rightarrow> DeadlineHit m
      | TryFail _ p1 v1 \<Rightarrow>
          (case fetch_try decode name (snd answers) (snd gits) of
             TryOk d h \<Rightarrow> Read d h
           | TryDeadline m \<Rightarrow> DeadlineHit m
           | TryFail error p2 v2 \<Rightarrow>
               if name \<in> set PRODUCT \<and> p1 \<and> p2
               then (if v1 \<and> v2
                     then VersionFailed (''two confirmed invalid public product version commits: '' @ error)
                     else HttpFailed (''two confirmed product HTTP failures: '' @ error))
               else ReadFailed (''two reads failed: '' @ error)))"

text \<open>The reader of a cycle, over what the network and Git answer for each endpoint.\<close>

type_synonym network = "string \<Rightarrow> (http_answer \<times> http_answer) \<times> (git_run \<times> git_run)"

definition watch_reader :: "(string \<Rightarrow> json option) \<Rightarrow> network \<Rightarrow> string \<Rightarrow> reading" where
  "watch_reader decode net name = fetch decode name (fst (net name)) (snd (net name))"

subsection \<open>One poll\<close>

record ev =
  ev_issues :: "json list"
  ev_latest :: json

definition watch_item :: "string \<Rightarrow> string \<Rightarrow> json \<Rightarrow> string \<Rightarrow> string \<Rightarrow> string \<Rightarrow> int option \<Rightarrow> json" where
  "watch_item code component actual expected source severity duration = JDict (
     [(''code'', JStr code), (''component'', JStr component), (''actual'', actual), (''expected'', JStr expected),
      (''source'', JStr (watch_url source)), (''severity'', JStr severity)]
   @ (case duration of None \<Rightarrow> [] | Some us \<Rightarrow> [(''duration_seconds'', JInt (round_seconds us))]))"

definition flag :: "json \<Rightarrow> ev \<Rightarrow> (string + unit) \<times> ev" where
  "flag item s = (Inr (), s\<lparr>ev_issues := ev_issues s @ [item]\<rparr>)"

definition returnS :: "'a \<Rightarrow> ev \<Rightarrow> (string + 'a) \<times> ev" where
  "returnS x s = (Inr x, s)"

definition whenS :: "bool \<Rightarrow> (ev \<Rightarrow> (string + unit) \<times> ev) \<Rightarrow> ev \<Rightarrow> (string + unit) \<times> ev" where
  "whenS b m s = (if b then m s else (Inr (), s))"

text \<open>\<open>no-store\<close> among the directives of a Cache-Control header.\<close>

definition no_store :: "string \<Rightarrow> bool" where
  "no_store header = (''no-store'' \<in> set (map (\<lambda>p. lower (strip p)) (split_on (CHR '','') header)))"

definition observe :: "(string \<Rightarrow> reading) \<Rightarrow> string \<Rightarrow> ev \<Rightarrow> (string + dict option) \<times> ev" where
  "observe reader name = (case reader name of
     Read data header \<Rightarrow>
       bindSE (whenS (name = ''frontend'' \<and> \<not> no_store header)
                 (flag (watch_item ''frontend_cache'' ''frontend'' (JStr (take 120 header))
                         ''Cache-Control: no-store'' ''frontend'' ''P1'' None)))
         (\<lambda>_. returnS (Some data))
   | VersionFailed exc \<Rightarrow>
       bindSE (flag (watch_item (''invalid_commit_'' @ name) ''product version response'' (JStr (take 200 exc))
                 ''canonical commit in two production responses'' name ''P1'' None)) (\<lambda>_. returnS None)
   | HttpFailed exc \<Rightarrow>
       bindSE (flag (watch_item (''unavailable_'' @ name) ''product HTTP response'' (JStr (take 200 exc))
                 ''HTTP 200 from production'' name ''P1'' None)) (\<lambda>_. returnS None)
   | ReadFailed exc \<Rightarrow>
       bindSE (flag (watch_item (''unavailable_'' @ name) ''observation channel'' (JStr (take 200 exc))
                 ''HTTP 200 and valid JSON'' name (if name = ''schedule'' then ''INFO'' else ''P2'') None))
         (\<lambda>_. returnS None)
   | DeadlineHit m \<Rightarrow> (\<lambda>s. (Inl m, s)))"

text \<open>The commit a document names under \<open>key\<close>; a missing document names none and is not flagged again.\<close>

definition observed_commit :: "string \<Rightarrow> string \<Rightarrow> string \<Rightarrow> dict option \<Rightarrow> ev \<Rightarrow> (string + string option) \<times> ev" where
  "observed_commit key name severity data = (case data of
     None \<Rightarrow> returnS None
   | Some d \<Rightarrow>
       (let value = jget d key;
            bad = bindSE (flag (watch_item (''invalid_commit_'' @ name) name (JStr (take 100 (py_str value)))
                      ''40-character hexadecimal commit'' name severity None)) (\<lambda>_. returnS None)
        in case value of JStr c \<Rightarrow> if is_commit_str c then returnS (Some c) else bad | _ \<Rightarrow> bad))"

definition flag_diverge :: "string option \<Rightarrow> string option \<Rightarrow> ev \<Rightarrow> (string + unit) \<times> ev" where
  "flag_diverge frontend api = (case (frontend, api) of
     (Some f, Some a) \<Rightarrow>
       whenS (f \<noteq> a) (flag (watch_item ''frontend_api_diverge'' ''production commits''
         (JDict [(''frontend'', JStr f), (''api'', JStr a)]) ''frontend == API'' ''frontend'' ''P1'' None))
   | _ \<Rightarrow> returnS ())"

text \<open>The time this main commit was first seen: the recorded one of the same commit unless it lies ahead.\<close>

definition first_seen_at :: "time_lib \<Rightarrow> int \<Rightarrow> json \<Rightarrow> string \<Rightarrow> int" where
  "first_seen_at tm now previous main =
     (case previous of
        JDict p \<Rightarrow>
          if jget p ''sha'' = JStr main
          then (case timestamp tm (jget p ''first_seen'') of
                  Some recorded \<Rightarrow> if recorded \<le> now then recorded else now | None \<Rightarrow> now)
          else now
      | _ \<Rightarrow> now)"

definition prior_divergence :: "json \<Rightarrow> dict" where
  "prior_divergence previous = as_dict (jget (as_dict previous) ''diverged_since'')"

text \<open>One round of the loop over the components: the anchor to keep, and the staleness issue.\<close>

definition divergence_step ::
  "time_lib \<Rightarrow> int \<Rightarrow> int \<Rightarrow> json \<Rightarrow> string \<Rightarrow> string option \<Rightarrow> string \<Rightarrow> ev \<Rightarrow> (string + int option) \<times> ev" where
  "divergence_step tm now first_seen previous name commit main =
     (let recorded = (case timestamp tm (jget (prior_divergence previous) name) of
            Some t \<Rightarrow> if t \<le> now then Some t else None | None \<Rightarrow> None)
      in case commit of
           None \<Rightarrow> returnS recorded
         | Some c \<Rightarrow>
             if c = main then returnS None
             else
               let anchor = (case recorded of Some t \<Rightarrow> t | None \<Rightarrow> first_seen); age = now - anchor
               in bindSE (whenS (THRESHOLD \<le> age)
                     (flag (watch_item (''stale_'' @ name) name (JStr c) main name ''P1'' (Some age))))
                   (\<lambda>_. returnS (Some anchor)))"

definition divergence_dict :: "time_lib \<Rightarrow> int option \<Rightarrow> int option \<Rightarrow> dict" where
  "divergence_dict tm df da =
     (case df of None \<Rightarrow> [] | Some t \<Rightarrow> [(''frontend'', zulu tm t)]) @
     (case da of None \<Rightarrow> [] | Some t \<Rightarrow> [(''api'', zulu tm t)])"

definition observation_dict :: "time_lib \<Rightarrow> string \<Rightarrow> int \<Rightarrow> dict \<Rightarrow> json" where
  "observation_dict tm sha first_seen divergence = JDict (
     [(''sha'', JStr sha), (''first_seen'', zulu tm first_seen)] @
     (if divergence = [] then [] else [(''diverged_since'', JDict divergence)]))"

text \<open>The committer date of main must be readable and not lie ahead, unless Git itself was read.\<close>

definition check_main_time :: "time_lib \<Rightarrow> int \<Rightarrow> dict \<Rightarrow> ev \<Rightarrow> (string + unit) \<times> ev" where
  "check_main_time tm now data =
     (let committer = jget (as_dict (jget data ''commit'')) ''committer'';
          commit_age = map_option (\<lambda>t. now - t) (timestamp tm (jget (as_dict committer) ''date''))
      in whenS (jget data ''observation_transport'' \<noteq> JStr ''git_https''
                \<and> (case commit_age of None \<Rightarrow> True | Some age \<Rightarrow> age < - CLOCK_SKEW))
           (flag (watch_item ''main_time_unreliable'' ''GitHub main''
              (JStr (case commit_age of None \<Rightarrow> ''None'' | Some age \<Rightarrow> seconds_text tm age))
              ''valid commit timestamp'' ''main'' ''P2'' None)))"

definition main_observation ::
  "time_lib \<Rightarrow> int \<Rightarrow> json \<Rightarrow> string option \<Rightarrow> string option \<Rightarrow> string option \<Rightarrow> dict option \<Rightarrow> ev \<Rightarrow> (string + json) \<times> ev" where
  "main_observation tm now previous frontend api main data = (case main of
     None \<Rightarrow> returnS JNull
   | Some m \<Rightarrow>
       (let first_seen = first_seen_at tm now previous m
        in bindSE (divergence_step tm now first_seen previous ''frontend'' frontend m) (\<lambda>df.
           bindSE (divergence_step tm now first_seen previous ''api'' api m) (\<lambda>da.
           bindSE (check_main_time tm now (case data of Some d \<Rightarrow> d | None \<Rightarrow> [])) (\<lambda>_.
           returnS (observation_dict tm m first_seen (divergence_dict tm df da)))))))"

subsection \<open>The schedule of the hosted check\<close>

definition created_at :: "time_lib \<Rightarrow> json \<Rightarrow> int" where
  "created_at tm r = the (timestamp tm (jget (as_dict r) ''created_at''))"

definition scheduled_rows :: "time_lib \<Rightarrow> json list \<Rightarrow> json list" where
  "scheduled_rows tm rows = filter (\<lambda>r. is_dict r \<and> jget (as_dict r) ''event'' = JStr ''schedule''
     \<and> timestamp tm (jget (as_dict r) ''created_at'') \<noteq> None) rows"

definition is_completed :: "json \<Rightarrow> bool" where
  "is_completed r = (jget (as_dict r) ''status'' = JStr ''completed'')"

text \<open>\<open>max(rows, key=...)\<close>: the first of the largest.\<close>

fun max_first :: "('a \<Rightarrow> int) \<Rightarrow> 'a \<Rightarrow> 'a list \<Rightarrow> 'a" where
  "max_first key best [] = best"
| "max_first key best (x # xs) = max_first key (if key best < key x then x else best) xs"

definition type_text :: "json \<Rightarrow> string" where
  "type_text v = ''<class '' @ [CHR 0x27] @ type_name v @ [CHR 0x27] @ ''>''"

text \<open>The completed runs to judge, with the source they come from.\<close>

definition completed_runs ::
  "time_lib \<Rightarrow> (string \<Rightarrow> reading) \<Rightarrow> json list \<Rightarrow> ev \<Rightarrow> (string + json list \<times> string) \<times> ev" where
  "completed_runs tm reader scheduled =
     (let completed = filter is_completed scheduled;
          unavailable = (\<lambda>exc. bindSE (flag (watch_item ''unavailable_completed_schedule'' ''GitHub completed schedule''
             (JStr (take 200 exc)) ''valid completed schedule history'' ''schedule_completed'' ''INFO'' None))
             (\<lambda>_. returnS (completed, ''schedule'')))
      in if completed \<noteq> [] then returnS (completed, ''schedule'')
         else (case reader ''schedule_completed'' of
             DeadlineHit m \<Rightarrow> (\<lambda>s. (Inl m, s))
           | VersionFailed exc \<Rightarrow> unavailable exc
           | HttpFailed exc \<Rightarrow> unavailable exc
           | ReadFailed exc \<Rightarrow> unavailable exc
           | Read prior _ \<Rightarrow>
               (case jget prior ''workflow_runs'' of
                  JList history \<Rightarrow>
                    (let done = filter is_completed (scheduled_rows tm history)
                     in bindSE (whenS (done = []) (flag (watch_item ''no_completed_schedule'' ''GitHub completed schedule''
                          (JStr ''no completed schedule in history'') ''completed event=schedule run''
                          ''schedule_completed'' ''INFO'' None)))
                        (\<lambda>_. returnS (done, ''schedule_completed'')))
                | history \<Rightarrow>
                    bindSE (flag (watch_item ''invalid_completed_schedule_json'' ''GitHub completed schedule''
                      (JStr (type_text history)) ''workflow_runs array'' ''schedule_completed'' ''INFO'' None))
                    (\<lambda>_. returnS (completed, ''schedule'')))))"

definition latest_dict :: "json \<Rightarrow> json" where
  "latest_dict run = (let r = as_dict run in JDict [(''created_at'', jget r ''created_at''), (''id'', jget r ''id''),
     (''status'', jget r ''status''), (''conclusion'', jget r ''conclusion'')])"

definition schedule_runs :: "time_lib \<Rightarrow> int \<Rightarrow> (string \<Rightarrow> reading) \<Rightarrow> json \<Rightarrow> json list \<Rightarrow> ev \<Rightarrow> (string + unit) \<times> ev" where
  "schedule_runs tm now reader r rs =
     (let run = max_first (created_at tm) r rs; age = now - created_at tm run
      in bindSE (\<lambda>s. (Inr (), s\<lparr>ev_latest := latest_dict run\<rparr>)) (\<lambda>_.
         bindSE (if THRESHOLD \<le> age
             then flag (watch_item ''schedule_stale'' ''GitHub schedule'' (jget (as_dict run) ''created_at'')
                    ''event=schedule within 45 minutes'' ''schedule'' ''INFO'' (Some age))
             else whenS (age < - CLOCK_SKEW)
                    (flag (watch_item ''schedule_time_future'' ''GitHub schedule'' (JStr (str_int (round_seconds age)))
                      ''valid timestamp'' ''schedule'' ''INFO'' None))) (\<lambda>_.
         bindSE (completed_runs tm reader (r # rs)) (\<lambda>(completed, source).
           case completed of
             [] \<Rightarrow> returnS ()
           | c # cs \<Rightarrow>
               (let conclusion = jget (as_dict (max_first (created_at tm) c cs)) ''conclusion''
                in whenS (conclusion \<noteq> JStr ''success'')
                     (flag (watch_item ''schedule_failed'' ''GitHub scheduled check'' (JStr (py_str conclusion))
                       ''successful scheduled run'' source ''INFO'' None)))))))"

definition schedule_check :: "time_lib \<Rightarrow> int \<Rightarrow> (string \<Rightarrow> reading) \<Rightarrow> ev \<Rightarrow> (string + unit) \<times> ev" where
  "schedule_check tm now reader = bindSE (observe reader ''schedule'') (\<lambda>data.
     case data of
       None \<Rightarrow> returnS ()
     | Some d \<Rightarrow>
         (case jget d ''workflow_runs'' of
            JList rows \<Rightarrow>
              (case scheduled_rows tm rows of
                 [] \<Rightarrow> flag (watch_item ''no_schedule'' ''GitHub schedule'' (JStr ''no event=schedule'')
                          ''scheduled run within 45 minutes'' ''schedule'' ''INFO'' None)
               | r # rs \<Rightarrow> schedule_runs tm now reader r rs)
          | rows \<Rightarrow> flag (watch_item ''invalid_schedule_json'' ''GitHub schedule'' (JStr (type_text rows))
                       ''workflow_runs array'' ''schedule'' ''INFO'' None)))"

text \<open>The deadline during the optional schedule check is an issue, not an abort.\<close>

definition schedule_guarded :: "time_lib \<Rightarrow> int \<Rightarrow> (string \<Rightarrow> reading) \<Rightarrow> ev \<Rightarrow> (string + unit) \<times> ev" where
  "schedule_guarded tm now reader s = (case schedule_check tm now reader s of
     (Inl exc, s') \<Rightarrow> flag (watch_item ''schedule_deadline_exceeded'' ''GitHub schedule'' (JStr (take 160 exc))
        ''bounded optional schedule observation'' ''schedule'' ''P2'' None) s'
   | (Inr _, s') \<Rightarrow> (Inr (), s'))"

subsection \<open>The report\<close>

definition severity_of :: "json \<Rightarrow> json" where
  "severity_of item = jget (as_dict item) ''severity''"

definition code_of :: "json \<Rightarrow> json" where
  "code_of item = jget (as_dict item) ''code''"

definition has_severity :: "string \<Rightarrow> json list \<Rightarrow> bool" where
  "has_severity sev issues = list_ex (\<lambda>i. severity_of i = JStr sev) issues"

definition watch_status :: "json list \<Rightarrow> string" where
  "watch_status issues = (if has_severity ''P1'' issues then ''ALARM''
     else if has_severity ''P2'' issues then ''MONITOR_DATA_FAILURE'' else ''HEALTHY'')"

definition commits_dict :: "string option \<Rightarrow> string option \<Rightarrow> string option \<Rightarrow> dict" where
  "commits_dict frontend api main =
     (case frontend of None \<Rightarrow> [] | Some c \<Rightarrow> [(''frontend'', JStr c)]) @
     (case api of None \<Rightarrow> [] | Some c \<Rightarrow> [(''api'', JStr c)]) @
     (case main of None \<Rightarrow> [] | Some c \<Rightarrow> [(''main'', JStr c)])"

definition report_of :: "time_lib \<Rightarrow> int \<Rightarrow> dict \<Rightarrow> json \<Rightarrow> ev \<Rightarrow> (string + dict) \<times> ev" where
  "report_of tm now commits observation s = (Inr
     [(''checked_at_utc'', zulu tm now), (''status'', JStr (watch_status (ev_issues s))),
      (''commits'', JDict commits), (''main_observation'', observation),
      (''latest_schedule'', ev_latest s), (''issues'', JList (ev_issues s))], s)"

definition evaluate_steps ::
  "time_lib \<Rightarrow> int \<Rightarrow> (string \<Rightarrow> reading) \<Rightarrow> json \<Rightarrow> ev \<Rightarrow> (string + dict) \<times> ev" where
  "evaluate_steps tm now reader previous =
     bindSE (observe reader ''frontend'') (\<lambda>frontend.
     bindSE (observe reader ''api'') (\<lambda>api.
     bindSE (observed_commit ''commit'' ''frontend'' ''P1'' frontend) (\<lambda>f.
     bindSE (observed_commit ''commit'' ''api'' ''P1'' api) (\<lambda>a.
     bindSE (flag_diverge f a) (\<lambda>_.
     bindSE (observe reader ''main'') (\<lambda>main.
     bindSE (observed_commit ''sha'' ''main'' ''P2'' main) (\<lambda>m.
     bindSE (main_observation tm now previous f a m main) (\<lambda>observation.
     bindSE (schedule_guarded tm now reader) (\<lambda>_.
     report_of tm now (commits_dict f a m) observation)))))))))"

text \<open>The issues in \<open>sink\<close> come first; the second component is the sink after the call.\<close>

definition watch_evaluate ::
  "time_lib \<Rightarrow> int \<Rightarrow> (string \<Rightarrow> reading) \<Rightarrow> json \<Rightarrow> json list \<Rightarrow> (string + dict) \<times> json list" where
  "watch_evaluate tm now reader previous sink =
     (case evaluate_steps tm now reader previous \<lparr>ev_issues = sink, ev_latest = JNull\<rparr> of
        (r, s) \<Rightarrow> (r, ev_issues s))"

text \<open>What the state keeps of main when a poll could not observe it (in \<open>record\<close>).\<close>

definition keep_observation :: "json \<Rightarrow> json \<Rightarrow> json" where
  "keep_observation previous current = (if is_dict current then current else previous)"

subsection \<open>One cycle\<close>

text \<open>A stored JSON file: missing, unreadable (type and text of the OSError or decoding error), or a document.\<close>

datatype doc = Missing | Unreadable string string | Malformed string string | Doc json

definition read_previous_main_observation :: "time_lib \<Rightarrow> doc \<Rightarrow> (string \<times> string) + json" where
  "read_previous_main_observation tm file = (case file of
     Missing \<Rightarrow> Inr JNull
   | Unreadable kind text \<Rightarrow> Inl (kind, text)
   | Malformed kind text \<Rightarrow> Inl (kind, text)
   | Doc (JDict state) \<Rightarrow>
       (case jget state ''main_observation'' of
          JDict recorded \<Rightarrow>
            (case (jget recorded ''sha'', timestamp tm (jget recorded ''first_seen'')) of
               (JStr sha, Some seen) \<Rightarrow>
                 if is_commit_str sha
                 then (let raw = as_dict (jget recorded ''diverged_since'')
                       in Inr (observation_dict tm sha seen
                            (divergence_dict tm (timestamp tm (jget raw ''frontend'')) (timestamp tm (jget raw ''api'')))))
                 else Inr JNull
             | _ \<Rightarrow> Inr JNull)
        | _ \<Rightarrow> Inr JNull)
   | Doc _ \<Rightarrow> Inr JNull)"

text \<open>An exception as the reports print it.\<close>

definition exc_text :: "string \<times> string \<Rightarrow> string" where
  "exc_text exc = fst exc @ '': '' @ take 150 (snd exc)"

definition raw_item :: "string \<Rightarrow> string \<Rightarrow> string \<Rightarrow> string \<Rightarrow> string \<Rightarrow> json" where
  "raw_item code component actual expected source = JDict
     [(''code'', JStr code), (''component'', JStr component), (''actual'', JStr actual), (''expected'', JStr expected),
      (''source'', JStr source), (''severity'', JStr ''P2'')]"

definition failure_report :: "time_lib \<Rightarrow> int \<Rightarrow> string \<Rightarrow> json list \<Rightarrow> dict" where
  "failure_report tm now status issues =
     [(''checked_at_utc'', zulu tm now), (''status'', JStr status), (''commits'', JDict []),
      (''main_observation'', JNull), (''latest_schedule'', JNull), (''issues'', JList issues)]"

definition watcher_failure_item :: "string \<times> string \<Rightarrow> json" where
  "watcher_failure_item exc = raw_item ''watcher_execution_failed'' ''watcher'' (exc_text exc)
     ''bounded successful watcher observation'' ''local watcher execution''"

definition watcher_failure_report :: "time_lib \<Rightarrow> int \<Rightarrow> string \<times> string \<Rightarrow> dict" where
  "watcher_failure_report tm now exc = failure_report tm now ''MONITOR_DATA_FAILURE'' [watcher_failure_item exc]"

text \<open>\<open>[item for item in issues if isinstance(item, dict) and item.get("severity") == "P1"]\<close>.\<close>

definition p1_items :: "json list \<Rightarrow> json list" where
  "p1_items issues = filter (\<lambda>i. is_dict i \<and> severity_of i = JStr ''P1'') issues"

text \<open>A failure report that keeps the P1 issues already confirmed.\<close>

definition failure_with_p1 :: "time_lib \<Rightarrow> int \<Rightarrow> string \<times> string \<Rightarrow> json list \<Rightarrow> dict" where
  "failure_with_p1 tm now exc p1 = failure_report tm now (if p1 = [] then ''MONITOR_DATA_FAILURE'' else ''ALARM'')
     (watcher_failure_item exc # p1)"

definition evaluate_cycle :: "time_lib \<Rightarrow> int \<Rightarrow> (string \<Rightarrow> reading) \<Rightarrow> string \<Rightarrow> doc \<Rightarrow> dict" where
  "evaluate_cycle tm now reader state_path state_file =
     (let (previous, sink) = (case read_previous_main_observation tm state_file of
             Inr p \<Rightarrow> (p, [])
           | Inl exc \<Rightarrow> (JNull, [raw_item ''unverifiable_state'' ''watcher previous incident state'' (exc_text exc)
                ''readable prior state.json'' state_path]))
      in case watch_evaluate tm now reader previous sink of
           (Inr report, _) \<Rightarrow> report
         | (Inl m, issues) \<Rightarrow> failure_with_p1 tm now (''WatchRuntimeExceeded'', m) (p1_items issues))"



subsection \<open>What a step adds to the issues\<close>

lemma bindSE_returnS [simp]: "bindSE m returnS = m"
  by (rule ext) (simp add: bindSE_def returnS_def split: prod.splits sum.splits)

lemma flag_simp: "flag item s = (Inr (), s\<lparr>ev_issues := ev_issues s @ [item]\<rparr>)"
  by (simp add: flag_def)

lemma severity_watch_item [simp]: "severity_of (watch_item c k a x src sev d) = JStr sev"
  by (simp add: severity_of_def watch_item_def jget_def dict_get_def)

lemma code_watch_item [simp]: "code_of (watch_item c k a x src sev d) = JStr c"
  by (simp add: code_of_def watch_item_def jget_def dict_get_def)

lemma is_dict_watch_item [simp]: "is_dict (watch_item c k a x src sev d)"
  by (simp add: watch_item_def)

lemma has_severity_append [simp]: "has_severity sev (xs @ ys) \<longleftrightarrow> has_severity sev xs \<or> has_severity sev ys"
  by (simp add: has_severity_def)

lemma has_severity_Nil [simp]: "\<not> has_severity sev []"
  by (simp add: has_severity_def)

lemma has_severity_Cons [simp]: "has_severity sev (x # xs) \<longleftrightarrow> severity_of x = JStr sev \<or> has_severity sev xs"
  by (simp add: has_severity_def)

text \<open>A state without P1 and P2 issues.\<close>

definition clean :: "ev \<Rightarrow> bool" where
  "clean s = (\<not> has_severity ''P1'' (ev_issues s) \<and> \<not> has_severity ''P2'' (ev_issues s))"

text \<open>
  A step yields a value cleanly when it returns and leaves no P1 or P2 issue.  No step removes issues, so
  a sequence yields cleanly exactly when each of its steps does.
\<close>

definition yields :: "(ev \<Rightarrow> (string + 'a) \<times> ev) \<Rightarrow> ev \<Rightarrow> 'a \<Rightarrow> ev \<Rightarrow> bool" where
  "yields m s x s' = (m s = (Inr x, s') \<and> clean s')"

definition appends :: "(ev \<Rightarrow> (string + 'a) \<times> ev) \<Rightarrow> bool" where
  "appends m = (\<forall>s. set (ev_issues s) \<subseteq> set (ev_issues (snd (m s))))"

definition informs :: "(ev \<Rightarrow> (string + 'a) \<times> ev) \<Rightarrow> bool" where
  "informs m = (\<forall>s. clean (snd (m s)) = clean s)"

lemma appends_bindSE [intro]:
  assumes "appends m" and "\<And>x. appends (f x)"
  shows "appends (bindSE m f)"
proof -
  have "set (ev_issues s) \<subseteq> set (ev_issues (snd (bindSE m f s)))" for s
  proof (cases "m s")
    case (Pair r s')
    with assms(1) have "set (ev_issues s) \<subseteq> set (ev_issues s')" by (metis appends_def snd_conv)
    with assms(2) Pair show ?thesis by (cases r) (auto simp: bindSE_def appends_def)
  qed
  then show ?thesis by (simp add: appends_def)
qed

lemma clean_subset: "clean s' \<Longrightarrow> set (ev_issues s) \<subseteq> set (ev_issues s') \<Longrightarrow> clean s"
  by (auto simp: clean_def has_severity_def list_ex_iff)

lemma informs_bindSE [intro]:
  assumes "informs m" and "\<And>x. informs (f x)"
  shows "informs (bindSE m f)"
proof -
  have "clean (snd (bindSE m f s)) = clean s" for s
  proof (cases "m s")
    case (Pair r s')
    with assms(1) have "clean s' = clean s" by (metis informs_def snd_conv)
    with assms(2) Pair show ?thesis by (cases r) (simp_all add: bindSE_def informs_def)
  qed
  then show ?thesis by (simp add: informs_def)
qed

lemma informs_basic [intro]:
  "informs (returnS x)" "informs (flag (watch_item c k a e src ''INFO'' d))" "informs m \<Longrightarrow> informs (whenS b m)"
  "informs (\<lambda>s. (Inl e, s))" "informs (\<lambda>s. (Inr (), s\<lparr>ev_latest := l\<rparr>))"
  by (simp_all add: informs_def returnS_def flag_def whenS_def clean_def)

lemma appends_basic [intro]:
  "appends (returnS x)" "appends (flag item)" "appends (\<lambda>s. (Inl e, s))" "appends (report_of tm now c ob)"
  "appends (\<lambda>s. (Inr (), s\<lparr>ev_latest := l\<rparr>))"
  by (auto simp: appends_def returnS_def flag_def report_of_def)

lemma appends_whenS [intro]: "appends m \<Longrightarrow> appends (whenS b m)"
  by (simp add: appends_def whenS_def)

lemma yields_bindSE:
  assumes "\<And>x. appends (f x)"
  shows "yields (bindSE m f) s y s'' \<longleftrightarrow> (\<exists>x s'. yields m s x s' \<and> yields (f x) s' y s'')"
proof -
  have "clean s'" if "f x s' = (Inr y, s'')" "clean s''" for x s'
    using assms [of x] that by (metis clean_subset appends_def snd_conv)
  then show ?thesis by (auto simp: yields_def bindSE_Inr)
qed

lemma yields_returnS [simp]: "yields (returnS x) s y s' \<longleftrightarrow> y = x \<and> s' = s \<and> clean s"
  by (auto simp: yields_def returnS_def)

lemma yields_flag [simp]:
  "sev \<in> {''P1'', ''P2''} \<Longrightarrow> \<not> yields (flag (watch_item c k a e src sev d)) s y s'"
  by (auto simp: yields_def flag_def clean_def)

lemma yields_whenS [simp]: "yields (whenS b m) s y s' \<longleftrightarrow> (if b then yields m s y s' else s' = s \<and> clean s)"
  by (auto simp: yields_def whenS_def)

lemma yields_raise [simp]: "\<not> yields (\<lambda>s. (Inl e, s)) s y s'"
  by (simp add: yields_def)

subsection \<open>When a poll is healthy\<close>

lemma yields_observe:
  assumes "name \<noteq> ''schedule''"
  shows "yields (observe reader name) s x s' \<longleftrightarrow>
    clean s \<and> s' = s \<and> (\<exists>d h. reader name = Read d h \<and> x = Some d \<and> (name = ''frontend'' \<longrightarrow> no_store h))"
proof (cases "reader name")
  case (Read d h)
  then show ?thesis by (auto simp: observe_def yields_bindSE appends_basic appends_whenS)
qed (use assms in \<open>simp_all add: observe_def yields_bindSE appends_basic appends_whenS\<close>)

lemma yields_observed_commit:
  assumes "severity \<in> {''P1'', ''P2''}"
  shows "yields (observed_commit key name severity (Some d)) s x s' \<longleftrightarrow>
    clean s \<and> s' = s \<and> (\<exists>c. jget d key = JStr c \<and> is_commit_str c \<and> x = Some c)"
  using assms
  by (auto simp: observed_commit_def yields_bindSE appends_basic appends_whenS Let_def split: json.splits if_splits)

lemma yields_flag_diverge: "yields (flag_diverge (Some f) (Some a)) s u s' \<longleftrightarrow> clean s \<and> s' = s \<and> f = a"
  by (auto simp: flag_diverge_def)

text \<open>The time a mismatch of a component is counted from.\<close>

definition anchor_of :: "time_lib \<Rightarrow> int \<Rightarrow> json \<Rightarrow> string \<Rightarrow> string \<Rightarrow> int" where
  "anchor_of tm now previous main name =
     (case timestamp tm (jget (prior_divergence previous) name) of
        Some t \<Rightarrow> if t \<le> now then t else first_seen_at tm now previous main
      | None \<Rightarrow> first_seen_at tm now previous main)"

lemma yields_divergence_step:
  "yields (divergence_step tm now (first_seen_at tm now previous m) previous name (Some c) m) s x s' \<longleftrightarrow>
    clean s \<and> s' = s \<and> (if c = m then x = None
       else x = Some (anchor_of tm now previous m name) \<and> now - anchor_of tm now previous m name < THRESHOLD)"
  by (auto simp: divergence_step_def anchor_of_def yields_bindSE appends_basic appends_whenS Let_def split: option.splits if_splits)

definition main_time_ok :: "time_lib \<Rightarrow> int \<Rightarrow> dict \<Rightarrow> bool" where
  "main_time_ok tm now data = (jget data ''observation_transport'' = JStr ''git_https'' \<or>
     (case timestamp tm (jget (as_dict (jget (as_dict (jget data ''commit'')) ''committer'')) ''date'') of
        None \<Rightarrow> False | Some t \<Rightarrow> t \<le> now + CLOCK_SKEW))"

lemma yields_check_main_time:
  "yields (check_main_time tm now data) s u s' \<longleftrightarrow> clean s \<and> s' = s \<and> main_time_ok tm now data"
  by (auto simp: check_main_time_def main_time_ok_def Let_def split: option.splits if_splits)

lemma appends_steps [intro]:
  "appends (observe reader name)" "appends (observed_commit key name sev data)" "appends (flag_diverge f a)"
  "appends (divergence_step tm now t previous name c m)" "appends (check_main_time tm now d)"
  unfolding observe_def observed_commit_def flag_diverge_def divergence_step_def check_main_time_def Let_def
  by (auto intro!: appends_bindSE appends_basic appends_whenS split: reading.splits option.splits json.splits)

lemma appends_main_observation [intro]: "appends (main_observation tm now previous f a m data)"
  unfolding main_observation_def Let_def by (auto split: option.splits)

lemma appends_completed [intro]: "appends (completed_runs tm reader rs)"
  unfolding completed_runs_def Let_def
  by (auto intro!: appends_bindSE appends_basic appends_whenS split: reading.splits json.splits)

lemma appends_runs [intro]: "appends (schedule_runs tm now reader r rs)"
  unfolding schedule_runs_def Let_def
  by (auto intro!: appends_bindSE appends_basic appends_whenS appends_completed split: list.splits)

lemma appends_check [intro]: "appends (schedule_check tm now reader)"
  unfolding schedule_check_def
  by (auto intro!: appends_bindSE appends_basic appends_steps appends_runs split: list.splits option.splits json.splits)

lemma appends_schedule_guarded [intro]: "appends (schedule_guarded tm now reader)"
proof -
  have "set (ev_issues s) \<subseteq> set (ev_issues (snd (schedule_guarded tm now reader s)))" for s
  proof (cases "schedule_check tm now reader s")
    case (Pair r s')
    moreover have "set (ev_issues s) \<subseteq> set (ev_issues s')"
      using appends_check [of tm now reader] Pair by (metis appends_def snd_conv)
    ultimately show ?thesis by (cases r) (auto simp: schedule_guarded_def flag_def)
  qed
  then show ?thesis by (simp add: appends_def)
qed

text \<open>The schedule check only informs, as its endpoint never counts as the product.\<close>

definition product_failed :: "reading \<Rightarrow> bool" where
  "product_failed r = (case r of VersionFailed _ \<Rightarrow> True | HttpFailed _ \<Rightarrow> True | _ \<Rightarrow> False)"

lemma fetch_product_failed: "name \<notin> set PRODUCT \<Longrightarrow> \<not> product_failed (fetch decode name answers gits)"
  by (auto simp: fetch_def product_failed_def split: try_result.splits)

lemma informs_completed [intro]: "informs (completed_runs tm reader rs)"
  unfolding completed_runs_def Let_def by (auto split: reading.splits json.splits)

lemma informs_runs [intro]: "informs (schedule_runs tm now reader r rs)"
  unfolding schedule_runs_def Let_def
  by (auto intro!: informs_bindSE informs_basic informs_completed split: list.splits)

lemma informs_observe_schedule:
  assumes "\<not> product_failed (reader ''schedule'')"
  shows "informs (observe reader ''schedule'')"
proof (cases "reader ''schedule''")
  case (Read d h)
  then show ?thesis by (simp add: observe_def informs_def bindSE_def whenS_def returnS_def)
qed (use assms in \<open>auto simp: observe_def product_failed_def\<close>)

lemma informs_check:
  assumes "\<not> product_failed (reader ''schedule'')"
  shows "informs (schedule_check tm now reader)"
  unfolding schedule_check_def
  by (intro informs_bindSE informs_observe_schedule [of reader, OF assms]) (auto split: list.splits option.splits json.splits)

lemma yields_schedule_guarded:
  assumes "\<not> product_failed (reader ''schedule'')"
  shows "(\<exists>s'. yields (schedule_guarded tm now reader) s () s') \<longleftrightarrow>
    clean s \<and> \<not> isl (fst (schedule_check tm now reader s))"
proof (cases "schedule_check tm now reader s")
  case (Pair r s')
  have "informs (schedule_check tm now reader)" by (rule informs_check) (rule assms)
  with Pair have "clean s' = clean s" by (metis informs_def snd_conv)
  with Pair show ?thesis by (cases r) (auto simp: yields_def schedule_guarded_def flag_def clean_def)
qed

lemma report_status:
  "report_of tm now c ob s = (Inr r, s') \<Longrightarrow> jget r ''status'' = JStr ''HEALTHY'' \<longleftrightarrow> clean s'"
  by (auto simp: report_of_def jget_def dict_get_def watch_status_def clean_def split: if_splits)

lemma yields_main_observation:
  "yields (main_observation tm now previous (Some c) (Some c) (Some m) (Some d)) s ob s' \<longleftrightarrow>
    clean s \<and> s' = s \<and> main_time_ok tm now d \<and>
    (c = m \<or> now - anchor_of tm now previous m ''frontend'' < THRESHOLD \<and> now - anchor_of tm now previous m ''api'' < THRESHOLD) \<and>
    ob = observation_dict tm m (first_seen_at tm now previous m) (divergence_dict tm
      (if c = m then None else Some (anchor_of tm now previous m ''frontend''))
      (if c = m then None else Some (anchor_of tm now previous m ''api'')))"
  by (auto simp: main_observation_def Let_def yields_bindSE appends_basic appends_steps appends_bindSE
      yields_divergence_step yields_check_main_time)

definition returns_clean :: "(ev \<Rightarrow> (string + 'a) \<times> ev) \<Rightarrow> ev \<Rightarrow> bool" where
  "returns_clean m s = (\<exists>x s'. yields m s x s')"

lemma returns_clean_bindSE:
  "(\<And>x. appends (f x)) \<Longrightarrow> returns_clean (bindSE m f) s \<longleftrightarrow> (\<exists>x s'. yields m s x s' \<and> returns_clean (f x) s')"
  by (auto simp: returns_clean_def yields_bindSE)

lemma returns_clean_report:
  assumes "\<not> product_failed (reader ''schedule'')"
  shows "(\<exists>s'. yields (schedule_guarded tm now reader) s () s' \<and> returns_clean (report_of tm now cs ob) s') \<longleftrightarrow>
    clean s \<and> \<not> isl (fst (schedule_check tm now reader s))"
proof -
  have "returns_clean (report_of tm now cs ob) s' \<longleftrightarrow> clean s'" for s'
    by (simp add: returns_clean_def yields_def report_of_def)
  then have "(\<exists>s'. yields (schedule_guarded tm now reader) s () s' \<and> returns_clean (report_of tm now cs ob) s') \<longleftrightarrow>
      (\<exists>s'. yields (schedule_guarded tm now reader) s () s')"
    by (auto simp: yields_def)
  also have "\<dots> \<longleftrightarrow> clean s \<and> \<not> isl (fst (schedule_check tm now reader s))"
    by (rule yields_schedule_guarded) (rule assms)
  finally show ?thesis .
qed

lemmas appends_rules = appends_schedule_guarded appends_basic appends_whenS appends_steps appends_main_observation appends_bindSE

lemma evaluate_steps_healthy:
  assumes sched: "\<not> product_failed (reader ''schedule'')"
  shows "(\<exists>report s'. evaluate_steps tm now reader previous s = (Inr report, s') \<and> jget report ''status'' = JStr ''HEALTHY'') \<longleftrightarrow>
    clean s \<and> (\<exists>df hf da ha dm hm c m. reader ''frontend'' = Read df hf \<and> no_store hf \<and> jget df ''commit'' = JStr c \<and> is_commit_str c
      \<and> reader ''api'' = Read da ha \<and> jget da ''commit'' = JStr c
      \<and> reader ''main'' = Read dm hm \<and> jget dm ''sha'' = JStr m \<and> is_commit_str m \<and> main_time_ok tm now dm
      \<and> (c = m \<or> now - anchor_of tm now previous m ''frontend'' < THRESHOLD \<and> now - anchor_of tm now previous m ''api'' < THRESHOLD)
      \<and> \<not> isl (fst (schedule_check tm now reader s)))"
    (is "?L \<longleftrightarrow> ?R")
proof -
  have "?L \<longleftrightarrow> returns_clean (evaluate_steps tm now reader previous) s"
    by (auto simp: evaluate_steps_def bindSE_Inr yields_def returns_clean_def dest: report_status)
  also have "\<dots> \<longleftrightarrow> ?R"
    by (auto simp: evaluate_steps_def returns_clean_bindSE appends_rules sched returns_clean_report
      yields_observe yields_observed_commit yields_flag_diverge yields_main_observation simp del: split_paired_Ex)
  finally show ?thesis .
qed

lemma watch_evaluate_returns:
  "(\<exists>report issues. watch_evaluate tm now reader previous sink = (Inr report, issues) \<and> P report) \<longleftrightarrow>
   (\<exists>report s'. evaluate_steps tm now reader previous \<lparr>ev_issues = sink, ev_latest = JNull\<rparr> = (Inr report, s') \<and> P report)"
  by (auto simp: watch_evaluate_def split: prod.splits)

text \<open>
  C15. A poll is reported healthy exactly when both production endpoints were read with one and the same
  valid commit and the frontend forbids caching, main was read with a valid commit and a believable commit
  time, production is at main or its mismatch with main has been known for less than 45 minutes, and the
  optional schedule check did not run into the deadline; there is no healthy report without evidence and
  no alarm on a sound production.
\<close>

theorem watch_healthy_iff:
  "(\<exists>report issues. watch_evaluate tm now (watch_reader decode net) previous [] = (Inr report, issues)
      \<and> jget report ''status'' = JStr ''HEALTHY'') \<longleftrightarrow>
   (\<exists>df hf da ha dm hm c m.
      watch_reader decode net ''frontend'' = Read df hf \<and> no_store hf \<and> jget df ''commit'' = JStr c \<and> is_commit_str c
      \<and> watch_reader decode net ''api'' = Read da ha \<and> jget da ''commit'' = JStr c
      \<and> watch_reader decode net ''main'' = Read dm hm \<and> jget dm ''sha'' = JStr m \<and> is_commit_str m \<and> main_time_ok tm now dm
      \<and> (c = m \<or> now - anchor_of tm now previous m ''frontend'' < THRESHOLD \<and> now - anchor_of tm now previous m ''api'' < THRESHOLD)
      \<and> \<not> isl (fst (schedule_check tm now (watch_reader decode net) \<lparr>ev_issues = [], ev_latest = JNull\<rparr>)))"
proof -
  have "\<not> product_failed (watch_reader decode net ''schedule'')"
    by (simp add: watch_reader_def fetch_product_failed PRODUCT_def)
  from evaluate_steps_healthy [of "watch_reader decode net", OF this, of tm now previous "\<lparr>ev_issues = [], ev_latest = JNull\<rparr>"]
  show ?thesis unfolding watch_evaluate_returns by (simp add: clean_def)
qed

end
