(* ===== verification/Watch_Stale.thy ===== *)
theory Watch_Stale
  imports Watch_Eval
begin

text \<open>
  Staleness across polls of \<open>src/scripts/ops/independent_production_watch.py\<close>: how the observation of
  main that the state keeps anchors an unresolved mismatch, over any number of polls.  The step relation
  \<open>behind\<close> follows a component that no poll has seen at main; rule induction shows that its anchor never
  moves past the first poll that saw the mismatch.
\<close>

subsection \<open>The clock of an unresolved mismatch\<close>

text \<open>The commit a report names for an endpoint.\<close>

definition report_commit :: "dict \<Rightarrow> string \<Rightarrow> string option" where
  "report_commit report name = (case jget (as_dict (jget report ''commits'')) name of JStr c \<Rightarrow> Some c | _ \<Rightarrow> None)"

definition mismatch :: "string \<Rightarrow> dict \<Rightarrow> bool" where
  "mismatch name report = (report_commit report name \<noteq> None \<and> report_commit report ''main'' \<noteq> None
     \<and> report_commit report name \<noteq> report_commit report ''main'')"

definition converged :: "string \<Rightarrow> dict \<Rightarrow> bool" where
  "converged name report = (report_commit report name \<noteq> None \<and> report_commit report name = report_commit report ''main'')"

text \<open>
  \<open>behind tm name since latest stored\<close>: a component was seen behind main at \<open>since\<close>, no poll up to \<open>latest\<close> saw it
  at main, and \<open>stored\<close> is the observation the state keeps. Main may have moved any number of times, and
  polls may have read neither endpoint or been cut short.
\<close>

inductive behind :: "time_lib \<Rightarrow> string \<Rightarrow> int \<Rightarrow> int \<Rightarrow> json \<Rightarrow> bool" for tm name where
  seen: "watch_evaluate tm now reader previous sink = (Inr report, issues) \<Longrightarrow> mismatch name report \<Longrightarrow>
    behind tm name now now (jget report ''main_observation'')"
| polled: "behind tm name since latest stored \<Longrightarrow> latest \<le> now \<Longrightarrow>
    read_previous_main_observation tm (Doc (JDict state)) = Inr previous \<Longrightarrow> jget state ''main_observation'' = stored \<Longrightarrow>
    watch_evaluate tm now reader previous sink = (Inr report, issues) \<Longrightarrow> \<not> converged name report \<Longrightarrow>
    behind tm name since now (keep_observation stored (jget report ''main_observation''))"
| aborted: "behind tm name since latest stored \<Longrightarrow> latest \<le> now \<Longrightarrow> behind tm name since now stored"

definition kept_anchor :: "time_lib \<Rightarrow> int \<Rightarrow> json \<Rightarrow> string \<Rightarrow> string \<Rightarrow> string option \<Rightarrow> int option" where
  "kept_anchor tm now previous main name commit = (case commit of
     None \<Rightarrow> (case timestamp tm (jget (prior_divergence previous) name) of
               Some t \<Rightarrow> if t \<le> now then Some t else None | None \<Rightarrow> None)
   | Some c \<Rightarrow> if c = main then None else Some (anchor_of tm now previous main name))"

definition stale_item :: "time_lib \<Rightarrow> int \<Rightarrow> json \<Rightarrow> string \<Rightarrow> string \<Rightarrow> string \<Rightarrow> json" where
  "stale_item tm now previous main name c =
     watch_item (''stale_'' @ name) name (JStr c) main name ''P1'' (Some (now - anchor_of tm now previous main name))"

lemma divergence_step_returns:
  "\<exists>s'. divergence_step tm now (first_seen_at tm now previous m) previous name commit m s =
      (Inr (kept_anchor tm now previous m name commit), s')
    \<and> (\<forall>c. commit = Some c \<longrightarrow> c \<noteq> m \<longrightarrow> THRESHOLD \<le> now - anchor_of tm now previous m name \<longrightarrow>
         stale_item tm now previous m name c \<in> set (ev_issues s'))"
  by (auto simp: divergence_step_def kept_anchor_def anchor_of_def stale_item_def bindSE_def whenS_def flag_def
      returnS_def Let_def split: option.splits)

lemma appends_run: "appends m \<Longrightarrow> m s = (r, s') \<Longrightarrow> set (ev_issues s) \<subseteq> set (ev_issues s')"
  by (metis appends_def snd_conv)

lemma main_observation_returns:
  assumes "main_observation tm now previous f a (Some m) d s = (Inr ob, s')"
  shows "ob = observation_dict tm m (first_seen_at tm now previous m) (divergence_dict tm
      (kept_anchor tm now previous m ''frontend'' f) (kept_anchor tm now previous m ''api'' a))"
    and "f = Some c \<Longrightarrow> c \<noteq> m \<Longrightarrow> THRESHOLD \<le> now - anchor_of tm now previous m ''frontend'' \<Longrightarrow>
      stale_item tm now previous m ''frontend'' c \<in> set (ev_issues s')"
    and "a = Some c \<Longrightarrow> c \<noteq> m \<Longrightarrow> THRESHOLD \<le> now - anchor_of tm now previous m ''api'' \<Longrightarrow>
      stale_item tm now previous m ''api'' c \<in> set (ev_issues s')"
proof -
  obtain s1 where s1: "divergence_step tm now (first_seen_at tm now previous m) previous ''frontend'' f m s =
      (Inr (kept_anchor tm now previous m ''frontend'' f), s1)"
    and f: "\<forall>c. f = Some c \<longrightarrow> c \<noteq> m \<longrightarrow> THRESHOLD \<le> now - anchor_of tm now previous m ''frontend'' \<longrightarrow>
         stale_item tm now previous m ''frontend'' c \<in> set (ev_issues s1)"
    using divergence_step_returns by meson
  obtain s2 where s2: "divergence_step tm now (first_seen_at tm now previous m) previous ''api'' a m s1 =
      (Inr (kept_anchor tm now previous m ''api'' a), s2)"
    and a: "\<forall>c. a = Some c \<longrightarrow> c \<noteq> m \<longrightarrow> THRESHOLD \<le> now - anchor_of tm now previous m ''api'' \<longrightarrow>
         stale_item tm now previous m ''api'' c \<in> set (ev_issues s2)"
    using divergence_step_returns by meson
  obtain r s3 where s3: "check_main_time tm now (case d of Some d \<Rightarrow> d | None \<Rightarrow> []) s2 = (r, s3)" by fastforce
  have r: "r = Inr ()" using s3 by (auto simp: check_main_time_def whenS_def flag_def Let_def split: if_splits)
  note st = s1 s2 s3 [unfolded r]
  have ob: "ob = observation_dict tm m (first_seen_at tm now previous m) (divergence_dict tm
      (kept_anchor tm now previous m ''frontend'' f) (kept_anchor tm now previous m ''api'' a))" and "s3 = s'"
    using assms by (simp_all add: main_observation_def Let_def bindSE_def returnS_def st)
  then show "ob = observation_dict tm m (first_seen_at tm now previous m) (divergence_dict tm
      (kept_anchor tm now previous m ''frontend'' f) (kept_anchor tm now previous m ''api'' a))" by simp
  have sub: "set (ev_issues s1) \<subseteq> set (ev_issues s2)" "set (ev_issues s2) \<subseteq> set (ev_issues s')"
    using appends_run [OF appends_steps(4) s2] appends_run [OF appends_steps(5) s3] \<open>s3 = s'\<close> by simp_all
  show "f = Some c \<Longrightarrow> c \<noteq> m \<Longrightarrow> THRESHOLD \<le> now - anchor_of tm now previous m ''frontend'' \<Longrightarrow>
      stale_item tm now previous m ''frontend'' c \<in> set (ev_issues s')" using f sub by blast
  show "a = Some c \<Longrightarrow> c \<noteq> m \<Longrightarrow> THRESHOLD \<le> now - anchor_of tm now previous m ''api'' \<Longrightarrow>
      stale_item tm now previous m ''api'' c \<in> set (ev_issues s')" using a sub by blast
qed

lemma watch_evaluate_Inr:
  assumes "watch_evaluate tm now reader previous sink = (Inr report, issues)"
  obtains s f a d m s1 ob s2 s3 s4 where
    "observed_commit ''sha'' ''main'' ''P2'' d s = (Inr m, s1)" "main_observation tm now previous f a m d s1 = (Inr ob, s2)"
    "schedule_guarded tm now reader s2 = (Inr (), s3)"
    "report_of tm now (commits_dict f a m) ob s3 = (Inr report, s4)" "issues = ev_issues s4"
proof -
  obtain s4 where s4: "evaluate_steps tm now reader previous \<lparr>ev_issues = sink, ev_latest = JNull\<rparr> = (Inr report, s4)" "issues = ev_issues s4"
    using assms by (auto simp: watch_evaluate_def split: prod.splits)
  from s4(1) show thesis
    unfolding evaluate_steps_def bindSE_Inr using s4(2) that by (elim exE conjE) simp
qed

lemma commits_dict_get:
  "jget (commits_dict f a m) ''frontend'' = (case f of None \<Rightarrow> JNull | Some c \<Rightarrow> JStr c)"
  "jget (commits_dict f a m) ''api'' = (case a of None \<Rightarrow> JNull | Some c \<Rightarrow> JStr c)"
  "jget (commits_dict f a m) ''main'' = (case m of None \<Rightarrow> JNull | Some c \<Rightarrow> JStr c)"
  by (auto simp: commits_dict_def jget_def dict_get_def split: option.splits)

lemma report_fields:
  assumes "report_of tm now commits ob s = (Inr report, s')"
  shows "jget report ''commits'' = JDict commits" "jget report ''issues'' = JList (ev_issues s')"
    "jget report ''status'' = JStr (watch_status (ev_issues s'))" "jget report ''main_observation'' = ob"
    "jget report ''checked_at_utc'' = zulu tm now"
  using assms by (auto simp: report_of_def jget_def dict_get_def)

definition pick :: "string \<Rightarrow> 'a \<Rightarrow> 'a \<Rightarrow> 'a" where
  "pick name x y = (if name = ''frontend'' then x else y)"

text \<open>The observation a returned report carries and the staleness it must raise.\<close>

lemma evaluate_observation:
  assumes "watch_evaluate tm now reader previous sink = (Inr report, issues)"
  shows "\<exists>f a m. report_commit report ''frontend'' = f \<and> report_commit report ''api'' = a \<and> report_commit report ''main'' = m
    \<and> jget report ''issues'' = JList issues \<and> jget report ''status'' = JStr (watch_status issues)
    \<and> (case m of None \<Rightarrow> jget report ''main_observation'' = JNull
       | Some m \<Rightarrow> is_commit_str m \<and> jget report ''main_observation'' = observation_dict tm m (first_seen_at tm now previous m)
           (divergence_dict tm (kept_anchor tm now previous m ''frontend'' f) (kept_anchor tm now previous m ''api'' a))
         \<and> (\<forall>name \<in> {''frontend'', ''api''}. \<forall>c. pick name f a = Some c \<longrightarrow> c \<noteq> m \<longrightarrow>
              THRESHOLD \<le> now - anchor_of tm now previous m name \<longrightarrow> stale_item tm now previous m name c \<in> set issues))"
proof -
  from assms obtain s f a d m s1 ob s2 s3 s4 where
    m: "observed_commit ''sha'' ''main'' ''P2'' d s = (Inr m, s1)"
    and ob: "main_observation tm now previous f a m d s1 = (Inr ob, s2)"
    and sched: "schedule_guarded tm now reader s2 = (Inr (), s3)"
    and rep: "report_of tm now (commits_dict f a m) ob s3 = (Inr report, s4)" and issues: "issues = ev_issues s4"
    by (elim watch_evaluate_Inr)
  have sub: "set (ev_issues s2) \<subseteq> set issues"
    using appends_run [OF appends_schedule_guarded sched] rep issues by (auto simp: report_of_def)
  have commit: "is_commit_str c" if "m = Some c" for c
    using m that by (auto simp: observed_commit_def Let_def returnS_def bindSE_def flag_def split: option.splits json.splits if_splits)
  have fields: "report_commit report ''frontend'' = f" "report_commit report ''api'' = a" "report_commit report ''main'' = m"
    "jget report ''issues'' = JList issues" "jget report ''status'' = JStr (watch_status issues)"
    "jget report ''main_observation'' = ob"
    using report_fields [OF rep] issues by (simp_all add: report_commit_def commits_dict_get split: option.split)
  show ?thesis
  proof (cases m)
    case None
    with ob have "ob = JNull" by (simp add: main_observation_def returnS_def)
    with None fields show ?thesis by simp
  next
    case (Some c)
    note main = main_observation_returns [OF ob [unfolded Some]]
    have "stale_item tm now previous c name x \<in> set issues"
      if "name \<in> {''frontend'', ''api''}" "pick name f a = Some x" "x \<noteq> c" "THRESHOLD \<le> now - anchor_of tm now previous c name" for name x
      using main(2,3) [of x] that sub by (auto simp: pick_def)
    with Some fields main(1) commit show ?thesis by simp
  qed
qed

text \<open>An observation that was stored is read back as it is, when times survive printing and parsing.\<close>

lemma observation_dict_get:
  "jget (as_dict (observation_dict tm sha t d)) ''sha'' = JStr sha"
  "jget (as_dict (observation_dict tm sha t d)) ''first_seen'' = zulu tm t"
  "as_dict (jget (as_dict (observation_dict tm sha t d)) ''diverged_since'') = d"
  by (auto simp: observation_dict_def jget_def dict_get_def)

lemma divergence_dict_get:
  "jget (divergence_dict tm df da) ''frontend'' = (case df of None \<Rightarrow> JNull | Some t \<Rightarrow> zulu tm t)"
  "jget (divergence_dict tm df da) ''api'' = (case da of None \<Rightarrow> JNull | Some t \<Rightarrow> zulu tm t)"
  by (auto simp: divergence_dict_def jget_def dict_get_def split: option.splits)

lemma timestamp_JNull [simp]: "timestamp tm JNull = None"
  by (simp add: timestamp_def)

lemma divergence_dict_timestamp:
  assumes "\<And>t. timestamp tm (zulu tm t) = Some t"
  shows "timestamp tm (jget (divergence_dict tm df da) ''frontend'') = df"
    "timestamp tm (jget (divergence_dict tm df da) ''api'') = da"
  by (simp_all add: divergence_dict_get assms split: option.split)

lemma read_previous_stored:
  assumes tm: "\<And>t. timestamp tm (zulu tm t) = Some t"
    and "jget state ''main_observation'' = observation_dict tm sha t (divergence_dict tm df da)" and "is_commit_str sha"
  shows "read_previous_main_observation tm (Doc (JDict state)) = Inr (observation_dict tm sha t (divergence_dict tm df da))"
proof -
  obtain rec where rec: "observation_dict tm sha t (divergence_dict tm df da) = JDict rec"
    by (simp add: observation_dict_def)
  have "jget rec ''sha'' = JStr sha" "jget rec ''first_seen'' = zulu tm t"
    "as_dict (jget rec ''diverged_since'') = divergence_dict tm df da"
    using observation_dict_get [of tm sha t "divergence_dict tm df da"] by (simp_all add: rec)
  then show ?thesis
    using assms(2,3) by (simp add: read_previous_main_observation_def rec tm divergence_dict_timestamp Let_def)
qed

lemma first_seen_le: "first_seen_at tm now previous m \<le> now"
  by (auto simp: first_seen_at_def split: json.splits option.splits)

lemma anchor_le: "anchor_of tm now previous m name \<le> now"
  using first_seen_le by (auto simp: anchor_of_def split: option.splits)

text \<open>The recorded time of a mismatch is never later than the poll that saw it first.\<close>

definition anchored :: "time_lib \<Rightarrow> string \<Rightarrow> int \<Rightarrow> json \<Rightarrow> bool" where
  "anchored tm name since stored = (\<exists>sha t df da t0. stored = observation_dict tm sha t (divergence_dict tm df da)
     \<and> is_commit_str sha \<and> pick name df da = Some t0 \<and> t0 \<le> since)"

lemma anchored_previous:
  assumes tm: "\<And>t. timestamp tm (zulu tm t) = Some t" and name: "name \<in> {''frontend'', ''api''}"
    and "anchored tm name since stored" and "jget state ''main_observation'' = stored"
    and "read_previous_main_observation tm (Doc (JDict state)) = Inr previous"
  obtains t0 where "timestamp tm (jget (prior_divergence previous) name) = Some t0" "t0 \<le> since"
proof -
  from assms(3) obtain sha t df da t0 where st: "stored = observation_dict tm sha t (divergence_dict tm df da)"
    and sha: "is_commit_str sha" and t0: "pick name df da = Some t0" "t0 \<le> since" by (auto simp: anchored_def)
  have "previous = stored" using read_previous_stored [OF tm _ sha] assms(4,5) st by simp
  then have "prior_divergence previous = divergence_dict tm df da"
    by (simp add: st prior_divergence_def observation_dict_get)
  with name t0 show thesis using that by (auto simp: pick_def divergence_dict_timestamp tm)
qed

lemma anchored_report:
  assumes ev: "watch_evaluate tm now reader previous sink = (Inr report, issues)" and name: "name \<in> {''frontend'', ''api''}"
    and main: "report_commit report ''main'' = Some m"
    and kept: "kept_anchor tm now previous m name (report_commit report name) = Some t0" "t0 \<le> since"
  shows "anchored tm name since (jget report ''main_observation'')"
proof -
  from evaluate_observation [OF ev] main have "is_commit_str m" and
    "jget report ''main_observation'' = observation_dict tm m (first_seen_at tm now previous m) (divergence_dict tm
      (kept_anchor tm now previous m ''frontend'' (report_commit report ''frontend''))
      (kept_anchor tm now previous m ''api'' (report_commit report ''api'')))" by auto
  moreover have "pick name (kept_anchor tm now previous m ''frontend'' (report_commit report ''frontend''))
      (kept_anchor tm now previous m ''api'' (report_commit report ''api'')) = Some t0"
    using kept name by (auto simp: pick_def)
  ultimately show ?thesis using kept(2) unfolding anchored_def by blast
qed

lemma is_dict_observation: "watch_evaluate tm now reader previous sink = (Inr report, issues) \<Longrightarrow>
    is_dict (jget report ''main_observation'') \<longleftrightarrow> report_commit report ''main'' \<noteq> None"
  using evaluate_observation [of tm now reader previous sink report issues]
  by (auto simp: observation_dict_def split: option.splits)

lemma behind_anchored:
  assumes tm: "\<And>t. timestamp tm (zulu tm t) = Some t" and name: "name \<in> {''frontend'', ''api''}"
  shows "behind tm name since latest stored \<Longrightarrow> since \<le> latest \<and> anchored tm name since stored"
proof (induction rule: behind.induct)
  case (seen now reader previous sink report issues)
  then obtain c m where "report_commit report name = Some c" "report_commit report ''main'' = Some m" "c \<noteq> m"
    by (auto simp: mismatch_def)
  then show ?case
    using anchored_report [OF seen(1) name, of m _ now] anchor_le by (simp add: kept_anchor_def)
next
  case (polled since latest stored now state previous reader sink report issues)
  obtain t0 where t0: "timestamp tm (jget (prior_divergence previous) name) = Some t0" "t0 \<le> since"
    using anchored_previous [OF tm name _ polled(4,3)] polled.IH by blast
  show ?case
  proof (cases "report_commit report ''main''")
    case None
    then show ?thesis using polled is_dict_observation [OF polled(5)] by (simp add: keep_observation_def)
  next
    case (Some m)
    have "t0 \<le> now" using t0(2) polled by simp
    then have "kept_anchor tm now previous m name (report_commit report name) = Some t0"
      using polled(6) Some t0(1) by (auto simp: kept_anchor_def anchor_of_def converged_def split: option.splits)
    then have "anchored tm name since (jget report ''main_observation'')"
      by (rule anchored_report [OF polled(5) name Some]) (rule t0)
    with Some polled is_dict_observation [OF polled(5)] show ?thesis by (simp add: keep_observation_def)
  qed
qed simp

text \<open>
  C4. A component that stays behind main is raised in time: once a poll has seen it at another commit than
  main, and no later poll saw it at main, then however often main moved and however many polls were cut
  short or could not read it, every poll at least 45 minutes later that sees the mismatch returns an alarm
  with the staleness issue of the component, provided times survive printing and parsing.
\<close>

theorem stale_despite_main_moves:
  assumes tm: "\<And>t. timestamp tm (zulu tm t) = Some t" and name: "name \<in> {''frontend'', ''api''}"
    and run: "behind tm name since latest (jget state ''main_observation'')" "latest \<le> now"
    and prev: "read_previous_main_observation tm (Doc (JDict state)) = Inr previous"
    and ev: "watch_evaluate tm now reader previous sink = (Inr report, issues)"
    and mis: "mismatch name report" and late: "since + THRESHOLD \<le> now"
  shows "jget report ''status'' = JStr ''ALARM'' \<and>
    (\<exists>i. i \<in> set issues \<and> code_of i = JStr (''stale_'' @ name) \<and> severity_of i = JStr ''P1'')"
proof -
  from behind_anchored [OF tm name run(1)] have "anchored tm name since (jget state ''main_observation'')" "since \<le> latest" by auto
  from anchored_previous [OF tm name this(1) refl prev] obtain t0
    where t0: "timestamp tm (jget (prior_divergence previous) name) = Some t0" "t0 \<le> since" .
  with \<open>since \<le> latest\<close> run(2) have "t0 \<le> now" by simp
  from mis obtain c m where c: "report_commit report name = Some c" "report_commit report ''main'' = Some m" "c \<noteq> m"
    by (auto simp: mismatch_def)
  have "anchor_of tm now previous m name = t0" using t0(1) \<open>t0 \<le> now\<close> by (simp add: anchor_of_def)
  with late t0(2) have "THRESHOLD \<le> now - anchor_of tm now previous m name" by simp
  moreover have "pick name (report_commit report ''frontend'') (report_commit report ''api'') = Some c"
    using c(1) name by (auto simp: pick_def)
  ultimately have st: "stale_item tm now previous m name c \<in> set issues"
    and status: "jget report ''status'' = JStr (watch_status issues)"
    using evaluate_observation [OF ev] c(2,3) name by auto
  from st have "has_severity ''P1'' issues" unfolding has_severity_def list_ex_iff
    by (rule bexI [rotated]) (simp add: stale_item_def)
  with st status show ?thesis by (auto simp: watch_status_def stale_item_def intro!: exI [of _ "stale_item tm now previous m name c"])
qed

text \<open>A time library that prints and parses binary digits, and endpoints at given commits.\<close>

function demo_bits :: "int \<Rightarrow> string" where
  "demo_bits n = (if n \<le> 0 then [] else (if n mod 2 = 0 then CHR ''0'' else CHR ''1'') # demo_bits (n div 2))"
  by auto
termination by (relation "measure nat") auto

declare demo_bits.simps [simp del]

fun demo_value :: "string \<Rightarrow> int" where
  "demo_value [] = 0" | "demo_value (c # cs) = (if c = CHR ''1'' then 1 else 0) + 2 * demo_value cs"

definition demo_time :: time_lib where
  "demo_time = \<lparr>fromisoformat = (\<lambda>s. Some (if s \<noteq> [] \<and> hd s = CHR ''-'' then - demo_value (tl s) else demo_value s)),
     isoformat = (\<lambda>t. if t < 0 then CHR ''-'' # demo_bits (- t) else demo_bits t), seconds_text = (\<lambda>_. [])\<rparr>"

lemma demo_value_bits: "0 \<le> n \<Longrightarrow> demo_value (demo_bits n) = n"
proof (induction n rule: demo_bits.induct)
  case (1 n)
  then show ?case by (subst demo_bits.simps) (auto, presburger+)
qed

lemma demo_bits_chars: "set (demo_bits n) \<subseteq> {CHR ''0'', CHR ''1''}"
proof (induction n rule: demo_bits.induct)
  case (1 n)
  then show ?case by (subst demo_bits.simps) auto
qed

lemma replace_all_fresh: "c \<notin> set s \<Longrightarrow> replace_all (c # cs) new s = s"
  by (induction s) (subst replace_all.simps, auto simp: starts_with_def)+

lemma demo_time_roundtrip: "timestamp demo_time (zulu demo_time t) = Some t"
proof -
  have "set (isoformat demo_time t) \<subseteq> {CHR ''0'', CHR ''1'', CHR ''-''}"
    using demo_bits_chars [of t] demo_bits_chars [of "- t"] by (auto simp: demo_time_def)
  then have "CHR ''+'' \<notin> set (isoformat demo_time t)" "CHR ''Z'' \<notin> set (isoformat demo_time t)" by auto
  then have "timestamp demo_time (zulu demo_time t) = fromisoformat demo_time (isoformat demo_time t)"
    by (simp add: timestamp_def zulu_def replace_all_fresh)
  moreover have "\<not> (demo_bits t \<noteq> [] \<and> hd (demo_bits t) = CHR ''-'')"
    using demo_bits_chars [of t] by (cases "demo_bits t") auto
  then have "fromisoformat demo_time (demo_bits t) = Some (demo_value (demo_bits t))" by (auto simp: demo_time_def)
  moreover have "fromisoformat demo_time (CHR ''-'' # demo_bits (- t)) = Some (- demo_value (demo_bits (- t)))"
    by (simp add: demo_time_def)
  moreover have "isoformat demo_time t = (if t < 0 then CHR ''-'' # demo_bits (- t) else demo_bits t)" by (simp add: demo_time_def)
  ultimately show ?thesis by (cases "t < 0") (simp_all add: demo_value_bits)
qed

definition demo_sha :: "char \<Rightarrow> string" where
  "demo_sha c = replicate 40 c"

definition demo_reader :: "char \<Rightarrow> char \<Rightarrow> string \<Rightarrow> reading" where
  "demo_reader product main name =
     (if name = ''main'' then Read [(''sha'', JStr (demo_sha main)), (''observation_transport'', JStr ''git_https'')] []
      else if name \<in> {''frontend'', ''api''} then Read [(''commit'', JStr (demo_sha product))] ''no-store''
      else ReadFailed ''quota'')"

definition demo_poll :: "int \<Rightarrow> char \<Rightarrow> json \<Rightarrow> (string + dict) \<times> json list" where
  "demo_poll now main previous = watch_evaluate demo_time now (demo_reader CHR ''a'' main) previous []"

definition demo_report :: "int \<Rightarrow> char \<Rightarrow> json \<Rightarrow> dict" where
  "demo_report now main previous = projr (fst (demo_poll now main previous))"

text \<open>The observation kept at \<open>t\<close> of main at a commit, when both components were first seen behind at 0.\<close>

definition demo_seen :: "int \<Rightarrow> char \<Rightarrow> json" where
  "demo_seen t main = observation_dict demo_time (demo_sha main) t (divergence_dict demo_time (Some 0) (Some 0))"

lemma demo_poll_eq:
  "\<not> isl (fst (demo_poll now main previous)) \<Longrightarrow>
   watch_evaluate demo_time now (demo_reader CHR ''a'' main) previous [] = (Inr (demo_report now main previous), snd (demo_poll now main previous))"
  by (cases "demo_poll now main previous") (auto simp: demo_report_def demo_poll_def)

lemma demo_read:
  "is_commit_str (demo_sha main) \<Longrightarrow>
   read_previous_main_observation demo_time (Doc (JDict [(''main_observation'', demo_seen t main)])) = Inr (demo_seen t main)"
  unfolding demo_seen_def by (rule read_previous_stored [OF demo_time_roundtrip]) (simp_all add: jget_def dict_get_def)

lemma demo_first:
  "(case demo_poll 0 CHR ''b'' JNull of (Inr r, _) \<Rightarrow> mismatch ''frontend'' r \<and> jget r ''main_observation'' = demo_seen 0 CHR ''b'' | _ \<Rightarrow> False)"
  by code_simp

lemma demo_second:
  "(case demo_poll 1000 CHR ''c'' (demo_seen 0 CHR ''b'') of
     (Inr r, _) \<Rightarrow> \<not> converged ''frontend'' r \<and> jget r ''main_observation'' = demo_seen 1000 CHR ''c'' | _ \<Rightarrow> False)"
  by code_simp

lemma demo_third:
  "(case demo_poll THRESHOLD CHR ''d'' (demo_seen 1000 CHR ''c'') of (Inr r, _) \<Rightarrow> mismatch ''frontend'' r | _ \<Rightarrow> False)"
  by code_simp

theorem stale_despite_main_moves_witness:
  "\<exists>report issues. demo_poll THRESHOLD CHR ''d'' (demo_seen 1000 CHR ''c'') = (Inr report, issues)
    \<and> jget report ''status'' = JStr ''ALARM'' \<and> (\<exists>i. i \<in> set issues \<and> code_of i = JStr ''stale_frontend'')"
proof -
  obtain r1 i1 r2 i2 r3 i3 where polls: "demo_poll 0 CHR ''b'' JNull = (Inr r1, i1)"
      "demo_poll 1000 CHR ''c'' (demo_seen 0 CHR ''b'') = (Inr r2, i2)"
      "demo_poll THRESHOLD CHR ''d'' (demo_seen 1000 CHR ''c'') = (Inr r3, i3)"
    and r: "mismatch ''frontend'' r1" "jget r1 ''main_observation'' = demo_seen 0 CHR ''b''" "\<not> converged ''frontend'' r2"
      "jget r2 ''main_observation'' = demo_seen 1000 CHR ''c''" "mismatch ''frontend'' r3"
    using demo_first demo_second demo_third by (auto split: prod.splits sum.splits)
  note ev = polls [unfolded demo_poll_def]
  have read: "read_previous_main_observation demo_time (Doc (JDict [(''main_observation'', demo_seen 0 CHR ''b'')])) = Inr (demo_seen 0 CHR ''b'')"
    "read_previous_main_observation demo_time (Doc (JDict [(''main_observation'', demo_seen 1000 CHR ''c'')])) = Inr (demo_seen 1000 CHR ''c'')"
    by (rule demo_read, code_simp)+
  have "behind demo_time ''frontend'' 0 0 (demo_seen 0 CHR ''b'')"
    using behind.seen [OF ev(1) r(1)] by (simp add: r)
  from behind.polled [OF this _ read(1) _ ev(2) r(3)]
  have "behind demo_time ''frontend'' 0 1000 (keep_observation (demo_seen 0 CHR ''b'') (demo_seen 1000 CHR ''c''))"
    unfolding r by (simp add: jget_def dict_get_def)
  moreover have "keep_observation (demo_seen 0 CHR ''b'') (demo_seen 1000 CHR ''c'') =
      jget [(''main_observation'', demo_seen 1000 CHR ''c'')] ''main_observation''"
    by (simp add: keep_observation_def jget_def dict_get_def) (simp add: demo_seen_def observation_dict_def)
  ultimately have "behind demo_time ''frontend'' 0 1000 (jget [(''main_observation'', demo_seen 1000 CHR ''c'')] ''main_observation'')"
    by simp
  from stale_despite_main_moves [OF demo_time_roundtrip _ this _ read(2) ev(3) r(5)] polls(3)
  show ?thesis by (auto simp: THRESHOLD_def)
qed

end
