(* ===== verification/Watch_Cycle.thy ===== *)
theory Watch_Cycle
  imports Watch_Eval
begin

text \<open>
  The report of one cycle of \<open>src/scripts/ops/independent_production_watch.py\<close> (\<open>_evaluate_cycle\<close>): which P1
  issues it carries, also when the deadline cuts the cycle short.  \<open>product_incidents\<close> says what the product
  readings confirm, and \<open>bounded_by\<close> bounds what the later steps can add.
\<close>

subsection \<open>The P1 issues of a cycle\<close>

definition p1_codes :: "json list \<Rightarrow> string set" where
  "p1_codes issues = {c. \<exists>i \<in> set issues. severity_of i = JStr ''P1'' \<and> code_of i = JStr c}"

text \<open>
  The incidents the two product readings confirm by themselves: an endpoint that failed twice, a frontend
  that allows caching and two valid commits that differ. The second endpoint is not read, and commits are
  not compared, when the deadline strikes before.
\<close>

definition reading_incidents :: "string \<Rightarrow> reading \<Rightarrow> string set" where
  "reading_incidents name r = (case r of
     VersionFailed _ \<Rightarrow> {''invalid_commit_'' @ name}
   | HttpFailed _ \<Rightarrow> {''unavailable_'' @ name}
   | Read d h \<Rightarrow> (if name = ''frontend'' \<and> \<not> no_store h then {''frontend_cache''} else {})
   | _ \<Rightarrow> {})"

definition is_deadline :: "reading \<Rightarrow> bool" where
  "is_deadline r = (case r of DeadlineHit _ \<Rightarrow> True | _ \<Rightarrow> False)"

definition differ :: "reading \<Rightarrow> reading \<Rightarrow> bool" where
  "differ f a = (case (f, a) of (Read df _, Read da _) \<Rightarrow> jget df ''commit'' \<noteq> jget da ''commit'' | _ \<Rightarrow> False)"

definition product_incidents :: "(string \<Rightarrow> reading) \<Rightarrow> string set" where
  "product_incidents reader = reading_incidents ''frontend'' (reader ''frontend'') \<union>
     (if is_deadline (reader ''frontend'') then {}
      else reading_incidents ''api'' (reader ''api'') \<union>
        (if differ (reader ''frontend'') (reader ''api'') then {''frontend_api_diverge''} else {}))"

lemma p1_codes_append [simp]: "p1_codes (xs @ ys) = p1_codes xs \<union> p1_codes ys"
  by (auto simp: p1_codes_def)

lemma p1_codes_item [simp]: "p1_codes [watch_item c k a e src sev d] = (if sev = ''P1'' then {c} else {})"
  by (auto simp: p1_codes_def)

text \<open>A step that adds at most the P1 codes \<open>B\<close>.\<close>

definition bounded_by :: "string set \<Rightarrow> (ev \<Rightarrow> (string + 'a) \<times> ev) \<Rightarrow> bool" where
  "bounded_by B m = (\<forall>s. p1_codes (ev_issues s) \<subseteq> p1_codes (ev_issues (snd (m s)))
     \<and> p1_codes (ev_issues (snd (m s))) \<subseteq> p1_codes (ev_issues s) \<union> B)"

lemma bounded_bindSE:
  assumes "bounded_by B m" and "\<And>x. bounded_by B (f x)"
  shows "bounded_by B (bindSE m f)"
  unfolding bounded_by_def
proof
  fix s
  obtain r s' where ms: "m s = (r, s')" by fastforce
  have 1: "p1_codes (ev_issues s) \<subseteq> p1_codes (ev_issues s')" "p1_codes (ev_issues s') \<subseteq> p1_codes (ev_issues s) \<union> B"
    using assms(1) ms by (metis bounded_by_def snd_conv)+
  have 2: "p1_codes (ev_issues s') \<subseteq> p1_codes (ev_issues (snd (f x s')))"
    "p1_codes (ev_issues (snd (f x s'))) \<subseteq> p1_codes (ev_issues s') \<union> B" for x
    using assms(2) by (simp_all add: bounded_by_def)
  show "p1_codes (ev_issues s) \<subseteq> p1_codes (ev_issues (snd (bindSE m f s))) \<and>
      p1_codes (ev_issues (snd (bindSE m f s))) \<subseteq> p1_codes (ev_issues s) \<union> B"
  proof (cases r)
    case (Inl e)
    with 1 ms show ?thesis by (simp add: bindSE_def)
  next
    case (Inr x)
    then have "bindSE m f s = f x s'" by (simp add: bindSE_def ms)
    with 1 2 [of x] show ?thesis by (metis (no_types, opaque_lifting) order_trans sup.assoc sup.idem sup_mono order_refl)
  qed
qed

lemma bounded_basic:
  "bounded_by B (returnS x)" "bounded_by B (\<lambda>s. (Inl e, s))" "bounded_by B (\<lambda>s. (Inr (), s\<lparr>ev_latest := l\<rparr>))"
  "bounded_by B (report_of tm now c ob)"
  by (auto simp: bounded_by_def returnS_def report_of_def)

lemma bounded_flag: "sev = ''P1'' \<longrightarrow> c \<in> B \<Longrightarrow> bounded_by B (flag (watch_item c k a e src sev d))"
  by (auto simp: bounded_by_def flag_def)

lemma bounded_whenS: "(b \<Longrightarrow> bounded_by B m) \<Longrightarrow> bounded_by B (whenS b m)"
  by (auto simp: bounded_by_def whenS_def)

lemmas bounded_intros = bounded_bindSE bounded_basic bounded_flag bounded_whenS

lemma bounded_observe:
  assumes "\<not> product_failed (reader name)" "name \<noteq> ''frontend''"
  shows "bounded_by B (observe reader name)"
  using assms by (cases "reader name") (auto simp: observe_def product_failed_def intro!: bounded_intros)

lemma bounded_commit: "bounded_by B (observed_commit key name ''P2'' d)"
  unfolding observed_commit_def Let_def by (auto intro!: bounded_intros split: option.split json.split)

lemma bounded_divergence: "''stale_'' @ name \<in> B \<Longrightarrow> bounded_by B (divergence_step tm now t previous name c m)"
  unfolding divergence_step_def Let_def by (cases c) (auto intro!: bounded_intros)

lemma bounded_main_time: "bounded_by B (check_main_time tm now d)"
  unfolding check_main_time_def Let_def by (intro bounded_intros) simp

lemma bounded_main: "bounded_by {''stale_frontend'', ''stale_api''} (main_observation tm now previous f a m data)"
  unfolding main_observation_def Let_def
  by (cases m) (simp_all add: bounded_basic bounded_bindSE bounded_divergence bounded_main_time)

lemma bounded_completed: "bounded_by B (completed_runs tm reader rs)"
  unfolding completed_runs_def Let_def by (auto intro!: bounded_intros split: reading.splits json.splits)

lemma bounded_runs: "bounded_by B (schedule_runs tm now reader r rs)"
  unfolding schedule_runs_def Let_def by (auto intro!: bounded_intros bounded_completed split: list.splits)

lemma bounded_schedule:
  assumes "\<not> product_failed (reader ''schedule'')"
  shows "bounded_by B (schedule_guarded tm now reader)"
proof -
  have "bounded_by B (observe reader ''schedule'')" by (rule bounded_observe) (use assms in auto)
  then have w: "bounded_by B (schedule_check tm now reader)" unfolding schedule_check_def
    by (auto intro!: bounded_intros bounded_runs split: list.splits option.splits json.splits)
  show ?thesis unfolding bounded_by_def
  proof
    fix s
    obtain r s' where "schedule_check tm now reader s = (r, s')" by fastforce
    moreover from this w have "p1_codes (ev_issues s) \<subseteq> p1_codes (ev_issues s')" "p1_codes (ev_issues s') \<subseteq> p1_codes (ev_issues s) \<union> B"
      by (metis bounded_by_def snd_conv)+
    ultimately show "p1_codes (ev_issues s) \<subseteq> p1_codes (ev_issues (snd (schedule_guarded tm now reader s))) \<and>
        p1_codes (ev_issues (snd (schedule_guarded tm now reader s))) \<subseteq> p1_codes (ev_issues s) \<union> B"
      by (cases r) (simp_all add: schedule_guarded_def flag_def)
  qed
qed

text \<open>The part of a poll after the product readings.\<close>

definition after_product ::
  "time_lib \<Rightarrow> int \<Rightarrow> (string \<Rightarrow> reading) \<Rightarrow> json \<Rightarrow> string option \<Rightarrow> string option \<Rightarrow> ev \<Rightarrow> (string + dict) \<times> ev" where
  "after_product tm now reader previous f a =
     bindSE (observe reader ''main'') (\<lambda>main.
     bindSE (observed_commit ''sha'' ''main'' ''P2'' main) (\<lambda>m.
     bindSE (main_observation tm now previous f a m main) (\<lambda>observation.
     bindSE (schedule_guarded tm now reader) (\<lambda>_.
     report_of tm now (commits_dict f a m) observation))))"

lemma bounded_after_product:
  assumes "\<not> product_failed (reader ''main'')" "\<not> product_failed (reader ''schedule'')"
  shows "bounded_by {''stale_frontend'', ''stale_api''} (after_product tm now reader previous f a)"
  unfolding after_product_def
  by (intro bounded_bindSE bounded_observe bounded_commit bounded_main bounded_schedule bounded_basic) (use assms in simp_all)

lemma observe_incidents:
  assumes "name \<in> {''frontend'', ''api''}" "\<not> is_deadline (reader name)"
  shows "\<exists>s'. observe reader name s = (Inr (case reader name of Read d _ \<Rightarrow> Some d | _ \<Rightarrow> None), s')
    \<and> p1_codes (ev_issues s') = p1_codes (ev_issues s) \<union> reading_incidents name (reader name)"
  using assms by (cases "reader name")
    (simp_all add: is_deadline_def observe_def reading_incidents_def bindSE_def whenS_def flag_def returnS_def)

text \<open>Readers that return a product document only with a valid commit, as \<open>fetch\<close> does.\<close>

definition reading_commit :: "reading \<Rightarrow> string option" where
  "reading_commit r = (case r of Read d _ \<Rightarrow> (case jget d ''commit'' of JStr c \<Rightarrow> Some c | _ \<Rightarrow> None) | _ \<Rightarrow> None)"

lemma fetch_commit:
  assumes "fetch decode name answers gits = Read d h" "name \<in> set PRODUCT"
  shows "\<exists>c. jget d ''commit'' = JStr c \<and> is_commit_str c"
proof -
  have "fetch_try decode name answer git = TryOk d h \<Longrightarrow> \<exists>c. jget d ''commit'' = JStr c \<and> is_commit_str c" for answer git
    using assms(2)
    by (auto simp: fetch_try_def Let_def PRODUCT_def split: http_answer.splits if_splits option.splits json.splits)
  then show ?thesis using assms(1) by (auto simp: fetch_def split: try_result.splits if_splits)
qed

lemma observed_commit_valid:
  assumes "\<And>d h. reader name = Read d h \<Longrightarrow> \<exists>c. jget d ''commit'' = JStr c \<and> is_commit_str c"
  shows "observed_commit ''commit'' name sev (case reader name of Read d _ \<Rightarrow> Some d | _ \<Rightarrow> None) s = (Inr (reading_commit (reader name)), s)"
proof (cases "reader name")
  case (Read d h)
  with assms obtain c where "jget d ''commit'' = JStr c" "is_commit_str c" by blast
  with Read show ?thesis by (simp add: observed_commit_def reading_commit_def returnS_def)
qed (simp_all add: observed_commit_def reading_commit_def returnS_def)

lemma flag_diverge_incidents:
  "\<exists>s'. flag_diverge f a s = (Inr (), s') \<and> p1_codes (ev_issues s') = p1_codes (ev_issues s) \<union>
     (if f \<noteq> None \<and> a \<noteq> None \<and> f \<noteq> a then {''frontend_api_diverge''} else {})"
  by (cases f; cases a) (simp_all add: flag_diverge_def returnS_def whenS_def flag_def)

lemma evaluate_steps_p1:
  assumes valid: "\<And>name d h. name \<in> {''frontend'', ''api''} \<Longrightarrow> reader name = Read d h \<Longrightarrow> \<exists>c. jget d ''commit'' = JStr c \<and> is_commit_str c"
    and quiet: "\<not> product_failed (reader ''main'')" "\<not> product_failed (reader ''schedule'')"
    and s'_def: "s' = snd (evaluate_steps tm now reader previous s)"
  shows "p1_codes (ev_issues s) \<union> product_incidents reader \<subseteq> p1_codes (ev_issues s') \<and>
    p1_codes (ev_issues s') \<subseteq> p1_codes (ev_issues s) \<union> product_incidents reader \<union> {''stale_frontend'', ''stale_api''}"
proof (cases "is_deadline (reader ''frontend'')")
  case True
  then have "s' = s" by (cases "reader ''frontend''") (simp_all add: s'_def is_deadline_def evaluate_steps_def observe_def bindSE_def)
  moreover have "product_incidents reader = {}"
    using True by (cases "reader ''frontend''") (simp_all add: is_deadline_def product_incidents_def reading_incidents_def)
  ultimately show ?thesis by auto
next
  case False
  let ?doc = "\<lambda>name. case reader name of Read d _ \<Rightarrow> Some d | _ \<Rightarrow> None"
  let ?f = "reading_commit (reader ''frontend'')" and ?a = "reading_commit (reader ''api'')"
  obtain s1 where s1: "observe reader ''frontend'' s = (Inr (?doc ''frontend''), s1)"
    "p1_codes (ev_issues s1) = p1_codes (ev_issues s) \<union> reading_incidents ''frontend'' (reader ''frontend'')"
    using observe_incidents [of "''frontend''" reader s] False by auto
  show ?thesis
  proof (cases "is_deadline (reader ''api'')")
    case True
    then have "s' = s1" by (cases "reader ''api''")
      (simp_all add: s'_def is_deadline_def evaluate_steps_def bindSE_def s1(1), simp add: observe_def)
    moreover have "product_incidents reader = reading_incidents ''frontend'' (reader ''frontend'')"
      using True False by (cases "reader ''api''"; cases "reader ''frontend''")
        (simp_all add: is_deadline_def product_incidents_def reading_incidents_def differ_def)
    ultimately show ?thesis using s1(2) by auto
  next
    case api: False
    obtain s2 where s2: "observe reader ''api'' s1 = (Inr (?doc ''api''), s2)"
      "p1_codes (ev_issues s2) = p1_codes (ev_issues s1) \<union> reading_incidents ''api'' (reader ''api'')"
      using observe_incidents [of "''api''" reader s1] api by auto
    obtain s3 where s3: "flag_diverge ?f ?a s2 = (Inr (), s3)"
      "p1_codes (ev_issues s3) = p1_codes (ev_issues s2) \<union> (if ?f \<noteq> None \<and> ?a \<noteq> None \<and> ?f \<noteq> ?a then {''frontend_api_diverge''} else {})"
      using flag_diverge_incidents by meson
    have c: "observed_commit ''commit'' ''frontend'' ''P1'' (?doc ''frontend'') s2 = (Inr ?f, s2)"
      "observed_commit ''commit'' ''api'' ''P1'' (?doc ''api'') s2 = (Inr ?a, s2)"
      by (rule observed_commit_valid; rule valid; simp)+
    have "s' = snd (after_product tm now reader previous ?f ?a s3)"
      by (simp add: s'_def evaluate_steps_def after_product_def bindSE_def s1(1) s2(1) c s3(1))
    then have "p1_codes (ev_issues s3) \<subseteq> p1_codes (ev_issues s')"
      "p1_codes (ev_issues s') \<subseteq> p1_codes (ev_issues s3) \<union> {''stale_frontend'', ''stale_api''}"
      using bounded_after_product [of reader, OF quiet, of tm now previous ?f ?a, unfolded bounded_by_def, rule_format, of s3] by simp_all
    moreover have "differ (reader ''frontend'') (reader ''api'') \<longleftrightarrow> ?f \<noteq> None \<and> ?a \<noteq> None \<and> ?f \<noteq> ?a"
      using valid [of "''frontend''"] valid [of "''api''"]
      by (cases "reader ''frontend''"; cases "reader ''api''") (auto simp: differ_def reading_commit_def)
    then have "p1_codes (ev_issues s3) = p1_codes (ev_issues s) \<union> product_incidents reader"
      using False by (simp add: s1(2) s2(2) s3(2) product_incidents_def Un_assoc)
    ultimately show ?thesis by simp
  qed
qed

lemma p1_codes_p1_items [simp]: "p1_codes (p1_items issues) = p1_codes issues"
proof -
  have "is_dict i" if "severity_of i = JStr ''P1''" for i using that by (cases i) (auto simp: severity_of_def)
  then show ?thesis by (auto simp: p1_codes_def p1_items_def)
qed

lemma raw_item_codes [simp]: "p1_codes (raw_item c k a e src # is) = p1_codes is" "severity_of (raw_item c k a e src) = JStr ''P2''"
  by (auto simp: p1_codes_def raw_item_def severity_of_def jget_def dict_get_def)

lemma failure_report_fields:
  "jget (failure_report tm now st issues) ''issues'' = JList issues" "jget (failure_report tm now st issues) ''status'' = JStr st"
  by (simp_all add: failure_report_def jget_def dict_get_def)

lemma has_severity_p1_items: "has_severity ''P1'' (p1_items issues) \<longleftrightarrow> p1_items issues \<noteq> []"
  by (auto simp: has_severity_def p1_items_def list_ex_iff filter_empty_conv)

text \<open>
  C14. A cycle reports what it confirmed: whatever the state file holds and wherever the deadline strikes,
  the P1 issues of the report other than staleness are exactly the incidents the product readings confirm,
  and the status is an alarm exactly when the report has a P1 issue.
\<close>

theorem cycle_reports_confirmed:
  "\<exists>report issues. evaluate_cycle tm now (watch_reader decode net) path file = report \<and> jget report ''issues'' = JList issues
    \<and> p1_codes issues - {''stale_frontend'', ''stale_api''} = product_incidents (watch_reader decode net)
    \<and> (jget report ''status'' = JStr ''ALARM'' \<longleftrightarrow> has_severity ''P1'' issues)"
proof -
  let ?R = "watch_reader decode net"
  define report where report_def: "report = evaluate_cycle tm now ?R path file"
  obtain previous sink where ps: "report = (case watch_evaluate tm now ?R previous sink of
       (Inr r, _) \<Rightarrow> r | (Inl m, issues) \<Rightarrow> failure_with_p1 tm now (''WatchRuntimeExceeded'', m) (p1_items issues))"
    and sink: "p1_codes sink = {}"
    by (cases "read_previous_main_observation tm file") (auto simp: report_def evaluate_cycle_def p1_codes_def)
  obtain r s' where ev: "evaluate_steps tm now ?R previous \<lparr>ev_issues = sink, ev_latest = JNull\<rparr> = (r, s')" by fastforce
  have valid: "\<exists>c. jget d ''commit'' = JStr c \<and> is_commit_str c" if "name \<in> {''frontend'', ''api''}" "?R name = Read d h" for name d h
    using that fetch_commit [of decode name] by (auto simp: watch_reader_def PRODUCT_def)
  have quiet: "\<not> product_failed (?R ''main'')" "\<not> product_failed (?R ''schedule'')"
    by (simp_all add: watch_reader_def PRODUCT_def fetch_product_failed)
  have "product_incidents ?R \<subseteq> p1_codes (ev_issues s')"
    "p1_codes (ev_issues s') \<subseteq> product_incidents ?R \<union> {''stale_frontend'', ''stale_api''}"
    using evaluate_steps_p1 [of ?R s' tm now previous "\<lparr>ev_issues = sink, ev_latest = JNull\<rparr>", OF valid quiet] by (simp_all add: ev sink)
  then have "p1_codes (ev_issues s') - {''stale_frontend'', ''stale_api''} = product_incidents ?R - {''stale_frontend'', ''stale_api''}"
    by blast
  also have "\<dots> = product_incidents ?R"
    by (cases "?R ''frontend''"; cases "?R ''api''") (auto simp: product_incidents_def reading_incidents_def)
  finally have codes: "p1_codes (ev_issues s') - {''stale_frontend'', ''stale_api''} = product_incidents ?R" .
  have "\<exists>issues. jget report ''issues'' = JList issues
    \<and> p1_codes issues - {''stale_frontend'', ''stale_api''} = product_incidents ?R
    \<and> (jget report ''status'' = JStr ''ALARM'' \<longleftrightarrow> has_severity ''P1'' issues)"
  proof (cases r)
    case (Inl m)
    then have "report = failure_with_p1 tm now (''WatchRuntimeExceeded'', m) (p1_items (ev_issues s'))"
      using ps ev by (simp add: watch_evaluate_def)
    then show ?thesis
      using codes has_severity_p1_items [of "ev_issues s'"]
      by (auto simp: failure_with_p1_def failure_report_fields watcher_failure_item_def)
  next
    case (Inr rep)
    then have rep: "report = rep" using ps ev by (simp add: watch_evaluate_def)
    obtain commits ob s where "report_of tm now commits ob s = (Inr rep, s')"
      using ev Inr by (auto simp: evaluate_steps_def bindSE_Inr)
    then show ?thesis
      using codes rep by (auto simp: report_of_def jget_def dict_get_def watch_status_def split: if_splits)
  qed
  then show ?thesis using report_def by blast
qed

end
