(* ===== verification/Watch_Journal.thy ===== *)
theory Watch_Journal
  imports Watch_Eval
begin

text \<open>
  \<open>src/scripts/ops/independent_production_watch.py\<close>, durable part: the transition outbox
  (\<open>_pending_transition_entries\<close>), the append-only event journal (\<open>_transition_already_journaled\<close>,
  \<open>_last_journaled_transition\<close>, \<open>_last_complete_journal_offset\<close>, \<open>_append_durable_events\<close>), the recovery
  rebuilt after a lost state (\<open>_verified_lost_state_recovery\<close>), \<open>write_json\<close> and \<open>_observation_admitted\<close>.

  The state directory is the record \<open>watch_fs\<close>: the two JSON files, the bytes of \<open>events.jsonl\<close>, and the
  faults the coming system calls meet, in order, none when the list is used up.  A system call may fail
  before or after its effect, and a write may be short.  An exception is a pair of its type and its text;
  \<open>WatchRuntimeExceeded\<close> is the deadline signal.
\<close>

subsection \<open>The state directory\<close>

type_synonym exc = "string \<times> string"

datatype fault = NoFault | Short nat | RaiseAfter nat exc

record watch_fs =
  fs_state :: doc
  fs_heartbeat :: doc
  fs_events :: "string option"
  fs_faults :: "fault list"

type_synonym 'a fs_run = "watch_fs \<Rightarrow> (exc + 'a) \<times> watch_fs"

definition returnF :: "'a \<Rightarrow> 'a fs_run" where
  "returnF x fs = (Inr x, fs)"

definition raiseF :: "exc \<Rightarrow> 'a fs_run" where
  "raiseF e fs = (Inl e, fs)"

definition liftF :: "exc + 'a \<Rightarrow> 'a fs_run" where
  "liftF r fs = (r, fs)"

definition next_fault :: "watch_fs \<Rightarrow> fault \<times> watch_fs" where
  "next_fault fs = (case fs_faults fs of [] \<Rightarrow> (NoFault, fs) | f # rest \<Rightarrow> (f, fs\<lparr>fs_faults := rest\<rparr>))"

text \<open>A system call with an effect on the directory.\<close>

definition syscall :: "(watch_fs \<Rightarrow> watch_fs) \<Rightarrow> unit fs_run" where
  "syscall effect fs = (case next_fault fs of
     (RaiseAfter n e, fs') \<Rightarrow> (Inl e, if n = 0 then fs' else effect fs')
   | (_, fs') \<Rightarrow> (Inr (), effect fs'))"

text \<open>\<open>fsync\<close> of a file or of the directory.\<close>

definition fsync :: "unit fs_run" where
  "fsync = syscall (\<lambda>fs. fs)"

datatype json_file = StateFile | HeartbeatFile

definition put_doc :: "json_file \<Rightarrow> doc \<Rightarrow> watch_fs \<Rightarrow> watch_fs" where
  "put_doc file d fs = (case file of StateFile \<Rightarrow> fs\<lparr>fs_state := d\<rparr> | HeartbeatFile \<Rightarrow> fs\<lparr>fs_heartbeat := d\<rparr>)"

definition get_doc :: "json_file \<Rightarrow> watch_fs \<Rightarrow> doc" where
  "get_doc file fs = (case file of StateFile \<Rightarrow> fs_state fs | HeartbeatFile \<Rightarrow> fs_heartbeat fs)"

text \<open>What a reader gets back of a value written with sorted keys.\<close>

fun sort_keys :: "json \<Rightarrow> json" where
  "sort_keys (JList xs) = JList (map sort_keys xs)"
| "sort_keys (JDict d) = JDict (sort_key fst (map (\<lambda>(k, v). (k, sort_keys v)) d))"
| "sort_keys v = v"

text \<open>The temporary file is written and synced, then renamed, then the directory is synced.\<close>

definition write_json :: "json_file \<Rightarrow> json \<Rightarrow> unit fs_run" where
  "write_json file value =
     bindSE fsync (\<lambda>_. bindSE (syscall (put_doc file (Doc (sort_keys value)))) (\<lambda>_. fsync))"

subsection \<open>JSON text\<close>

text \<open>\<open>json.dumps\<close> with sorted keys and ASCII output, for an item and a key separator.\<close>

definition ascii_char :: "char \<Rightarrow> string" where
  "ascii_char c = (let n = of_char c :: nat in
     if n = 34 \<or> n = 92 then [CHR 0x5C, c]
     else if n = 10 then [CHR 0x5C, CHR ''n'']
     else if n = 13 then [CHR 0x5C, CHR ''r'']
     else if n = 9 then [CHR 0x5C, CHR ''t'']
     else if n = 8 then [CHR 0x5C, CHR ''b'']
     else if n = 12 then [CHR 0x5C, CHR ''f'']
     else if n < 32 \<or> 126 < n then [CHR 0x5C, CHR ''u'', CHR ''0'', CHR ''0'', hex_digit (n div 16), hex_digit (n mod 16)]
     else [c])"

definition ascii_str :: "string \<Rightarrow> string" where
  "ascii_str s = [CHR 0x22] @ concat (map ascii_char s) @ [CHR 0x22]"

fun dumps_sorted :: "string \<Rightarrow> string \<Rightarrow> json \<Rightarrow> string" where
  "dumps_sorted isep ksep JNull = ''null''"
| "dumps_sorted isep ksep (JBool b) = (if b then ''true'' else ''false'')"
| "dumps_sorted isep ksep (JInt i) = str_int i"
| "dumps_sorted isep ksep (JFloat f t) = (case f of Fin _ \<Rightarrow> t | PosInf \<Rightarrow> ''Infinity'' | NegInf \<Rightarrow> ''-Infinity'' | NaN \<Rightarrow> ''NaN'')"
| "dumps_sorted isep ksep (JStr s) = ascii_str s"
| "dumps_sorted isep ksep (JList xs) = ''['' @ join isep (map (dumps_sorted isep ksep) xs) @ '']''"
| "dumps_sorted isep ksep (JDict d) =
     ''{'' @ join isep (map snd (sort_key fst (map (\<lambda>(k, v). (k, ascii_str k @ ksep @ dumps_sorted isep ksep v)) d))) @ ''}''"

abbreviation dumps_default :: "json \<Rightarrow> string" where
  "dumps_default \<equiv> dumps_sorted '', '' '': ''"

abbreviation dumps_compact :: "json \<Rightarrow> string" where
  "dumps_compact \<equiv> dumps_sorted '','' '':''"

definition newline :: char where
  "newline = CHR 0x0A"

text \<open>The journal line of an event.\<close>

definition event_line :: "json \<Rightarrow> string" where
  "event_line event = dumps_compact event @ [newline]"

subsection \<open>The outbox\<close>

definition OUTBOX_NORMAL_LIMIT :: nat where
  "OUTBOX_NORMAL_LIMIT = 16"

definition OUTBOX_SURGE_LIMIT :: nat where
  "OUTBOX_SURGE_LIMIT = OUTBOX_NORMAL_LIMIT + 1"

definition OUTBOX_MAX_BYTES :: int where
  "OUTBOX_MAX_BYTES = 8 * 1024 * 1024"

definition OUTBOX_ADMISSION_RESERVE :: int where
  "OUTBOX_ADMISSION_RESERVE = 2 * 65536"

definition unhashable :: "json \<Rightarrow> bool" where
  "unhashable v = (is_list v \<or> is_dict v)"

text \<open>\<open>value in {...}\<close> for a set of strings: a list or a dictionary raises.\<close>

definition in_strings :: "json \<Rightarrow> string list \<Rightarrow> exc + bool" where
  "in_strings v ss = (if unhashable v then Inl (''TypeError'', ''unhashable type: '' @ [CHR 0x27] @ type_name v @ [CHR 0x27])
     else Inr (case v of JStr s \<Rightarrow> s \<in> set ss | _ \<Rightarrow> False))"

definition entry_event :: "json \<Rightarrow> json" where
  "entry_event e = jget (as_dict e) ''event''"

definition entry_payload :: "json \<Rightarrow> dict" where
  "entry_payload e = as_dict (jget (as_dict e) ''payload'')"

definition list_or_empty :: "json \<Rightarrow> json list" where
  "list_or_empty v = (case v of JList xs \<Rightarrow> xs | _ \<Rightarrow> [])"

text \<open>The P1 issues of a payload that carry a code.\<close>

definition coded_p1 :: "json list \<Rightarrow> json list" where
  "coded_p1 issues = filter (\<lambda>i. is_dict i \<and> severity_of i = JStr ''P1''
     \<and> (case code_of i of JStr c \<Rightarrow> c \<noteq> [] | _ \<Rightarrow> False)) issues"

definition malformed_entry :: exc where
  "malformed_entry = (''ValueError'', ''malformed pending transition entry'')"

definition invalid_payload :: exc where
  "invalid_payload = (''ValueError'', ''invalid pending transition payload'')"

text \<open>The checks of one outbox entry; \<open>overflow\<close> says that it comes from the continuation.\<close>

definition check_entry :: "time_lib \<Rightarrow> bool \<Rightarrow> json \<Rightarrow> exc + unit" where
  "check_entry tm overflow e = (case e of
     JDict d \<Rightarrow>
       if set (dict_keys d) \<noteq> {''event'', ''payload''} then Inl malformed_entry
       else let payload = entry_payload e in
         bindE (in_strings (entry_event e) [''ALARM'', ''RECOVERY'']) (\<lambda>known.
         bindE (guardE (known \<and> is_dict (jget d ''payload'') \<and> py_eq (jget payload ''event'') (entry_event e)) invalid_payload) (\<lambda>_.
         bindE (in_strings (jget payload ''status'') [''ALARM'', ''HEALTHY'', ''MONITOR_DATA_FAILURE'']) (\<lambda>known.
         bindE (guardE (known \<and> timestamp tm (jget payload ''checked_at_utc'') \<noteq> None
                  \<and> is_list (jget payload ''issues'')
                  \<and> int (length (dumps_default (JDict payload))) \<le> 65536) invalid_payload) (\<lambda>_.
           let p1 = coded_p1 (list_or_empty (jget payload ''issues'')); status = jget payload ''status'' in
           if \<not> overflow then Inr ()
           else if entry_event e = JStr ''ALARM'' \<and> (status \<noteq> JStr ''ALARM'' \<or> p1 = [])
           then Inl (''ValueError'', ''invalid overflow ALARM evidence'')
           else if entry_event e = JStr ''RECOVERY'' \<and> (status = JStr ''ALARM'' \<or> p1 \<noteq> [])
           then Inl (''ValueError'', ''invalid overflow RECOVERY evidence'')
           else Inr ()))))
   | _ \<Rightarrow> Inl malformed_entry)"

definition entry_bytes :: "json \<Rightarrow> int" where
  "entry_bytes e = int (length (dumps_compact e)) + 1"

fun check_entries :: "time_lib \<Rightarrow> nat \<Rightarrow> int \<Rightarrow> json list \<Rightarrow> json list \<Rightarrow> exc + json list" where
  "check_entries tm normal used validated [] = Inr validated"
| "check_entries tm normal used validated (e # es) =
     bindE (check_entry tm (normal = 0) e) (\<lambda>_.
       let used = used + entry_bytes e in
       if used > OUTBOX_MAX_BYTES then Inl (''ValueError'', ''pending outbox exceeds byte budget'')
       else check_entries tm (normal - 1) used (if py_in e validated then validated else validated @ [e]) es)"

definition pending_transition_entries :: "time_lib \<Rightarrow> json \<Rightarrow> exc + json list" where
  "pending_transition_entries tm snapshot = (case snapshot of
     JDict d \<Rightarrow>
       (case get_or d ''pending_transitions'' (JList []) of
          JList entries \<Rightarrow>
            if length entries > OUTBOX_SURGE_LIMIT then Inl (''ValueError'', ''malformed pending transition outbox'')
            else (case get_or d ''pending_surge_overflow'' (JList []) of
                JList overflow \<Rightarrow> check_entries tm (length entries) 2 [] (entries @ overflow)
              | _ \<Rightarrow> Inl (''ValueError'', ''malformed pending surge overflow''))
        | _ \<Rightarrow> Inl (''ValueError'', ''malformed pending transition outbox''))
   | _ \<Rightarrow> Inr [])"

subsection \<open>Reading the journal\<close>

text \<open>\<open>readline(limit)\<close> on the remaining bytes.\<close>

fun read_line :: "int \<Rightarrow> string \<Rightarrow> string" where
  "read_line n [] = []"
| "read_line n (c # cs) = (if n \<le> 0 then [] else if c = newline then [c] else c # read_line (n - 1) cs)"

lemma read_line_le: "length (read_line n s) \<le> length s"
  by (induction n s rule: read_line.induct) auto

lemma read_line_Nil [simp]: "read_line n s = [] \<longleftrightarrow> s = [] \<or> n \<le> 0"
  by (cases s) auto

function scan_journal :: "string \<Rightarrow> bool \<Rightarrow> string \<Rightarrow> bool" where
  "scan_journal expected at_line_start rest =
     (let chunk = read_line (int (length expected) + 1) rest in
      if chunk = [] then False
      else if at_line_start \<and> chunk = expected then True
      else scan_journal expected (ends_with [newline] chunk) (drop (length chunk) rest))"
  by auto
termination by (relation "measure (\<lambda>(_, _, rest). length rest)") auto

declare scan_journal.simps [simp del]

text \<open>A match counts only once file and directory are synced.\<close>

definition transition_already_journaled :: "json \<Rightarrow> bool fs_run" where
  "transition_already_journaled e = bindSE (syscall (\<lambda>fs. fs)) (\<lambda>_ fs.
     case fs_events fs of
       None \<Rightarrow> returnF False fs
     | Some bytes \<Rightarrow>
         if scan_journal (event_line (JDict (entry_payload e))) True bytes
         then bindSE fsync (\<lambda>_. bindSE fsync (\<lambda>_. returnF True)) fs
         else returnF False fs)"

text \<open>The scan for the last transition; \<open>decode\<close> is \<open>json.loads\<close> of a line.\<close>

function last_transition :: "(string \<Rightarrow> exc + json) \<Rightarrow> json \<Rightarrow> string \<Rightarrow> exc + json" where
  "last_transition decode found rest =
     (let line = read_line 65537 rest in
      if line = [] then Inr found
      else if int (length line) > 65536 \<or> \<not> ends_with [newline] line then Inl (''ValueError'', ''unverifiable journal line'')
      else (case decode line of
          Inl e \<Rightarrow> Inl e
        | Inr (JDict event) \<Rightarrow>
            (case in_strings (jget event ''event'') [''ALARM'', ''RECOVERY''] of
               Inl e \<Rightarrow> Inl e
             | Inr known \<Rightarrow> last_transition decode (if known then JDict event else found) (drop (length line) rest))
        | Inr _ \<Rightarrow> Inl (''ValueError'', ''invalid journal record'')))"
  by auto
termination by (relation "measure (\<lambda>(_, _, rest). length rest)") auto

declare last_transition.simps [simp del]

definition last_journaled_transition :: "(string \<Rightarrow> exc + json) \<Rightarrow> json fs_run" where
  "last_journaled_transition decode = bindSE (syscall (\<lambda>fs. fs)) (\<lambda>_ fs.
     case fs_events fs of
       None \<Rightarrow> returnF JNull fs
     | Some bytes \<Rightarrow>
         bindSE (liftF (last_transition decode JNull bytes)) (\<lambda>last.
         bindSE fsync (\<lambda>_. bindSE fsync (\<lambda>_. returnF last))) fs)"

subsection \<open>Appending to the journal\<close>

definition JOURNAL_BLOCK :: int where
  "JOURNAL_BLOCK = 65536"

text \<open>\<open>data.rfind(newline)\<close>, with -1 for none.\<close>

definition rfind_newline :: "string \<Rightarrow> int" where
  "rfind_newline data = int (length (dropWhile (\<lambda>c. c \<noteq> newline) (rev data))) - 1"

function complete_offset_from :: "string \<Rightarrow> int \<Rightarrow> int" where
  "complete_offset_from bytes cursor =
     (if cursor \<le> 0 then 0
      else let start = max 0 (cursor - JOURNAL_BLOCK);
               found = rfind_newline (take (nat (cursor - start)) (drop (nat start) bytes))
           in if 0 \<le> found then start + found + 1 else complete_offset_from bytes start)"
  by auto
termination by (relation "measure (\<lambda>(_, cursor). nat cursor)") (auto simp: JOURNAL_BLOCK_def)

declare complete_offset_from.simps [simp del]

definition last_complete_journal_offset :: "string \<Rightarrow> int" where
  "last_complete_journal_offset bytes = complete_offset_from bytes (int (length bytes))"

definition journal :: "watch_fs \<Rightarrow> string" where
  "journal fs = (case fs_events fs of None \<Rightarrow> [] | Some b \<Rightarrow> b)"

definition truncate_to :: "int \<Rightarrow> unit fs_run" where
  "truncate_to n = syscall (\<lambda>fs. fs\<lparr>fs_events := Some (take (nat n) (journal fs))\<rparr>)"

text \<open>One unbuffered write; it returns the number of bytes written.\<close>

definition write_bytes :: "string \<Rightarrow> nat fs_run" where
  "write_bytes payload fs = (case next_fault fs of
     (NoFault, fs') \<Rightarrow> (Inr (length payload), fs'\<lparr>fs_events := Some (journal fs' @ payload)\<rparr>)
   | (Short n, fs') \<Rightarrow> (Inr (min n (length payload)), fs'\<lparr>fs_events := Some (journal fs' @ take n payload)\<rparr>)
   | (RaiseAfter n e, fs') \<Rightarrow> (Inl e, fs'\<lparr>fs_events := Some (journal fs' @ take n payload)\<rparr>))"

definition is_os_error :: "exc \<Rightarrow> bool" where
  "is_os_error e = (fst e \<noteq> ''WatchRuntimeExceeded'')"

text \<open>Drop an unterminated suffix; the result is the end of the last complete line.\<close>

definition repair_tail :: "int fs_run" where
  "repair_tail fs =
     (let stop = int (length (journal fs)) in
      if stop = 0 then returnF 0 fs
      else bindSE (syscall (\<lambda>fs. fs)) (\<lambda>_ fs.
        let complete_end = last_complete_journal_offset (journal fs) in
        if complete_end < stop
        then bindSE (truncate_to complete_end) (\<lambda>_. bindSE fsync (\<lambda>_. bindSE fsync (\<lambda>_. returnF complete_end))) fs
        else returnF stop fs) fs)"

definition commit_bytes :: "string \<Rightarrow> unit fs_run" where
  "commit_bytes payload = bindSE (write_bytes payload) (\<lambda>written.
     if written \<noteq> length payload then raiseF (''OSError'', ''short event history append'')
     else bindSE fsync (\<lambda>_. fsync))"

text \<open>Back to the old end after a failed append; a failing rollback reports both errors.\<close>

definition rollback :: "int \<Rightarrow> exc \<Rightarrow> 'a fs_run" where
  "rollback stop append_error fs =
     (case bindSE (truncate_to stop) (\<lambda>_. fsync) fs of
        (Inr _, fs') \<Rightarrow> (Inl append_error, fs')
      | (Inl e, fs') \<Rightarrow>
          (Inl (if is_os_error e
                then (''OSError'', ''event append failed: '' @ snd append_error @ ''; rollback failed: '' @ snd e) else e), fs'))"

text \<open>The result is the list of committed event names.\<close>

definition append_durable_events :: "json list \<Rightarrow> json list fs_run" where
  "append_durable_events events =
     bindSE (syscall (\<lambda>fs. fs\<lparr>fs_events := Some (journal fs)\<rparr>)) (\<lambda>_.
     bindSE repair_tail (\<lambda>stop fs.
       case commit_bytes (concat (map event_line events)) fs of
         (Inr _, fs') \<Rightarrow> (Inr (map (\<lambda>e. jget (as_dict e) ''event'') events), fs')
       | (Inl e, fs') \<Rightarrow> rollback stop e fs'))"

subsection \<open>The scan and the lines of the journal\<close>

text \<open>The lines of the journal, each with its newline; only the last can lack it.\<close>

fun journal_lines :: "string \<Rightarrow> string list" where
  "journal_lines [] = []"
| "journal_lines (c # cs) = (if c = newline then [c] # journal_lines cs
     else (case journal_lines cs of [] \<Rightarrow> [[c]] | l # ls \<Rightarrow> (c # l) # ls))"

lemma journal_lines_line: "newline \<notin> set a \<Longrightarrow> journal_lines (a @ newline # b) = (a @ [newline]) # journal_lines b"
  by (induction a) auto

lemma journal_lines_partial: "newline \<notin> set a \<Longrightarrow> journal_lines a = (if a = [] then [] else [a])"
  by (induction a) auto

lemma read_line_line:
  "newline \<notin> set a \<Longrightarrow> read_line n (a @ newline # b) = (if int (length a) < n then a @ [newline] else take (nat n) a)"
proof (induction a arbitrary: n)
  case (Cons c a)
  have "take (nat n) (c # a) = c # take (nat (n - 1)) a" if "0 < n"
    using that by (cases "nat n") (auto simp: nat_diff_distrib)
  with Cons show ?case by auto
qed auto

lemma read_line_partial: "newline \<notin> set a \<Longrightarrow> read_line n a = take (nat n) a"
proof (induction a arbitrary: n)
  case (Cons c a)
  have "take (nat n) (c # a) = c # take (nat (n - 1)) a" if "0 < n"
    using that by (cases "nat n") (auto simp: nat_diff_distrib)
  with Cons show ?case by auto
qed simp

lemma ends_with_newline: "ends_with [newline] (a @ [newline])"
  by (simp add: ends_with_iff)

lemma ends_with_no_newline: "newline \<notin> set a \<Longrightarrow> \<not> ends_with [newline] a"
  by (auto simp: ends_with_iff)

text \<open>Within a line the scan skips to its end; at the start of a line it compares the whole line.\<close>

lemma scan_skip: "newline \<notin> set a \<Longrightarrow> scan_journal x False (a @ newline # b) = scan_journal x True b"
proof (induction a rule: measure_induct_rule [of length])
  case (less a)
  let ?n = "int (length x) + 1"
  show ?case
  proof (cases "int (length a) < ?n")
    case True
    then show ?thesis
      using less.prems by (subst scan_journal.simps) (simp add: read_line_line Let_def ends_with_newline)
  next
    case False
    then have long: "length x + 1 \<le> length a" by simp
    have "scan_journal x False (drop (length x + 1) a @ newline # b) = scan_journal x True b"
      by (rule less.IH) (use long less.prems in \<open>auto dest: in_set_dropD\<close>)
    moreover have "newline \<notin> set (take (length x + 1) a)" using less.prems by (auto dest: in_set_takeD)
    ultimately show ?thesis
      using less.prems long False
      by (subst scan_journal.simps) (auto simp: read_line_line Let_def ends_with_no_newline min_def nat_add_distrib)
  qed
qed

lemma scan_line:
  assumes "newline \<notin> set a" "newline \<notin> set y"
  shows "scan_journal (y @ [newline]) True (a @ newline # b) \<longleftrightarrow> a = y \<or> scan_journal (y @ [newline]) True b"
proof (cases "int (length a) < int (length (y @ [newline])) + 1")
  case True
  then show ?thesis
    using assms by (subst scan_journal.simps) (auto simp: read_line_line Let_def ends_with_newline)
next
  case False
  let ?n = "length y + 2"
  have long: "?n \<le> length a" using False by simp
  then have "a \<noteq> y" by auto
  moreover have "newline \<notin> set (take ?n a)" "newline \<notin> set (drop ?n a)"
    using assms(1) by (auto dest: in_set_takeD in_set_dropD)
  moreover have "take ?n a \<noteq> y @ [newline]" using calculation(2) by auto
  ultimately show ?thesis
    using assms(1) long False scan_skip [of "drop ?n a" "y @ [newline]" b]
    by (subst scan_journal.simps) (auto simp: read_line_line Let_def ends_with_no_newline min_def nat_add_distrib numeral_2_eq_2)
qed

lemma scan_partial: "newline \<notin> set a \<Longrightarrow> \<not> scan_journal (y @ [newline]) st a"
proof (induction a arbitrary: st rule: measure_induct_rule [of length])
  case (less a)
  let ?n = "nat (int (length (y @ [newline])) + 1)"
  have "newline \<notin> set (take ?n a)" "newline \<notin> set (drop ?n a)"
    using less.prems by (auto dest: in_set_takeD in_set_dropD)
  moreover from this(1) have "take ?n a \<noteq> y @ [newline]" by auto
  moreover have "\<not> scan_journal (y @ [newline]) st' (drop ?n a)" if "a \<noteq> []" for st'
    using that calculation(2) by (intro less.IH) auto
  ultimately show ?case
    using less.prems by (subst scan_journal.simps) (auto simp: read_line_partial Let_def min_def)
qed

lemma line_cases:
  obtains (line) a b where "s = a @ newline # b" "newline \<notin> set a" | (partial) "newline \<notin> set s"
  using split_list_first [of newline s] by blast

lemma scan_journal_lines:
  assumes "newline \<notin> set y"
  shows "scan_journal (y @ [newline]) True s \<longleftrightarrow> y @ [newline] \<in> set (journal_lines s)"
proof (induction s rule: measure_induct_rule [of length])
  case (less s)
  show ?case
  proof (cases s rule: line_cases)
    case (line a b)
    with less.IH [of b] assms show ?thesis by (auto simp: scan_line journal_lines_line)
  next
    case partial
    with assms show ?thesis by (auto simp: scan_partial journal_lines_partial)
  qed
qed

subsection \<open>The end of the last complete line\<close>

definition complete_part :: "string \<Rightarrow> string" where
  "complete_part s = rev (dropWhile (\<lambda>c. c \<noteq> newline) (rev s))"

lemma complete_part_append: "newline \<in> set b \<Longrightarrow> complete_part (a @ b) = a @ complete_part b"
  by (auto simp: complete_part_def dropWhile_append)

lemma complete_part_drop: "newline \<notin> set b \<Longrightarrow> complete_part (a @ b) = complete_part a"
  by (simp add: complete_part_def dropWhile_append)

lemma rfind_newline_eq: "rfind_newline data = int (length (complete_part data)) - 1"
  by (simp add: rfind_newline_def complete_part_def)

lemma complete_part_Nil: "complete_part s = [] \<longleftrightarrow> newline \<notin> set s"
  by (auto simp: complete_part_def dropWhile_eq_Nil_conv)

lemma complete_offset_from_eq:
  "cursor \<le> int (length s) \<Longrightarrow> complete_offset_from s cursor = int (length (complete_part (take (nat cursor) s)))"
proof (induction s cursor rule: complete_offset_from.induct)
  case (1 s cursor)
  show ?case
  proof (cases "cursor \<le> 0")
    case True
    then show ?thesis by (simp add: complete_offset_from.simps [of s cursor] complete_part_def)
  next
    case False
    define start where "start = max 0 (cursor - JOURNAL_BLOCK)"
    define data where "data = take (nat (cursor - start)) (drop (nat start) s)"
    have start: "0 \<le> start" "start < cursor" using False by (auto simp: start_def JOURNAL_BLOCK_def)
    have parts: "take (nat cursor) s = take (nat start) s @ data"
      using start by (simp add: data_def nat_diff_distrib flip: take_add)
    have len: "length (take (nat start) s) = nat start" using start 1(2) by simp
    show ?thesis
    proof (cases "newline \<in> set data")
      case True
      then have "0 \<le> rfind_newline data" using complete_part_Nil [of data] by (cases "complete_part data") (auto simp: rfind_newline_eq)
      with False True start len show ?thesis
        by (subst complete_offset_from.simps)
          (simp add: start_def [symmetric] data_def [symmetric] Let_def parts complete_part_append rfind_newline_eq)
    next
      case no: False
      then have "complete_part data = []" by (simp add: complete_part_Nil)
      then have none: "rfind_newline data = -1" by (simp add: rfind_newline_eq)
      moreover have "complete_offset_from s start = int (length (complete_part (take (nat start) s)))"
        by (rule 1(1) [OF False start_def refl]) (use none start 1(2) in \<open>simp_all add: data_def [symmetric]\<close>)
      ultimately show ?thesis
        using False no by (subst complete_offset_from.simps)
          (simp add: start_def [symmetric] data_def [symmetric] Let_def parts complete_part_drop)
    qed
  qed
qed

lemma complete_offset: "last_complete_journal_offset s = int (length (complete_part s))"
  by (simp add: last_complete_journal_offset_def complete_offset_from_eq)

lemma complete_part_split: "complete_part s @ rev (takeWhile (\<lambda>c. c \<noteq> newline) (rev s)) = s"
  unfolding complete_part_def by (metis rev_append rev_rev_ident takeWhile_dropWhile_id)

lemma complete_part_take: "take (length (complete_part s)) s = complete_part s"
  by (metis append_eq_conv_conj complete_part_split)

lemma complete_part_drop_tail: "drop (length (complete_part s)) s = rev (takeWhile (\<lambda>c. c \<noteq> newline) (rev s))"
  by (metis append_eq_conv_conj complete_part_split)

lemma complete_part_le: "length (complete_part s) \<le> length s"
  using complete_part_take [of s] by (metis length_take min.cobounded1)

text \<open>
  The search for the last complete line, which reads the journal backwards in blocks of bounded size,
  returns the length of the longest part of the journal that is empty or ends in a newline.
\<close>

theorem complete_offset_exact:
  "last_complete_journal_offset s = int (length (complete_part s)) \<and> complete_part s = take (length (complete_part s)) s
    \<and> (complete_part s = [] \<or> last (complete_part s) = newline) \<and> newline \<notin> set (drop (length (complete_part s)) s)"
proof -
  have "complete_part s = [] \<or> last (complete_part s) = newline"
    using hd_dropWhile [of "\<lambda>c. c \<noteq> newline" "rev s"] by (auto simp: complete_part_def last_rev)
  moreover have "newline \<notin> set (takeWhile (\<lambda>c. c \<noteq> newline) (rev s))" by (auto dest: set_takeWhileD)
  ultimately show ?thesis by (simp add: complete_offset complete_part_take complete_part_drop_tail)
qed

subsection \<open>Appending\<close>

definition faults :: "watch_fs \<Rightarrow> nat" where
  "faults fs = length (filter (\<lambda>f. f \<noteq> NoFault) (fs_faults fs))"

text \<open>A run that leaves the two JSON files as they are and meets only faults of its list.\<close>

definition frame :: "watch_fs \<Rightarrow> watch_fs \<Rightarrow> bool" where
  "frame fs fs' = (fs_state fs' = fs_state fs \<and> fs_heartbeat fs' = fs_heartbeat fs \<and> faults fs' \<le> faults fs)"

lemma frame_refl [simp]: "frame fs fs"
  by (simp add: frame_def)

lemma frame_trans: "frame fs fs1 \<Longrightarrow> frame fs1 fs2 \<Longrightarrow> frame fs fs2"
  by (simp add: frame_def)

lemma next_fault_frame: "next_fault fs = (f, fs') \<Longrightarrow> frame fs fs' \<and> fs_events fs' = fs_events fs
    \<and> (f \<noteq> NoFault \<longrightarrow> faults fs' < faults fs)"
  by (auto simp: next_fault_def frame_def faults_def split: list.splits)

lemma syscall_events:
  assumes "syscall (\<lambda>fs. fs\<lparr>fs_events := g (fs_events fs)\<rparr>) fs = (r, fs')"
  shows "frame fs fs' \<and> (fs_events fs' = g (fs_events fs) \<or> isl r \<and> fs_events fs' = fs_events fs) \<and> (isl r \<longrightarrow> faults fs' < faults fs)"
proof -
  obtain f fs1 where f: "next_fault fs = (f, fs1)" by fastforce
  have "faults (fs1\<lparr>fs_events := x\<rparr>) = faults fs1" "frame fs (fs1\<lparr>fs_events := x\<rparr>) = frame fs fs1" for x
    by (simp_all add: faults_def frame_def)
  with f next_fault_frame [OF f] assms show ?thesis
    by (cases f) (auto simp: syscall_def split: if_splits)
qed

lemma fsync_events:
  "fsync fs = (r, fs') \<Longrightarrow> frame fs fs' \<and> fs_events fs' = fs_events fs \<and> (isl r \<longrightarrow> faults fs' < faults fs)"
  using syscall_events [of "\<lambda>e. e" fs r fs'] by (auto simp: fsync_def)

lemma truncate_events:
  assumes "truncate_to n fs = (r, fs')"
  shows "frame fs fs' \<and> (journal fs' = take (nat n) (journal fs) \<or> isl r \<and> journal fs' = journal fs) \<and> (isl r \<longrightarrow> faults fs' < faults fs)"
  using assms syscall_events [of "\<lambda>e. Some (take (nat n) (case e of None \<Rightarrow> [] | Some b \<Rightarrow> b))" fs r fs']
  by (auto simp: truncate_to_def journal_def)

lemma repair_tail_events:
  assumes "repair_tail fs = (r, fs')"
  shows "frame fs fs' \<and> journal fs' \<in> {journal fs, complete_part (journal fs)} \<and> (isl r \<longrightarrow> faults fs' < faults fs)
    \<and> (\<forall>stop. r = Inr stop \<longrightarrow> journal fs' = complete_part (journal fs) \<and> stop = int (length (complete_part (journal fs))))"
proof (cases "journal fs = []")
  case True
  then show ?thesis using assms by (auto simp: repair_tail_def returnF_def complete_part_def)
next
  case False
  let ?c = "complete_part (journal fs)"
  have part: "take (length ?c) (journal fs) = ?c" "length ?c \<le> length (journal fs)"
    "length ?c < length (journal fs) \<or> ?c = journal fs"
    using complete_part_take [of "journal fs"] complete_part_le [of "journal fs"] by (auto simp: order.order_iff_strict)
  obtain q fs1 where 1: "fsync fs = (q, fs1)" by fastforce
  note f1 = fsync_events [OF 1]
  have j1: "journal fs1 = journal fs" using f1 by (simp add: journal_def)
  obtain t fs2 where 2: "truncate_to (int (length ?c)) fs1 = (t, fs2)" by fastforce
  note f2 = truncate_events [OF 2]
  obtain u fs3 where 3: "fsync fs2 = (u, fs3)" by fastforce
  note f3 = fsync_events [OF 3]
  obtain v fs4 where 4: "fsync fs3 = (v, fs4)" by fastforce
  note f4 = fsync_events [OF 4]
  have run: "repair_tail fs = (case q of Inl e \<Rightarrow> (Inl e, fs1) | Inr _ \<Rightarrow>
      if int (length ?c) < int (length (journal fs)) then (case t of Inl e \<Rightarrow> (Inl e, fs2) | Inr _ \<Rightarrow>
        (case u of Inl e \<Rightarrow> (Inl e, fs3) | Inr _ \<Rightarrow> (case v of Inl e \<Rightarrow> (Inl e, fs4) | Inr _ \<Rightarrow> (Inr (int (length ?c)), fs4))))
      else (Inr (int (length (journal fs))), fs1))"
    using False 1 2 3 4
    by (auto simp: repair_tail_def Let_def bindSE_def fsync_def [symmetric] j1 returnF_def complete_offset split: sum.splits)
  show ?thesis
    using assms f1 f2 f3 f4 part unfolding run
    by (auto simp: frame_def journal_def j1 [unfolded journal_def] split: sum.splits if_splits)
qed

lemma commit_bytes_events:
  assumes "commit_bytes p fs = (r, fs')"
  shows "frame fs fs' \<and> (if isl r then (\<exists>n. journal fs' = journal fs @ take n p) \<and> faults fs' < faults fs else journal fs' = journal fs @ p)"
proof -
  obtain f fs1 where f: "next_fault fs = (f, fs1)" by fastforce
  note f1 = next_fault_frame [OF f]
  obtain w fs2 where w: "write_bytes p fs = (w, fs2)" by fastforce
  have upd: "frame fs fs2" "\<exists>n. journal fs2 = journal fs @ take n p \<and> (w = Inr (length p) \<longrightarrow> journal fs2 = journal fs @ p)"
    "w \<noteq> Inr (length p) \<Longrightarrow> faults fs2 < faults fs"
    using w f f1 by (cases f; auto simp: write_bytes_def frame_def faults_def journal_def min_def intro: exI [of _ "length p"] split: if_splits)+
  obtain q fs3 where 3: "fsync fs2 = (q, fs3)" by fastforce
  note f3 = fsync_events [OF 3]
  obtain u fs4 where 4: "fsync fs3 = (u, fs4)" by fastforce
  note f4 = fsync_events [OF 4]
  have run: "commit_bytes p fs = (case w of Inl e \<Rightarrow> (Inl e, fs2) | Inr n \<Rightarrow>
      if n \<noteq> length p then (Inl (''OSError'', ''short event history append''), fs2) else (case q of Inl e \<Rightarrow> (Inl e, fs3) | Inr _ \<Rightarrow> (u, fs4)))"
    using w 3 4 by (auto simp: commit_bytes_def bindSE_def raiseF_def split: sum.splits)
  have all: "\<exists>n. p = take n p" by (rule exI [of _ "length p"]) simp
  show ?thesis
    using assms upd f3 f4 all unfolding run
    by (auto simp: frame_def journal_def split: sum.splits if_splits)
qed

lemma rollback_events:
  assumes "rollback stop e fs = (r, fs')"
  shows "frame fs fs' \<and> isl r \<and> journal fs' \<in> {journal fs, take (nat stop) (journal fs)}
    \<and> (faults fs = 0 \<longrightarrow> journal fs' = take (nat stop) (journal fs))"
proof -
  obtain t fs1 where 1: "truncate_to stop fs = (t, fs1)" by fastforce
  note f1 = truncate_events [OF 1]
  obtain q fs2 where 2: "fsync fs1 = (q, fs2)" by fastforce
  note f2 = fsync_events [OF 2]
  have "fs' = (if isl t then fs1 else fs2) \<and> isl r"
    using assms 1 2 by (auto simp: rollback_def bindSE_def split: sum.splits prod.splits)
  then show ?thesis using f1 f2 by (auto simp: frame_def journal_def)
qed

text \<open>The outcomes of an append: nothing changed, the complete lines with a part of the batch, or all of it.\<close>

lemma append_run:
  assumes run: "append_durable_events events fs = (r, fs')"
  shows "frame fs fs' \<and> (case r of
         Inr names \<Rightarrow> journal fs' = complete_part (journal fs) @ concat (map event_line events) \<and> names = map entry_event events
       | Inl e \<Rightarrow> journal fs' = journal fs
           \<or> (\<exists>n. journal fs' = complete_part (journal fs) @ take n (concat (map event_line events)) \<and> (faults fs \<le> 1 \<longrightarrow> n = 0)))"
proof -
  let ?b = "concat (map event_line events)" and ?c = "complete_part (journal fs)"
  obtain o1 fs1 where 1: "syscall (\<lambda>fs. fs\<lparr>fs_events := Some (journal fs)\<rparr>) fs = (o1, fs1)" by fastforce
  have f1: "frame fs fs1" "journal fs1 = journal fs" "isl o1 \<longrightarrow> faults fs1 < faults fs"
    using syscall_events [of "\<lambda>e. Some (case e of None \<Rightarrow> [] | Some b \<Rightarrow> b)" fs o1 fs1] 1 by (auto simp: journal_def)
  obtain s fs2 where 2: "repair_tail fs1 = (s, fs2)" by fastforce
  note f2 = repair_tail_events [OF 2, unfolded f1(2)]
  obtain q fs3 where 3: "commit_bytes ?b fs2 = (q, fs3)" by fastforce
  note f3 = commit_bytes_events [OF 3]
  have open_run: "append_durable_events events fs = (case o1 of Inl e \<Rightarrow> (Inl e, fs1) | Inr _ \<Rightarrow>
      (case s of Inl e \<Rightarrow> (Inl e, fs2) | Inr stop \<Rightarrow>
        (case q of Inr _ \<Rightarrow> (Inr (map entry_event events), fs3) | Inl e \<Rightarrow> rollback stop e fs3)))"
    using 1 2 3 by (auto simp: append_durable_events_def bindSE_def entry_event_def split: sum.splits prod.splits)
  consider (open_failed) e where "o1 = Inl e" | (tail_failed) e where "s = Inl e" "\<not> isl o1"
    | (committed) stop where "s = Inr stop" "\<not> isl q" "\<not> isl o1" | (failed) stop e where "s = Inr stop" "q = Inl e" "\<not> isl o1"
    by (cases o1; cases s; cases q) auto
  then show ?thesis
  proof cases
    case open_failed
    then show ?thesis using run f1 by (auto simp: open_run frame_def)
  next
    case tail_failed
    then have "r = Inl e" "fs' = fs2" using run by (auto simp: open_run split: sum.splits)
    moreover have "journal fs2 = ?c \<Longrightarrow> \<exists>n. journal fs2 = ?c @ take n ?b \<and> (faults fs \<le> 1 \<longrightarrow> n = 0)" by (rule exI [of _ 0]) simp
    ultimately show ?thesis using f1 f2 by (auto simp: frame_def)
  next
    case committed
    then have "r = Inr (map entry_event events)" "fs' = fs3" using run by (auto simp: open_run split: sum.splits)
    then show ?thesis using f1 f2 f3 committed by (auto simp: frame_def split: if_splits)
  next
    case failed
    then have rb: "rollback stop e fs3 = (r, fs')" using run by (auto simp: open_run split: sum.splits)
    note f4 = rollback_events [OF rb]
    have j2: "journal fs2 = ?c" "stop = int (length ?c)" using f2 failed by auto
    obtain n where j3: "journal fs3 = ?c @ take n ?b" using f3 failed j2 by auto
    then have undone: "take (nat stop) (journal fs3) = ?c" by (simp add: j2)
    have "\<exists>n. journal fs' = ?c @ take n ?b \<and> (faults fs \<le> 1 \<longrightarrow> n = 0)"
    proof (cases "journal fs' = ?c")
      case True
      then show ?thesis by (intro exI [of _ 0]) simp
    next
      case False
      then have "journal fs' = journal fs3" and "faults fs3 \<noteq> 0" using f4 undone by auto
      moreover have "\<not> faults fs \<le> 1" using calculation(2) f1 f2 f3 failed by (auto simp: frame_def)
      ultimately show ?thesis using j3 by auto
    qed
    then show ?thesis using f1 f2 f3 f4 by (cases r) (auto simp: frame_def)
  qed
qed


definition demo_event :: json where
  "demo_event = JDict [(''event'', JStr ''ALARM'')]"

text \<open>A journal with an unterminated suffix, and a directory whose sixth call is a short write.\<close>

definition demo_fs :: watch_fs where
  "demo_fs = \<lparr>fs_state = Missing, fs_heartbeat = Missing, fs_events = Some (''{}'' @ [newline] @ ''par''),
     fs_faults = [NoFault, NoFault, NoFault, NoFault, NoFault, Short 3]\<rparr>"


subsection \<open>Transitions that are in the journal\<close>

text \<open>Numbers print without a newline; the text of a float is part of the value.\<close>

fun float_texts_ok :: "json \<Rightarrow> bool" where
  "float_texts_ok (JFloat _ t) = (newline \<notin> set t)"
| "float_texts_ok (JList xs) = list_all float_texts_ok xs"
| "float_texts_ok (JDict d) = list_all (\<lambda>(k, v). float_texts_ok v) d"
| "float_texts_ok v = True"

lemma scan_Nil: "\<not> scan_journal x st []"
  by (subst scan_journal.simps) simp

lemma join_chars: "set (join sep ws) \<subseteq> set sep \<union> \<Union> (set ` set ws)"
  by (induction sep ws rule: join.induct) auto

lemma hex_digit_newline:
  assumes "n < 16"
  shows "hex_digit n \<noteq> newline"
proof
  assume "hex_digit n = newline"
  then have "(of_char (hex_digit n) :: nat) = of_char newline" by simp
  with assms show False by (auto simp: hex_digit_def newline_def split: if_splits)
qed

lemma ascii_char_newline: "newline \<notin> set (ascii_char c)"
proof -
  have "(of_char c :: nat) div 16 < 16" "(of_char c :: nat) mod 16 < 16"
    using nat_of_char_less_256 [of c] by (auto simp: less_mult_imp_div_less)
  then have hex: "newline \<noteq> hex_digit (of_char c div 16)" "newline \<noteq> hex_digit (of_char c mod 16)"
    using hex_digit_newline by metis+
  have plain: "newline \<notin> {CHR 0x5C, CHR ''n'', CHR ''r'', CHR ''t'', CHR ''b'', CHR ''f'', CHR ''u'', CHR ''0''}"
    by (simp add: newline_def)
  have "(of_char c :: nat) \<noteq> 10 \<Longrightarrow> newline \<noteq> c" by (auto simp: newline_def)
  moreover have "(of_char c :: nat) \<in> {34, 92} \<Longrightarrow> newline \<noteq> c" by (auto simp: newline_def)
  ultimately show ?thesis using hex plain by (simp add: ascii_char_def Let_def)
qed

lemma ascii_str_newline: "newline \<notin> set (ascii_str s)"
  using ascii_char_newline by (auto simp: ascii_str_def) (auto simp: newline_def)

lemma str_int_newline: "newline \<notin> set (str_int i)"
proof -
  have "newline \<notin> set (digits_nat n)" for n
  proof (induction n rule: digits_nat.induct)
    case (1 n)
    have "newline \<noteq> char_of (48 + m)" if "m < 10" for m :: nat
    proof
      assume "newline = char_of (48 + m)"
      then have "(of_char (char_of (48 + m) :: char) :: nat) = of_char newline" by simp
      with that show False by (simp add: newline_def)
    qed
    with 1 show ?case by (subst digits_nat.simps) (auto split: if_splits)
  qed
  then show ?thesis by (auto simp: str_int_def) (auto simp: newline_def)
qed

lemma dumps_newline:
  assumes "newline \<notin> set isep" "newline \<notin> set ksep"
  shows "float_texts_ok v \<Longrightarrow> newline \<notin> set (dumps_sorted isep ksep v)"
proof (induction v)
  case (JFloat f t)
  then show ?case by (cases f) (auto simp: newline_def)
next
  case (JStr s)
  then show ?case using ascii_str_newline by simp
next
  case (JList xs)
  then have "newline \<notin> set (dumps_sorted isep ksep x)" if "x \<in> set xs" for x
    using that by (auto simp: list_all_iff)
  then have "newline \<notin> set (join isep (map (dumps_sorted isep ksep) xs))"
    using join_chars [of isep "map (dumps_sorted isep ksep) xs"] assms by auto
  then show ?case by (simp add: newline_def)
next
  case (JDict d)
  let ?ls = "map snd (sort_key fst (map (\<lambda>(k, v). (k, ascii_str k @ ksep @ dumps_sorted isep ksep v)) d))"
  have "newline \<notin> set l" if "l \<in> set ?ls" for l
    using that JDict assms ascii_str_newline by (fastforce simp: list_all_iff)
  then have "newline \<notin> set (join isep ?ls)" using join_chars [of isep ?ls] assms by blast
  then show ?case by (simp add: newline_def)
qed (use str_int_newline in \<open>auto simp: newline_def\<close>)

lemma already_journaled_run:
  assumes run: "transition_already_journaled e fs = (Inr known, fs')"
  shows "known = scan_journal (event_line (JDict (entry_payload e))) True (journal fs) \<and> frame fs fs' \<and> fs_events fs' = fs_events fs"
proof -
  obtain q fs1 where 1: "fsync fs = (q, fs1)" by fastforce
  note f1 = fsync_events [OF 1]
  obtain t fs2 where 2: "fsync fs1 = (t, fs2)" by fastforce
  note f2 = fsync_events [OF 2]
  obtain u fs3 where 3: "fsync fs2 = (u, fs3)" by fastforce
  note f3 = fsync_events [OF 3]
  have "known = scan_journal (event_line (JDict (entry_payload e))) True (journal fs) \<and> (fs' = fs1 \<or> fs' = fs3)"
    using run 1 2 3 f1
    by (auto simp: scan_Nil transition_already_journaled_def bindSE_def fsync_def [symmetric] returnF_def journal_def
        split: sum.splits option.splits if_splits)
  with f1 f2 f3 show ?thesis by (auto simp: frame_def)
qed

lemma event_line_newline: "float_texts_ok v \<Longrightarrow> newline \<notin> set (dumps_compact v)"
  by (rule dumps_newline) (auto simp: newline_def)

text \<open>
  C19. An outbox entry counts as journaled exactly when its line is one of the lines of the journal: the
  scan in bounded chunks, when it answers at all, never misses a line, never takes a part of a longer line
  for one, and leaves the directory's files as they are.
\<close>

theorem already_journaled_exact:
  assumes run: "transition_already_journaled e fs = (Inr known, fs')" and floats: "float_texts_ok (JDict (entry_payload e))"
  shows "(known \<longleftrightarrow> event_line (JDict (entry_payload e)) \<in> set (journal_lines (journal fs)))
    \<and> fs_events fs' = fs_events fs \<and> fs_state fs' = fs_state fs \<and> fs_heartbeat fs' = fs_heartbeat fs"
  using already_journaled_run [OF run] scan_journal_lines [OF event_line_newline [OF floats], of "journal fs"]
  by (simp add: event_line_def frame_def)

definition demo_entry :: json where
  "demo_entry = JDict [(''event'', JStr ''ALARM''), (''payload'', demo_event)]"

definition demo_log :: watch_fs where
  "demo_log = demo_fs\<lparr>fs_events := Some (''{}'' @ [newline] @ event_line demo_event), fs_faults := []\<rparr>"

theorem already_journaled_exact_witness:
  "\<exists>fs'. transition_already_journaled demo_entry demo_log = (Inr True, fs')
    \<and> event_line (JDict (entry_payload demo_entry)) \<in> set (journal_lines (journal demo_log))"
proof -
  have "case fst (transition_already_journaled demo_entry demo_log) of Inr known \<Rightarrow> known | _ \<Rightarrow> False" by code_simp
  then obtain fs' where run: "transition_already_journaled demo_entry demo_log = (Inr True, fs')"
    by (cases "transition_already_journaled demo_entry demo_log") (auto split: sum.splits)
  have "float_texts_ok (JDict (entry_payload demo_entry))" by code_simp
  from already_journaled_exact [OF run this] run show ?thesis by auto
qed

end
