(* ===== verification/Watch_Record.thy ===== *)
theory Watch_Record
  imports Watch_Journal
begin

text \<open>
  \<open>src/scripts/ops/independent_production_watch.py\<close>, \<open>record\<close>: how an observation becomes incident state,
  outbox and journal.  The steps follow the code in its order.  They pass the state \<open>watch_rec\<close>: the state
  directory, the report \<open>result\<close> the code mutates in place, and the names of the events committed to the
  journal.  \<open>Raise\<close> is an exception and \<open>Return\<close> an early return of \<open>record\<close>; both stop the sequence and
  keep the state reached.

  A system call raises an OSError or the deadline signal, so a handler for OSError, ValueError and
  TypeError catches everything but the deadline.  Locks and directory creation are one call that may fail.
\<close>

subsection \<open>State and control\<close>

record watch_env =
  we_time :: time_lib
  we_decode :: "string \<Rightarrow> exc + json"
  we_now :: int
  we_state_path :: string
  we_events_path :: string

record watch_rec =
  rc_fs :: watch_fs
  rc_result :: dict
  rc_committed :: "json list"

datatype flow = Raise exc | Return json

type_synonym 'a rec_run = "watch_rec \<Rightarrow> (flow + 'a) \<times> watch_rec"

definition returnR :: "'a \<Rightarrow> 'a rec_run" where
  "returnR x s = (Inr x, s)"

definition exitR :: "json \<Rightarrow> 'a rec_run" where
  "exitR v s = (Inl (Return v), s)"

definition liftR :: "exc + 'a \<Rightarrow> 'a rec_run" where
  "liftR r s = (case r of Inl e \<Rightarrow> (Inl (Raise e), s) | Inr x \<Rightarrow> (Inr x, s))"

definition in_fs :: "'a fs_run \<Rightarrow> 'a rec_run" where
  "in_fs m s = (case m (rc_fs s) of (r, fs) \<Rightarrow>
     (case r of Inl e \<Rightarrow> Inl (Raise e) | Inr x \<Rightarrow> Inr x, s\<lparr>rc_fs := fs\<rparr>))"

definition set_result :: "dict \<Rightarrow> unit rec_run" where
  "set_result d s = (Inr (), s\<lparr>rc_result := d\<rparr>)"

text \<open>\<open>except (OSError, ValueError, UnicodeError, TypeError)\<close>.\<close>

definition catchR :: "'a rec_run \<Rightarrow> (exc \<Rightarrow> 'a rec_run) \<Rightarrow> 'a rec_run" where
  "catchR m h s = (case m s of
     (Inl (Raise e), s') \<Rightarrow> if is_os_error e then h e s' else (Inl (Raise e), s')
   | r \<Rightarrow> r)"

subsection \<open>Helpers\<close>

definition ISSUE_URL :: json where
  "ISSUE_URL = JStr ''https://github.com/heimgewebe/commonthing/issues/1939''"

definition issues_of :: "dict \<Rightarrow> json list" where
  "issues_of d = list_or_empty (jget d ''issues'')"

definition time_of :: "watch_env \<Rightarrow> dict \<Rightarrow> int option" where
  "time_of env d = timestamp (we_time env) (jget d ''checked_at_utc'')"

definition dict_union :: "dict \<Rightarrow> dict \<Rightarrow> dict" where
  "dict_union d e = fold (\<lambda>(k, v) d. dict_set d k v) e d"

definition without_outbox :: "dict \<Rightarrow> dict" where
  "without_outbox d = filter (\<lambda>(k, v). k \<notin> {''pending_transitions'', ''pending_surge_overflow''}) d"

text \<open>The code and the text of the actual value of an issue, as the incident state keeps them.\<close>

type_synonym incident = "string \<times> string"

definition actual_text :: "json \<Rightarrow> string" where
  "actual_text item = take 160 (py_str (get_or (as_dict item) ''actual'' (JStr [])))"

definition code_text :: "json \<Rightarrow> string" where
  "code_text item = (case code_of item of JStr c \<Rightarrow> c | _ \<Rightarrow> [])"

definition incident_json :: "incident \<Rightarrow> json" where
  "incident_json i = JList [JStr (fst i), JStr (snd i)]"

definition incident_of :: "json \<Rightarrow> incident option" where
  "incident_of v = (case v of JList [JStr c, JStr a] \<Rightarrow> Some (c, a) | _ \<Rightarrow> None)"

text \<open>P1 issues with a text as code.\<close>

definition p1_coded :: "json list \<Rightarrow> json list" where
  "p1_coded issues = filter (\<lambda>i. is_dict i \<and> severity_of i = JStr ''P1'' \<and> is_str (code_of i)) issues"

definition p1_free :: "json list \<Rightarrow> bool" where
  "p1_free issues = (p1_items issues = [])"

definition add_new :: "json list \<Rightarrow> json list \<Rightarrow> json list" where
  "add_new seen xs = fold (\<lambda>x acc. if py_in x acc then acc else acc @ [x]) xs seen"

subsection \<open>A prior state that cannot be verified\<close>

text \<open>First occurrences by code of the P1 issues, with the codes seen.\<close>

definition collect_confirmed :: "json list \<Rightarrow> string list \<times> json list \<Rightarrow> string list \<times> json list" where
  "collect_confirmed issues acc = fold (\<lambda>i (seen, out).
     if code_text i = [] \<or> code_text i \<in> set seen then (seen, out) else (seen @ [code_text i], out @ [i]))
     (p1_coded issues) acc"

definition prior_p1_item :: "incident \<Rightarrow> json" where
  "prior_p1_item i = JDict [(''code'', JStr (fst i)), (''component'', JStr ''prior watcher P1''),
     (''actual'', JStr (take 160 (snd i))), (''expected'', JStr ''confirmed recovery''),
     (''source'', JStr ''local persisted heartbeat''), (''severity'', JStr ''P1'')]"

definition collect_retained :: "json list \<Rightarrow> string list \<times> json list \<Rightarrow> string list \<times> json list" where
  "collect_retained items acc = fold (\<lambda>v (seen, out). case incident_of v of
     None \<Rightarrow> (seen, out)
   | Some i \<Rightarrow> if fst i \<in> set seen then (seen, out) else (seen @ [fst i], out @ [prior_p1_item i])) items acc"

definition confirmed_p1 :: "dict \<Rightarrow> json \<Rightarrow> json list" where
  "confirmed_p1 result heartbeat = snd (
     collect_retained (list_or_empty (jget (as_dict heartbeat) ''retained_prior_p1''))
       (collect_confirmed (issues_of (as_dict heartbeat)) (collect_confirmed (issues_of result) ([], []))))"

definition entries_or_none :: "time_lib \<Rightarrow> json \<Rightarrow> json list" where
  "entries_or_none tm anchor = (case pending_transition_entries tm anchor of Inl _ \<Rightarrow> [] | Inr es \<Rightarrow> es)"

definition durable_intents :: "time_lib \<Rightarrow> json \<Rightarrow> dict \<Rightarrow> json list" where
  "durable_intents tm heartbeat result =
     add_new (add_new [] (entries_or_none tm heartbeat)) (entries_or_none tm (JDict result))"

text \<open>The provisional ALARM of a poll whose prior state could not be read.\<close>

definition alarm_codes :: "json list \<Rightarrow> string list" where
  "alarm_codes intents = map code_text (p1_coded (concat
     (map (\<lambda>e. issues_of (entry_payload e)) (filter (\<lambda>e. entry_event e = JStr ''ALARM'') intents))))"

definition newly_confirmed :: "dict \<Rightarrow> json list \<Rightarrow> json list" where
  "newly_confirmed result intents = snd (collect_confirmed (issues_of result) (alarm_codes intents, []))"

definition transition_entry :: "string \<Rightarrow> dict \<Rightarrow> json" where
  "transition_entry event payload = JDict [(''event'', JStr event), (''payload'', JDict payload)]"

definition provisional_alarm :: "dict \<Rightarrow> json list \<Rightarrow> json" where
  "provisional_alarm result newly = transition_entry ''ALARM'' (dict_union [(''event'', JStr ''ALARM'')] (without_outbox result
     @ [(''status'', JStr ''ALARM''), (''issues'', JList newly), (''state_read_unverified'', JBool True), (''issue_url'', ISSUE_URL)]))"

definition outbox_fields :: "json list \<Rightarrow> dict" where
  "outbox_fields entries = (if entries = [] then [] else
     (''pending_transitions'', JList (take OUTBOX_SURGE_LIMIT entries)) #
     (if length entries > OUTBOX_SURGE_LIMIT
      then [(''pending_surge_overflow'', JList (drop OUTBOX_SURGE_LIMIT entries))] else []))"

definition unverifiable_item :: "watch_env \<Rightarrow> string \<Rightarrow> json" where
  "unverifiable_item env cause = raw_item ''unverifiable_state'' ''watcher incident state'' (take 150 cause)
     ''readable well-formed prior state.json'' (we_state_path env)"

definition unverifiable_intents :: "watch_env \<Rightarrow> dict \<Rightarrow> json \<Rightarrow> bool \<Rightarrow> json list" where
  "unverifiable_intents env result heartbeat uncertain =
     (let intents = durable_intents (we_time env) heartbeat result; newly = newly_confirmed result intents
      in intents @ (if uncertain \<and> jget result ''status'' = JStr ''ALARM'' \<and> newly \<noteq> []
                    then [provisional_alarm result newly] else []))"

definition unverifiable_report :: "watch_env \<Rightarrow> dict \<Rightarrow> json \<Rightarrow> string \<Rightarrow> bool \<Rightarrow> dict" where
  "unverifiable_report env result heartbeat cause uncertain =
     (let now = (case time_of env result of Some t \<Rightarrow> t | None \<Rightarrow> we_now env);
          confirmed = confirmed_p1 result heartbeat
      in failure_report (we_time env) now (if confirmed = [] then ''MONITOR_DATA_FAILURE'' else ''ALARM'')
           (unverifiable_item env cause # confirmed)
         @ [(''observation_status'', jget result ''status'')]
         @ outbox_fields (unverifiable_intents env result heartbeat uncertain))"

definition record_unverifiable_prior_state :: "watch_env \<Rightarrow> json \<Rightarrow> string \<Rightarrow> bool \<Rightarrow> 'a rec_run" where
  "record_unverifiable_prior_state env heartbeat cause uncertain s =
     (let result = rc_result s;
          intents = unverifiable_intents env result heartbeat uncertain;
          report = unverifiable_report env result heartbeat cause uncertain
      in bindSE (liftR (if intents = [] then Inr [] else pending_transition_entries (we_time env) (JDict (outbox_fields intents)))) (\<lambda>_.
         bindSE (set_result report) (\<lambda>_.
         bindSE (in_fs (write_json HeartbeatFile (JDict report))) (\<lambda>_.
         exitR (JStr ''MONITOR_DATA_FAILURE'')))) s)"

subsection \<open>A lost state\<close>

definition P1_UNVERIFIABLE_ON :: "(string \<times> string list) list" where
  "P1_UNVERIFIABLE_ON = [
     (''frontend_cache'', [''unavailable_frontend'', ''invalid_commit_frontend'']),
     (''invalid_commit_frontend'', [''unavailable_frontend'']),
     (''invalid_commit_api'', [''unavailable_api'']),
     (''frontend_api_diverge'', [''unavailable_frontend'', ''unavailable_api'', ''invalid_commit_frontend'', ''invalid_commit_api'']),
     (''stale_frontend'', [''unavailable_frontend'', ''unavailable_main'', ''invalid_commit_frontend'', ''invalid_commit_main'']),
     (''stale_api'', [''unavailable_api'', ''unavailable_main'', ''invalid_commit_api'', ''invalid_commit_main''])]"

definition unverifiable_on :: "string \<Rightarrow> string list" where
  "unverifiable_on code = (case dict_get P1_UNVERIFIABLE_ON code of None \<Rightarrow> [] | Some cs \<Rightarrow> cs)"

definition ADMISSIBLE_P2 :: "string list" where
  "ADMISSIBLE_P2 = [''unavailable_frontend'', ''unavailable_api'', ''unavailable_main'', ''invalid_commit_main'',
     ''main_time_unreliable'', ''schedule_deadline_exceeded'', ''event_log_write_failed'']"

text \<open>The P1 issues of the journaled alarm: None when one has no fresh non-empty code.\<close>

fun lost_severe :: "incident list \<Rightarrow> json list \<Rightarrow> incident list option" where
  "lost_severe acc [] = Some acc"
| "lost_severe acc (i # is) =
     (if \<not> is_dict i \<or> severity_of i \<noteq> JStr ''P1'' then lost_severe acc is
      else if \<not> is_str (code_of i) \<or> code_text i = [] \<or> code_text i \<in> fst ` set acc then None
      else lost_severe (acc @ [(code_text i, actual_text i)]) is)"

text \<open>An observation under which every old P1 could have been seen; its P2 codes must be known ones.\<close>

definition admissible_issue :: "json \<Rightarrow> bool" where
  "admissible_issue i = (is_dict i \<and>
     (severity_of i = JStr ''P2'' \<and> is_str (code_of i) \<and> code_text i \<in> set ADMISSIBLE_P2 \<or> severity_of i = JStr ''INFO''))"

definition p2_codes :: "json list \<Rightarrow> string list" where
  "p2_codes issues = map code_text (filter (\<lambda>i. severity_of i = JStr ''P2'') issues)"

definition verifies_recovery :: "string list \<Rightarrow> dict \<Rightarrow> bool" where
  "verifies_recovery old_codes observed = (case jget observed ''issues'' of
     JList issues \<Rightarrow> list_all admissible_issue issues
       \<and> list_all (\<lambda>c. set (unverifiable_on c) \<inter> set (p2_codes issues) = {}) old_codes
   | _ \<Rightarrow> False)"

text \<open>The state rebuilt for one pending RECOVERY that follows the journaled ALARM.\<close>

definition lost_state_of :: "watch_env \<Rightarrow> dict \<Rightarrow> dict \<Rightarrow> dict \<Rightarrow> json \<Rightarrow> dict option" where
  "lost_state_of env heartbeat result recovery last_event = (case last_event of
     JDict j \<Rightarrow>
       if jget j ''event'' \<noteq> JStr ''ALARM'' \<or> jget j ''status'' \<noteq> JStr ''ALARM'' then None
       else (case (time_of env j, time_of env recovery, time_of env heartbeat, time_of env result) of
           (Some journal_at, Some recovery_at, Some heartbeat_at, Some observed_at) \<Rightarrow>
             if \<not> (journal_at < recovery_at \<and> recovery_at \<le> heartbeat_at \<and> heartbeat_at \<le> observed_at) then None
             else (case jget j ''issues'' of
                 JList old \<Rightarrow>
                   (case lost_severe [] old of
                      None \<Rightarrow> None
                    | Some [] \<Rightarrow> None
                    | Some severe \<Rightarrow>
                        if verifies_recovery (map fst severe) recovery \<and> verifies_recovery (map fst severe) result
                        then Some [(''severe'', JList (map incident_json (sort severe))), (''uncertain'', JList []),
                               (''main_observation'', jget heartbeat ''main_observation''),
                               (''checked_at_utc'', jget heartbeat ''checked_at_utc'')]
                        else None)
               | _ \<Rightarrow> None)
         | _ \<Rightarrow> None)
   | _ \<Rightarrow> None)"

definition verified_lost_state_recovery :: "watch_env \<Rightarrow> dict \<Rightarrow> dict \<Rightarrow> dict option rec_run" where
  "verified_lost_state_recovery env heartbeat result =
     (if jget result ''status'' \<notin> {JStr ''HEALTHY'', JStr ''MONITOR_DATA_FAILURE''} then returnR None
      else bindSE (liftR (pending_transition_entries (we_time env) (JDict heartbeat))) (\<lambda>entries.
        case entries of
          [e] \<Rightarrow>
            if entry_event e \<noteq> JStr ''RECOVERY''
              \<or> jget (entry_payload e) ''status'' \<notin> {JStr ''HEALTHY'', JStr ''MONITOR_DATA_FAILURE''} then returnR None
            else bindSE (in_fs (last_journaled_transition (we_decode env))) (\<lambda>last_event.
              returnR (lost_state_of env heartbeat result (entry_payload e) last_event))
        | _ \<Rightarrow> returnR None))"

text \<open>A dictionary from codes to actual texts; a later issue of the same code replaces the text.\<close>

definition actuals :: "json list \<Rightarrow> (string \<times> string) list" where
  "actuals issues = fold (\<lambda>i d. dict_set d (code_text i) (actual_text i)) (p1_coded issues) []"

definition prior_actuals :: "dict \<Rightarrow> (string \<times> string) list" where
  "prior_actuals heartbeat =
     (let past = actuals (issues_of heartbeat);
          retained = filter (\<lambda>(c, a). c \<notin> set (dict_keys past))
            (List.map_filter incident_of (list_or_empty (jget heartbeat ''retained_prior_p1'')))
      in fold (\<lambda>(c, a) d. dict_set d c (take 160 a)) retained past)"

definition prior_alarm :: "dict \<Rightarrow> bool" where
  "prior_alarm heartbeat = (jget heartbeat ''status'' = JStr ''ALARM'' \<or> truthy (jget heartbeat ''retained_prior_p1'')
     \<or> truthy (jget heartbeat ''pending_transitions'') \<or> \<not> p1_free (issues_of heartbeat))"

text \<open>Whether the journal ends before the single pending entry.\<close>

definition journal_precedes :: "watch_env \<Rightarrow> json \<Rightarrow> json list \<Rightarrow> bool" where
  "journal_precedes env last_event pending =
     (last_event = JNull \<or> (case pending of
        [e] \<Rightarrow>
          py_eq last_event (JDict (entry_payload e)) \<and> jget (as_dict last_event) ''event'' = JStr ''ALARM''
          \<or> jget (as_dict last_event) ''event'' = JStr ''RECOVERY''
            \<and> (case (time_of env (entry_payload e), time_of env (as_dict last_event)) of
                  (Some pending_at, Some journal_at) \<Rightarrow> journal_at < pending_at | _ \<Rightarrow> False)
      | _ \<Rightarrow> False))"

definition pending_replay :: "watch_env \<Rightarrow> dict \<Rightarrow> json \<Rightarrow> json list \<Rightarrow> bool" where
  "pending_replay env heartbeat last_event pending = (case pending of
     [e] \<Rightarrow>
       (let codes = (if entry_event e = JStr ''ALARM'' then map code_of (p1_items (issues_of (entry_payload e))) else []);
            texts = map (\<lambda>c. case c of JStr s \<Rightarrow> s | _ \<Rightarrow> []) codes
        in journal_precedes env last_event pending \<and> jget heartbeat ''status'' = JStr ''ALARM''
           \<and> codes \<noteq> [] \<and> list_all (\<lambda>c. is_str c \<and> c \<noteq> JStr []) codes \<and> distinct texts
           \<and> set texts = set (dict_keys (prior_actuals heartbeat)))
   | _ \<Rightarrow> False)"

definition journaled_codes :: "json \<Rightarrow> string list" where
  "journaled_codes last_event =
     (if jget (as_dict last_event) ''event'' = JStr ''ALARM''
      then map code_text (p1_coded (issues_of (as_dict last_event)))
        @ List.map_filter (\<lambda>v. case v of JList [JStr c, _] \<Rightarrow> Some c | _ \<Rightarrow> None)
            (list_or_empty (jget (as_dict last_event) ''retained_prior_p1''))
      else [])"

definition rebuilt_state :: "dict \<Rightarrow> (string \<times> string) list \<Rightarrow> (string \<times> string) list \<Rightarrow> dict" where
  "rebuilt_state heartbeat prior confirmed =
     [(''severe'', JList (map incident_json (sort (map (\<lambda>(c, old).
          (c, case dict_get confirmed c of Some a \<Rightarrow> a | None \<Rightarrow> old)) prior)))),
      (''uncertain'', JList []), (''main_observation'', jget heartbeat ''main_observation''),
      (''checked_at_utc'', jget heartbeat ''checked_at_utc'')]"

definition lost_alarm :: "watch_env \<Rightarrow> dict \<Rightarrow> dict \<Rightarrow> (bool \<times> dict) rec_run" where
  "lost_alarm env heartbeat result =
     (let prior = prior_actuals heartbeat; confirmed = actuals (issues_of result);
          failed = (\<lambda>cause. record_unverifiable_prior_state env (JDict heartbeat) cause False)
      in bindSE (catchR (bindSE (liftR (pending_transition_entries (we_time env) (JDict heartbeat))) (\<lambda>pending.
              bindSE (in_fs (last_journaled_transition (we_decode env))) (\<lambda>last_event. returnR (pending, last_event))))
           (\<lambda>e. record_unverifiable_prior_state env (JDict heartbeat) (''cannot validate lost-state journal: '' @ fst e) False)) (\<lambda>(pending, last_event).
         let replay = pending_replay env heartbeat last_event pending; event = jget (as_dict last_event) ''event'' in
         if prior = [] \<or> \<not> set (dict_keys prior) \<subseteq> set (dict_keys confirmed) \<or> (pending \<noteq> [] \<and> \<not> replay)
         then failed ''state.json missing while heartbeat retains incident evidence''
         else if event = JStr ''ALARM'' \<and> \<not> is_list (jget (as_dict last_event) ''issues'')
         then failed ''last ALARM journal payload malformed''
         else if set (dict_keys prior) \<subseteq> set (journaled_codes last_event) \<or> replay
         then returnR (False, rebuilt_state heartbeat prior confirmed)
         else if last_event = JNull \<or> event = JStr ''RECOVERY'' then returnR (True, [])
         else failed ''state.json missing and active journal disagrees with heartbeat''))"

text \<open>The prior state to work with, and whether there is none.\<close>

definition lost_state :: "watch_env \<Rightarrow> json \<Rightarrow> dict \<Rightarrow> (bool \<times> dict) rec_run" where
  "lost_state env heartbeat result = (case heartbeat of
     JDict hb \<Rightarrow>
       bindSE (catchR (verified_lost_state_recovery env hb result) (\<lambda>e.
           record_unverifiable_prior_state env heartbeat (''cannot verify lost-state recovery: '' @ fst e) False)) (\<lambda>preimage.
         case preimage of
           Some previous \<Rightarrow> returnR (False, previous)
         | None \<Rightarrow> if prior_alarm hb then lost_alarm env hb result else returnR (True, []))
   | _ \<Rightarrow> returnR (True, []))"

definition read_prior :: "watch_env \<Rightarrow> json \<Rightarrow> (bool \<times> dict) rec_run" where
  "read_prior env heartbeat s = (case fs_state (rc_fs s) of
     Missing \<Rightarrow> lost_state env heartbeat (rc_result s) s
   | Unreadable kind _ \<Rightarrow> record_unverifiable_prior_state env heartbeat (''unreadable state JSON: '' @ kind) True s
   | Malformed kind _ \<Rightarrow> record_unverifiable_prior_state env heartbeat (''malformed state JSON: '' @ kind) True s
   | Doc (JDict previous) \<Rightarrow> (Inr (False, previous), s)
   | Doc _ \<Rightarrow> record_unverifiable_prior_state env heartbeat ''state root is not object'' True s)"

subsection \<open>Anchors of main after a failed read\<close>

text \<open>
  One round of the merge for a component: the divergence to keep and, when it is overdue and not yet
  flagged, the staleness issue.
\<close>

definition earlier_anchor :: "int option \<Rightarrow> int option \<Rightarrow> int option \<Rightarrow> bool" where
  "earlier_anchor prior observed_at fresh = (case (prior, observed_at) of
     (Some p, Some ob) \<Rightarrow> p \<le> ob \<and> (case fresh of None \<Rightarrow> True | Some f \<Rightarrow> p \<le> f) | _ \<Rightarrow> False)"

definition merge_component :: "watch_env \<Rightarrow> dict \<Rightarrow> dict \<Rightarrow> string \<Rightarrow> dict \<times> dict \<Rightarrow> dict \<times> dict" where
  "merge_component env old commits name = (\<lambda>(divergence, result).
     let tm = we_time env; observed_at = time_of env result; prior = timestamp tm (jget old name);
         known = name \<in> set (dict_keys divergence);
         carried = (name \<notin> set (dict_keys commits) \<and> earlier_anchor prior observed_at None)
     in if \<not> known \<and> \<not> carried then (divergence, result)
        else
          let divergence1 = (if known then divergence else dict_set divergence name (zulu tm (the prior)));
              divergence2 = (if earlier_anchor prior observed_at (timestamp tm (jget divergence1 name))
                             then dict_set divergence1 name (zulu tm (the prior)) else divergence1)
          in (divergence2, case (timestamp tm (jget divergence2 name), observed_at) of
               (Some anchor, Some ob) \<Rightarrow>
                 if name \<notin> set (dict_keys commits) \<or> ''main'' \<notin> set (dict_keys commits)
                   \<or> py_eq (jget commits name) (jget commits ''main'') then result
                 else
                   let age = ob - anchor; code = ''stale_'' @ name in
                   if THRESHOLD \<le> age \<and> \<not> list_ex (\<lambda>i. is_dict i \<and> code_of i = JStr code) (issues_of result)
                   then dict_set (dict_set result ''issues'' (JList (issues_of result @ [JDict
                          [(''code'', JStr code), (''component'', JStr name), (''actual'', jget commits name),
                           (''expected'', jget commits ''main''), (''source'', JStr (watch_url name)), (''severity'', JStr ''P1''),
                           (''duration_seconds'', JInt (round_seconds age))]]))) ''status'' (JStr ''ALARM'')
                   else result
             | _ \<Rightarrow> result))"

definition had_anchor_fault :: "dict \<Rightarrow> bool" where
  "had_anchor_fault result = list_ex (\<lambda>i. is_dict i \<and> code_of i = JStr ''unverifiable_state'') (issues_of result)"

definition merge_first_seen :: "watch_env \<Rightarrow> dict \<Rightarrow> dict \<Rightarrow> dict \<Rightarrow> dict" where
  "merge_first_seen env result prev cur =
     (let tm = we_time env; prior = timestamp tm (jget prev ''first_seen'')
      in if py_eq (jget cur ''sha'') (jget prev ''sha'')
            \<and> earlier_anchor prior (time_of env result) (timestamp tm (jget cur ''first_seen''))
         then dict_set cur ''first_seen'' (zulu tm (the prior)) else cur)"

text \<open>The observation of main to keep, and the report with it.\<close>

definition merge_observation :: "watch_env \<Rightarrow> dict \<Rightarrow> json \<Rightarrow> dict \<Rightarrow> json \<times> dict" where
  "merge_observation env result previous_main cur =
     (let prev = as_dict previous_main; cur = merge_first_seen env result prev cur;
          old = as_dict (jget prev ''diverged_since''); commits = as_dict (jget result ''commits'');
          (divergence, result) = merge_component env old commits ''api''
            (merge_component env old commits ''frontend'' (as_dict (jget cur ''diverged_since''), result))
      in (JDict (if divergence = [] then cur else dict_set cur ''diverged_since'' (JDict divergence)), result))"

definition merge_main :: "watch_env \<Rightarrow> dict \<Rightarrow> dict \<Rightarrow> dict" where
  "merge_main env previous result =
     (let current = jget result ''main_observation''; previous_main = jget previous ''main_observation'';
          (kept, result) = (case current of
             JDict cur \<Rightarrow> if had_anchor_fault result \<and> is_dict previous_main
                          then merge_observation env result previous_main cur else (current, result)
           | _ \<Rightarrow> (keep_observation previous_main current, result))
      in dict_set result ''main_observation'' kept)"

subsection \<open>The pending transitions\<close>

definition all_incidents :: "json list \<Rightarrow> incident list option" where
  "all_incidents vs = (if list_all (\<lambda>v. incident_of v \<noteq> None) vs then Some (List.map_filter incident_of vs) else None)"

definition severe_of :: "bool \<Rightarrow> dict \<Rightarrow> incident list option" where
  "severe_of no_prior previous = (if no_prior then Some [] else
     (case jget previous ''severe'' of JList vs \<Rightarrow> all_incidents vs | _ \<Rightarrow> None))"

definition old_incidents :: "incident list \<Rightarrow> incident list" where
  "old_incidents raw = sort (filter (\<lambda>i. fst i \<notin> {''schedule_stale'', ''schedule_failed'', ''no_schedule''}) raw)"

fun drop_journaled :: "json list \<Rightarrow> json list rec_run" where
  "drop_journaled [] = returnR []"
| "drop_journaled (e # es) = bindSE (in_fs (transition_already_journaled e)) (\<lambda>known.
     bindSE (drop_journaled es) (\<lambda>rest. returnR (if known then rest else e # rest)))"

definition load_pending :: "watch_env \<Rightarrow> dict \<Rightarrow> json \<Rightarrow> json list rec_run" where
  "load_pending env previous heartbeat = catchR
     (bindSE (liftR (pending_transition_entries (we_time env) (JDict previous))) (\<lambda>a.
      bindSE (liftR (pending_transition_entries (we_time env) heartbeat)) (\<lambda>b.
      drop_journaled (add_new (add_new [] a) b))))
     (\<lambda>e. record_unverifiable_prior_state env heartbeat (''invalid pending transition outbox: '' @ fst e) False)"

subsection \<open>Provisional alarms\<close>

definition is_tentative :: "json \<Rightarrow> bool" where
  "is_tentative e = (entry_event e = JStr ''ALARM'' \<and> jget (entry_payload e) ''state_read_unverified'' = JBool True)"

definition tentative_entries :: "time_lib \<Rightarrow> dict \<Rightarrow> json \<Rightarrow> json list \<Rightarrow> json list" where
  "tentative_entries tm previous heartbeat pending =
     add_new [] (filter (\<lambda>e. is_tentative e \<and> py_in e pending)
       (entries_or_none tm (JDict previous) @ entries_or_none tm heartbeat))"

text \<open>Repair an unterminated journal and read its last transition.\<close>

definition tentative_journal :: "watch_env \<Rightarrow> json \<Rightarrow> json rec_run" where
  "tentative_journal env heartbeat = catchR
     (bindSE (in_fs fsync) (\<lambda>_ s.
      bindSE (if journal (rc_fs s) \<noteq> [] \<and> last (journal (rc_fs s)) \<noteq> newline
              then bindSE (in_fs (append_durable_events [])) (\<lambda>_. returnR ()) else returnR ()) (\<lambda>_.
      in_fs (last_journaled_transition (we_decode env))) s))
     (\<lambda>e. record_unverifiable_prior_state env heartbeat (''cannot verify tentative P1 journal: '' @ fst e) False)"

definition is_recovery_after :: "watch_env \<Rightarrow> int \<Rightarrow> int \<Rightarrow> json \<Rightarrow> bool" where
  "is_recovery_after env at_time until e =
     (let payload = entry_payload e in
      entry_event e = JStr ''RECOVERY'' \<and> jget payload ''status'' \<in> {JStr ''HEALTHY'', JStr ''MONITOR_DATA_FAILURE''}
      \<and> is_list (jget payload ''issues'') \<and> p1_free (issues_of payload)
      \<and> (case time_of env payload of Some t \<Rightarrow> at_time < t \<and> t \<le> until | None \<Rightarrow> False))"

fun after_entry :: "json \<Rightarrow> json list \<Rightarrow> json list option" where
  "after_entry e [] = None"
| "after_entry e (x # xs) = (if py_eq x e then Some xs else after_entry e xs)"

definition followed_by_recovery :: "watch_env \<Rightarrow> dict \<Rightarrow> json \<Rightarrow> bool" where
  "followed_by_recovery env previous e =
     (case (after_entry e (entries_or_none (we_time env) (JDict previous)), time_of env (entry_payload e), time_of env previous) of
        (Some later, Some at_time, Some state_checked) \<Rightarrow> list_ex (is_recovery_after env at_time state_checked) later
      | _ \<Rightarrow> False)"

definition state_reconciled :: "watch_env \<Rightarrow> dict \<Rightarrow> string set \<Rightarrow> json \<Rightarrow> bool" where
  "state_reconciled env previous old_codes e =
     (let codes = set (map code_text (coded_p1 (issues_of (entry_payload e)))) in
      after_entry e (entries_or_none (we_time env) (JDict previous)) \<noteq> None \<and> codes \<noteq> {}
      \<and> (codes \<subseteq> old_codes \<or> followed_by_recovery env previous e))"

definition timeline_ok :: "watch_env \<Rightarrow> dict \<Rightarrow> dict \<Rightarrow> json \<Rightarrow> string set \<Rightarrow> json \<Rightarrow> bool" where
  "timeline_ok env previous result journal_last old_codes e =
     (let payload = entry_payload e in
      (case (time_of env payload, time_of env result) of
         (Some at_time, Some checked) \<Rightarrow>
           issues_of payload \<noteq> [] \<and> jget payload ''status'' = JStr ''ALARM'' \<and> at_time \<le> checked
           \<and> (case time_of env previous of Some sc \<Rightarrow> sc \<le> at_time \<or> state_reconciled env previous old_codes e | None \<Rightarrow> True)
           \<and> (journal_last = JNull \<or> (case time_of env (as_dict journal_last) of Some j \<Rightarrow> j \<le> at_time | None \<Rightarrow> False))
       | _ \<Rightarrow> False))"

fun reconcile_tentative ::
  "watch_env \<Rightarrow> json \<Rightarrow> dict \<Rightarrow> json \<Rightarrow> string set \<Rightarrow> json list \<Rightarrow> incident list \<times> json list \<Rightarrow> (incident list \<times> json list) rec_run" where
  "reconcile_tentative env heartbeat previous journal_last journal_codes [] acc = returnR acc"
| "reconcile_tentative env heartbeat previous journal_last journal_codes (e # es) (old, pending) = (\<lambda>s.
     let items = issues_of (entry_payload e); p1 = coded_p1 items; codes = map code_text p1; old_codes = fst ` set old in
     if \<not> timeline_ok env previous (rc_result s) journal_last old_codes e
     then record_unverifiable_prior_state env heartbeat ''unverifiable transient P1 timeline'' False s
     else if codes = [] \<or> \<not> distinct codes \<or> length p1 \<noteq> length items
     then record_unverifiable_prior_state env heartbeat ''malformed transient P1 evidence'' False s
     else if set codes \<subseteq> old_codes \<and> set codes \<subseteq> journal_codes
     then reconcile_tentative env heartbeat previous journal_last journal_codes es (old, filter (\<lambda>x. \<not> py_eq x e) pending) s
     else if followed_by_recovery env previous e
     then reconcile_tentative env heartbeat previous journal_last journal_codes es (old, pending) s
     else reconcile_tentative env heartbeat previous journal_last journal_codes es
            (old @ map (\<lambda>i. (code_text i, actual_text i)) (filter (\<lambda>i. code_text i \<notin> old_codes) p1), pending) s)"

text \<open>The incidents and the outbox after the provisional alarms are admitted.\<close>

definition admit_tentative :: "watch_env \<Rightarrow> json \<Rightarrow> dict \<Rightarrow> incident list \<Rightarrow> json list \<Rightarrow> (incident list \<times> json list) rec_run" where
  "admit_tentative env heartbeat previous old pending =
     (let tentative = tentative_entries (we_time env) previous heartbeat pending in
      if tentative = [] then returnR (old, pending)
      else bindSE (tentative_journal env heartbeat) (\<lambda>journal_last.
        let alarm = jget (as_dict journal_last) ''event'' = JStr ''ALARM'' in
        if alarm \<and> \<not> is_list (jget (as_dict journal_last) ''issues'')
        then record_unverifiable_prior_state env heartbeat ''tentative P1 conflicts with invalid ALARM journal'' False
        else bindSE (reconcile_tentative env heartbeat previous journal_last
               (if alarm then set (map code_text (p1_coded (issues_of (as_dict journal_last)))) else {}) tentative (old, pending))
             (\<lambda>(old, pending). returnR (sort old, pending))))"

subsection \<open>Incidents of an earlier epoch\<close>

text \<open>
  A RECOVERY at the end of the heartbeat's outbox that the state does not own yet, or that was copied into
  the state before a confirmed recurrence: the incidents the state still names belong to the closed epoch.
\<close>

definition heartbeat_recovery :: "time_lib \<Rightarrow> dict \<Rightarrow> json option" where
  "heartbeat_recovery tm heartbeat =
     (let entries = entries_or_none tm (JDict heartbeat)
      in if entries \<noteq> [] \<and> entry_event (last entries) = JStr ''RECOVERY'' then Some (last entries) else None)"

definition recovery_retried :: "watch_env \<Rightarrow> dict \<Rightarrow> dict \<Rightarrow> json \<Rightarrow> bool" where
  "recovery_retried env previous result e =
     (py_in e (entries_or_none (we_time env) (JDict previous)) \<and> jget result ''status'' = JStr ''ALARM'' \<and> \<not> p1_free (issues_of result)
      \<and> (case (time_of env (entry_payload e), time_of env previous, time_of env result) of
            (Some recovery_time, Some state_time, Some checked) \<Rightarrow> recovery_time \<le> state_time \<and> recovery_time < checked
          | _ \<Rightarrow> False))"

definition recovery_only_in_heartbeat :: "watch_env \<Rightarrow> dict \<Rightarrow> dict \<Rightarrow> json \<Rightarrow> bool" where
  "recovery_only_in_heartbeat env previous heartbeat e =
     (\<not> py_in e (entries_or_none (we_time env) (JDict previous)) \<and> time_of env (entry_payload e) = time_of env heartbeat)"

definition epoch_closed :: "watch_env \<Rightarrow> dict \<Rightarrow> json \<Rightarrow> dict \<Rightarrow> json list \<Rightarrow> bool" where
  "epoch_closed env previous heartbeat result pending = (case heartbeat of
     JDict hb \<Rightarrow>
       (case heartbeat_recovery (we_time env) hb of
          None \<Rightarrow> False
        | Some e \<Rightarrow>
            jget result ''status'' \<in> {JStr ''ALARM'', JStr ''HEALTHY''}
            \<and> jget (entry_payload e) ''status'' \<in> {JStr ''HEALTHY'', JStr ''MONITOR_DATA_FAILURE''}
            \<and> is_list (jget (entry_payload e) ''issues'') \<and> p1_free (issues_of (entry_payload e))
            \<and> py_in e pending \<and> py_eq (last pending) e
            \<and> (case (time_of env hb, time_of env previous) of
                 (Some heartbeat_time, Some state_time) \<Rightarrow> state_time \<le> heartbeat_time | _ \<Rightarrow> False)
            \<and> (recovery_only_in_heartbeat env previous hb e \<or> recovery_retried env previous result e))
   | _ \<Rightarrow> False)"

text \<open>P1 issues of the overflow that no RECOVERY closed, newest entry first.\<close>

definition overflow_incidents :: "json \<Rightarrow> incident list \<Rightarrow> incident list" where
  "overflow_incidents heartbeat old =
     (let open_entries = takeWhile (\<lambda>e. entry_event e \<noteq> JStr ''RECOVERY'')
            (rev (list_or_empty (jget (as_dict heartbeat) ''pending_surge_overflow'')));
          issues = concat (map (\<lambda>e. coded_p1 (issues_of (entry_payload e))) open_entries)
      in sort (fold (\<lambda>i acc. if code_text i \<in> fst ` set acc then acc else acc @ [(code_text i, actual_text i)]) issues old))"

definition active_incidents :: "watch_env \<Rightarrow> dict \<Rightarrow> json \<Rightarrow> dict \<Rightarrow> incident list \<Rightarrow> json list \<Rightarrow> incident list" where
  "active_incidents env previous heartbeat result old pending =
     (let old = (if old \<noteq> [] \<and> epoch_closed env previous heartbeat result pending then [] else old)
      in if is_dict heartbeat then overflow_incidents heartbeat old else old)"

subsection \<open>The decision\<close>

definition detected_incidents :: "dict \<Rightarrow> incident list" where
  "detected_incidents result =
     sort (map (\<lambda>i. (code_text i, actual_text i)) (filter (\<lambda>i. severity_of i = JStr ''P1'') (issues_of result)))"

definition uncertain_codes :: "dict \<Rightarrow> string list" where
  "uncertain_codes result = sort (map code_text (filter (\<lambda>i. severity_of i = JStr ''P2'') (issues_of result)))"

definition observed_codes :: "dict \<Rightarrow> string list" where
  "observed_codes result = map code_text (issues_of result)"

definition at_capacity :: "bool \<Rightarrow> dict \<Rightarrow> bool" where
  "at_capacity suppress result = (suppress \<and> ''watcher_outbox_at_capacity'' \<in> set (observed_codes result))"

definition removeprefix :: "string \<Rightarrow> string \<Rightarrow> string" where
  "removeprefix p s = (if starts_with p s then drop (length p) s else s)"

definition still_stale :: "dict \<Rightarrow> string \<Rightarrow> bool" where
  "still_stale commits code =
     (let name = removeprefix ''stale_'' code in
      code \<in> {''stale_frontend'', ''stale_api''} \<and> name \<in> set (dict_keys commits) \<and> ''main'' \<in> set (dict_keys commits)
      \<and> \<not> py_eq (jget commits name) (jget commits ''main''))"

text \<open>An old incident that this poll could not have seen recovered.\<close>

definition unverified :: "dict \<Rightarrow> string \<Rightarrow> bool" where
  "unverified result code =
     (let seen = set (observed_codes result) in
      set (unverifiable_on code) \<inter> seen \<noteq> {} \<or> still_stale (as_dict (jget result ''commits'')) code
      \<or> code \<in> {''unavailable_frontend'', ''unavailable_api''} \<inter> set (uncertain_codes result)
      \<or> ''watcher_execution_failed'' \<in> seen \<or> ''unverifiable_state'' \<in> seen)"

definition keep_unverified :: "dict \<Rightarrow> string list \<Rightarrow> incident list \<Rightarrow> incident list \<Rightarrow> incident list" where
  "keep_unverified result p1_seen old severe = sort (fold (\<lambda>i acc.
     if fst i \<in> set p1_seen then acc
     else if i \<notin> set acc \<and> unverified result (fst i) then acc @ [i] else acc) old severe)"

text \<open>The active incidents after this poll.\<close>

definition severe_after :: "bool \<Rightarrow> dict \<Rightarrow> incident list \<Rightarrow> incident list" where
  "severe_after suppress result old =
     keep_unverified result (map fst (detected_incidents result)) old
       (if at_capacity suppress result then old else detected_incidents result)"

definition incidents_json :: "incident list \<Rightarrow> json" where
  "incidents_json is = JList (map incident_json is)"

definition decided_result :: "bool \<Rightarrow> dict \<Rightarrow> incident list \<Rightarrow> dict" where
  "decided_result suppress result old =
     (let held = (if at_capacity suppress result \<and> old \<noteq> []
            then dict_set (dict_set (dict_set result ''retained_prior_p1'' (incidents_json old))
                   ''observation_status'' (jget result ''status'')) ''status'' (JStr ''ALARM'')
            else result);
          severe = severe_after suppress result old;
          retained = filter (\<lambda>i. i \<notin> set (detected_incidents result)) severe;
          marked = (if retained = [] then held
            else dict_set (dict_set held ''observation_status'' (jget held ''status'')) ''retained_prior_p1'' (incidents_json retained))
      in if severe = [] then marked else dict_set marked ''status'' (JStr ''ALARM''))"

definition transition_of :: "incident list \<Rightarrow> incident list \<Rightarrow> string option" where
  "transition_of old severe =
     (if \<not> fst ` set severe \<subseteq> fst ` set old then Some ''ALARM''
      else if old \<noteq> [] \<and> severe = [] then Some ''RECOVERY'' else None)"

definition uncertainty_event :: "dict \<Rightarrow> string list \<Rightarrow> string option" where
  "uncertainty_event previous uncertain =
     (if uncertain \<noteq> [] \<and> \<not> py_eq (JList (map JStr uncertain)) (JList (list_or_empty (jget previous ''uncertain'')))
      then Some ''MONITOR_DATA_FAILURE'' else None)"

text \<open>The outbox with the transition of this poll; a RECOVERY that repeats the last one is not queued.\<close>

definition event_payload :: "string \<Rightarrow> dict \<Rightarrow> dict" where
  "event_payload event result = dict_union [(''event'', JStr event)] (without_outbox result @ [(''issue_url'', ISSUE_URL)])"

definition recovery_repeats :: "json list \<Rightarrow> bool" where
  "recovery_repeats pending =
     (let later = takeWhile (\<lambda>e. entry_event e \<noteq> JStr ''RECOVERY'') (rev pending)
      in later \<noteq> rev pending \<and> list_all (\<lambda>e. entry_event e \<noteq> JStr ''ALARM'') later)"

definition queue_transition :: "string option \<Rightarrow> dict \<Rightarrow> json list \<Rightarrow> json list" where
  "queue_transition transition result pending = (case transition of
     None \<Rightarrow> pending
   | Some event \<Rightarrow>
       if event = ''RECOVERY'' \<and> recovery_repeats pending then pending
       else add_new pending [transition_entry event (event_payload event result)])"

subsection \<open>Persisting\<close>

definition dict_pop :: "dict \<Rightarrow> string \<Rightarrow> dict" where
  "dict_pop d k = filter (\<lambda>(k', v). k' \<noteq> k) d"

definition with_outbox :: "dict \<Rightarrow> json list \<Rightarrow> dict" where
  "with_outbox result pending =
     (let result = dict_pop result ''pending_surge_overflow''
      in if pending = [] then dict_pop result ''pending_transitions'' else dict_union result (outbox_fields pending))"

definition state_snapshot :: "dict \<Rightarrow> incident list \<Rightarrow> string list \<Rightarrow> json list \<Rightarrow> dict" where
  "state_snapshot result severe uncertain pending =
     [(''severe'', incidents_json severe), (''uncertain'', JList (map JStr uncertain)),
      (''main_observation'', jget result ''main_observation''), (''checked_at_utc'', jget result ''checked_at_utc'')]
     @ outbox_fields pending"

definition persist_snapshots :: "incident list \<Rightarrow> string list \<Rightarrow> json list \<Rightarrow> bool \<Rightarrow> unit rec_run" where
  "persist_snapshots severe uncertain pending heartbeat_first s =
     (let result = with_outbox (rc_result s) pending;
          state = in_fs (write_json StateFile (JDict (state_snapshot result severe uncertain pending)));
          heartbeat = in_fs (write_json HeartbeatFile (JDict result))
      in bindSE (set_result result) (\<lambda>_.
         if heartbeat_first then bindSE heartbeat (\<lambda>_. state) else bindSE state (\<lambda>_. heartbeat)) s)"

definition is_recovery :: "json \<Rightarrow> bool" where
  "is_recovery e = (entry_event e = JStr ''RECOVERY'')"

text \<open>
  The entries that may be journaled now, in order: a RECOVERY waits while the observation is uncertain, or
  while an old incident is still active unless a newer ALARM follows in the outbox.
\<close>

definition replay_blocked :: "bool \<Rightarrow> bool \<Rightarrow> json list \<Rightarrow> bool" where
  "replay_blocked unknown overlap later =
     (unknown \<or> overlap \<and> list_all (\<lambda>e. entry_event e \<noteq> JStr ''ALARM'') later)"

fun ready_entries :: "bool \<Rightarrow> bool \<Rightarrow> nat \<Rightarrow> json list \<Rightarrow> json list" where
  "ready_entries unknown overlap 0 es = []"
| "ready_entries unknown overlap (Suc n) [] = []"
| "ready_entries unknown overlap (Suc n) (e # es) =
     (if is_recovery e \<and> replay_blocked unknown overlap es then [] else e # ready_entries unknown overlap n es)"

definition entry_payloads :: "json list \<Rightarrow> json list" where
  "entry_payloads es = map (\<lambda>e. JDict (entry_payload e)) es"

definition blocked_by :: "dict \<Rightarrow> bool" where
  "blocked_by result = (''watcher_execution_failed'' \<in> set (observed_codes result) \<or> ''unverifiable_state'' \<in> set (observed_codes result))"

text \<open>Draining an outbox that has outgrown its normal limit: first persist everything, then journal.\<close>

definition drain_surge ::
  "watch_env \<Rightarrow> json \<Rightarrow> incident list \<Rightarrow> string list \<Rightarrow> bool \<Rightarrow> bool \<Rightarrow> nat \<Rightarrow> json list \<Rightarrow> (json \<times> json list) rec_run" where
  "drain_surge env heartbeat severe uncertain unknown overlap count pending =
     (if length pending \<le> OUTBOX_NORMAL_LIMIT then returnR (JNull, pending)
      else bindSE (persist_snapshots severe uncertain pending (list_ex is_recovery pending)) (\<lambda>_.
        let ready = ready_entries unknown overlap count pending in
        if length ready < length pending - OUTBOX_NORMAL_LIMIT
        then record_unverifiable_prior_state env heartbeat ''pending transition outbox at capacity with blocked recovery'' False
        else bindSE (catchR (in_fs (append_durable_events (entry_payloads ready))) (\<lambda>e.
               record_unverifiable_prior_state env heartbeat (''pending outbox drain failed: '' @ fst e) False)) (\<lambda>_.
             returnR (if ready = [] then JNull else entry_event (last ready), drop (length ready) pending))))"

definition log_failure_item :: "watch_env \<Rightarrow> exc \<Rightarrow> json" where
  "log_failure_item env e = raw_item ''event_log_write_failed'' ''watcher event history'' (exc_text e)
     ''append and fsync local event history'' (we_events_path env)"

definition log_failed_result :: "watch_env \<Rightarrow> exc \<Rightarrow> incident list \<Rightarrow> dict \<Rightarrow> dict" where
  "log_failed_result env e severe result =
     (let result = dict_set result ''issues'' (JList (issues_of result @ [log_failure_item env e]))
      in if severe \<noteq> [] then result
         else dict_set (dict_set result ''observation_status'' (jget result ''status'')) ''status'' (JStr ''MONITOR_DATA_FAILURE''))"

text \<open>The append: the outbox left, the uncertain codes and whether the journal failed.\<close>

definition journal_step ::
  "watch_env \<Rightarrow> incident list \<Rightarrow> string list \<Rightarrow> json list \<Rightarrow> json list \<Rightarrow> json list \<Rightarrow> (json list \<times> string list \<times> bool) rec_run" where
  "journal_step env severe uncertain ready events pending =
     (if events = [] then returnR (pending, uncertain, False)
      else catchR
        (bindSE (in_fs (append_durable_events events)) (\<lambda>names s.
           (Inr (filter (\<lambda>e. \<not> py_in e ready) pending, uncertain, False), s\<lparr>rc_committed := rc_committed s @ names\<rparr>)))
        (\<lambda>e s. (Inr (pending, sort (remdups (''event_log_write_failed'' # uncertain)), True),
                 s\<lparr>rc_result := log_failed_result env e severe (rc_result s)\<rparr>)))"

definition replayed_event :: "time_lib \<Rightarrow> dict \<Rightarrow> json \<Rightarrow> json list \<Rightarrow> json" where
  "replayed_event tm previous heartbeat ready =
     (case filter (\<lambda>e. \<not> py_in e (entries_or_none tm (JDict previous)) \<and> \<not> py_in e (entries_or_none tm heartbeat)) ready of
        e # _ \<Rightarrow> entry_event e
      | [] \<Rightarrow> (case ready of e # _ \<Rightarrow> entry_event e | [] \<Rightarrow> JNull))"

definition opt_event :: "string option \<Rightarrow> json" where
  "opt_event e = (case e of None \<Rightarrow> JNull | Some s \<Rightarrow> JStr s)"

definition or_value :: "json \<Rightarrow> json \<Rightarrow> json" where
  "or_value a b = (if truthy a then a else b)"

text \<open>Everything after the outbox is known: drain, persist, journal, persist again.\<close>

definition publish ::
  "watch_env \<Rightarrow> json \<Rightarrow> dict \<Rightarrow> bool \<Rightarrow> incident list \<Rightarrow> incident list \<Rightarrow> nat \<Rightarrow> json list \<Rightarrow> json rec_run" where
  "publish env heartbeat previous suppress old severe count pending s =
     (let result = rc_result s; uncertain = uncertain_codes result;
          transition = transition_of old severe; uncertainty = uncertainty_event previous uncertain;
          unknown = blocked_by result; overlap = (fst ` set old \<inter> fst ` set severe \<noteq> {})
      in bindSE (if pending \<noteq> [] \<and> OUTBOX_MAX_BYTES < sum_list (map entry_bytes pending)
                 then record_unverifiable_prior_state env heartbeat ''pending transition storage exhausted: observer must stop'' False
                 else returnR ()) (\<lambda>_.
         bindSE (drain_surge env heartbeat severe uncertain unknown overlap count pending) (\<lambda>(drained, pending).
         let ready = (if suppress then [] else ready_entries unknown overlap (length pending) pending);
             recovery_before = list_ex is_recovery ready
         in
         bindSE (if ready = [] then returnR () else persist_snapshots severe uncertain pending recovery_before) (\<lambda>_ s.
         let events = entry_payloads ready @ (case uncertainty of None \<Rightarrow> []
               | Some event \<Rightarrow> [JDict (event_payload event (rc_result s))]) in
         bindSE (journal_step env severe uncertain ready events pending) (\<lambda>(pending, uncertain, failed).
         bindSE (if \<not> recovery_before \<or> failed \<or> ready \<noteq> [] then persist_snapshots severe uncertain pending False else returnR ()) (\<lambda>_.
         returnR (or_value (or_value (opt_event transition) (opt_event uncertainty))
           (or_value (if failed then JNull else replayed_event (we_time env) previous heartbeat ready) drained)))) s))) s)"

subsection \<open>The whole step\<close>

definition is_older :: "watch_env \<Rightarrow> bool \<Rightarrow> dict \<Rightarrow> dict \<Rightarrow> bool" where
  "is_older env serialized anchor result = (\<not> serialized \<and> (case time_of env anchor of
     None \<Rightarrow> False
   | Some t \<Rightarrow> (case time_of env result of None \<Rightarrow> True | Some c \<Rightarrow> c < t)))"

definition heartbeat_of :: "doc \<Rightarrow> json" where
  "heartbeat_of d = (case d of Doc v \<Rightarrow> v | _ \<Rightarrow> JNull)"

definition record_prior :: "watch_env \<Rightarrow> bool \<Rightarrow> json \<Rightarrow> (bool \<times> dict \<times> incident list) rec_run" where
  "record_prior env serialized heartbeat s =
     bindSE (if is_dict heartbeat \<and> is_older env serialized (as_dict heartbeat) (rc_result s) then exitR JNull else returnR ()) (\<lambda>_.
     bindSE (read_prior env heartbeat) (\<lambda>(no_prior, previous).
     bindSE (\<lambda>s. set_result (merge_main env previous (rc_result s)) s) (\<lambda>_ s.
       case severe_of no_prior previous of
         None \<Rightarrow> record_unverifiable_prior_state env heartbeat ''missing or malformed severe incident list'' False s
       | Some raw \<Rightarrow>
           if is_older env serialized previous (rc_result s) then exitR JNull s
           else (Inr (no_prior, previous, old_incidents raw), s)))) s"

definition record_steps :: "watch_env \<Rightarrow> bool \<Rightarrow> bool \<Rightarrow> json rec_run" where
  "record_steps env serialized suppress =
     bindSE (in_fs fsync) (\<lambda>_ s. let heartbeat = heartbeat_of (fs_heartbeat (rc_fs s)) in
     bindSE (record_prior env serialized heartbeat) (\<lambda>(_, previous, old).
     bindSE (load_pending env previous heartbeat) (\<lambda>pending.
     bindSE (admit_tentative env heartbeat previous old pending) (\<lambda>(old, pending) s.
       let old = active_incidents env previous heartbeat (rc_result s) old pending;
           severe = severe_after suppress (rc_result s) old;
           result = decided_result suppress (rc_result s) old;
           transition = (if suppress then None else transition_of old severe);
           queued = queue_transition transition result pending
       in bindSE (set_result result) (\<lambda>_. publish env heartbeat previous suppress old severe (length pending) queued) s))) s)"

text \<open>The value returned or the exception, with the state at that moment.\<close>

definition watch_record :: "watch_env \<Rightarrow> bool \<Rightarrow> bool \<Rightarrow> watch_rec \<Rightarrow> (exc + json) \<times> watch_rec" where
  "watch_record env serialized suppress s = (case record_steps env serialized suppress s of
     (Inr v, s') \<Rightarrow> (Inr v, s') | (Inl (Return v), s') \<Rightarrow> (Inr v, s') | (Inl (Raise e), s') \<Rightarrow> (Inl e, s'))"

end
