(* ===== verification/Watch_Main.thy ===== *)
theory Watch_Main
  imports Watch_Record
begin

text \<open>
  \<open>src/scripts/ops/independent_production_watch.py\<close>, the command: admission of a poll by the room in the
  outbox (\<open>_observation_admitted\<close>), persisting a cycle with its fallback (\<open>_persist_cycle\<close>) and \<open>main\<close>.
  Signals, the umask and standard output are not modelled; the exit code is the result.
\<close>

definition outbox_room :: "time_lib \<Rightarrow> json \<Rightarrow> bool" where
  "outbox_room tm snapshot = (case pending_transition_entries tm snapshot of
     Inl _ \<Rightarrow> False
   | Inr pending \<Rightarrow> sum_list (map entry_bytes pending) \<le> OUTBOX_MAX_BYTES - OUTBOX_ADMISSION_RESERVE)"

text \<open>A state that does not decode is no proof of a full outbox; an unreadable file or heartbeat is.\<close>

definition observation_admitted :: "time_lib \<Rightarrow> bool fs_run" where
  "observation_admitted tm = bindSE fsync (\<lambda>_ fs. (Inr (
     (case fs_state fs of Missing \<Rightarrow> True | Malformed _ _ \<Rightarrow> True | Unreadable _ _ \<Rightarrow> False | Doc v \<Rightarrow> outbox_room tm v)
     \<and> (case fs_heartbeat fs of Missing \<Rightarrow> True | Malformed _ _ \<Rightarrow> False | Unreadable _ _ \<Rightarrow> False | Doc v \<Rightarrow> outbox_room tm v)), fs))"

text \<open>The report of a failed write: it keeps the observation of main and the P1 issues of the poll.\<close>

definition fallback_report :: "watch_env \<Rightarrow> exc \<Rightarrow> dict \<Rightarrow> dict" where
  "fallback_report env e result =
     (let failure = failure_with_p1 (we_time env) (we_now env) e (p1_items (issues_of result));
          main = jget result ''main_observation''
      in if is_dict main then dict_set failure ''main_observation'' main else failure)"

definition committed_transition :: "json list \<Rightarrow> bool" where
  "committed_transition names = (JStr ''ALARM'' \<in> set names \<or> JStr ''RECOVERY'' \<in> set names)"

definition persist_cycle :: "watch_env \<Rightarrow> dict \<Rightarrow> bool \<Rightarrow> watch_fs \<Rightarrow> int \<times> watch_fs" where
  "persist_cycle env result suppress fs =
     (case watch_record env True suppress \<lparr>rc_fs = fs, rc_result = result, rc_committed = []\<rparr> of
        (Inr _, s) \<Rightarrow> (if jget (rc_result s) ''status'' = JStr ''HEALTHY'' then 0 else 2, rc_fs s)
      | (Inl e, s) \<Rightarrow>
          (2, rc_fs (snd (watch_record env True (committed_transition (rc_committed s))
                \<lparr>rc_fs = rc_fs s, rc_result = fallback_report env e (rc_result s), rc_committed = []\<rparr>))))"

text \<open>The report of a poll that was not admitted.\<close>

definition capacity_report :: "watch_env \<Rightarrow> dict" where
  "capacity_report env = failure_report (we_time env) (we_now env) ''MONITOR_DATA_FAILURE''
     [raw_item ''watcher_outbox_at_capacity'' ''watcher durable event queue''
        (exc_text (''ValueError'', ''durable watcher outbox at capacity or unverifiable''))
        ''journal drain frees admission headroom'' (we_state_path env)]"

text \<open>One run under the poll lock; \<open>locked\<close> says that another run holds it.\<close>

definition watch_main ::
  "watch_env \<Rightarrow> int \<Rightarrow> (string \<Rightarrow> reading) \<Rightarrow> bool \<Rightarrow> bool \<Rightarrow> watch_fs \<Rightarrow> (exc + int) \<times> watch_fs" where
  "watch_main env now reader dry_run locked fs =
     (let cycle = (\<lambda>fs. evaluate_cycle (we_time env) now reader (we_state_path env) (fs_state fs)) in
      if dry_run then (Inr (if jget (cycle fs) ''status'' = JStr ''HEALTHY'' then 0 else 2), fs)
      else bindSE fsync (\<lambda>_ fs.
        if locked then (Inr 2, fs)
        else bindSE (observation_admitted (we_time env)) (\<lambda>admitted fs.
          case persist_cycle env (if admitted then cycle fs else capacity_report env) (\<not> admitted) fs of
            (code, fs') \<Rightarrow> (Inr code, fs')) fs) fs)"

end
