(* ===== verification/Watch_Durable.thy ===== *)
theory Watch_Durable
  imports Watch_Main
begin

text \<open>
  What the steps of the production watch keep of its state directory.  The locale \<open>fs_invariant\<close> is the
  interface between the steps and a property of the directory: the property ignores the faults to come and the
  heartbeat and survives an append to the journal, and then no step of \<open>record\<close> before the snapshots are
  written breaks it.  It is interpreted for the complete lines of the journal, for the lines that are in the
  journal or in the outbox of \<open>state.json\<close>, and for the contents of \<open>state.json\<close> itself.
\<close>

subsection \<open>Steps that do not write the state\<close>

text \<open>
  A property of the directory that no step but a write of \<open>state.json\<close> can break: it ignores the faults to
  come and the heartbeat, and an append to the journal keeps it.
\<close>

locale fs_invariant =
  fixes holds :: "watch_fs \<Rightarrow> bool"
  assumes faults_kept: "holds fs \<Longrightarrow> holds (fs\<lparr>fs_faults := f\<rparr>)"
    and heartbeat_kept: "holds fs \<Longrightarrow> holds (fs\<lparr>fs_heartbeat := d\<rparr>)"
    and append_kept: "holds fs \<Longrightarrow> append_durable_events events fs = (r, fs') \<Longrightarrow> holds fs'"
begin

definition keeps_fs :: "(watch_fs \<Rightarrow> ('e + 'a) \<times> watch_fs) \<Rightarrow> bool" where
  "keeps_fs m = (\<forall>fs. holds fs \<longrightarrow> holds (snd (m fs)))"

definition keeps :: "(watch_rec \<Rightarrow> ('e + 'a) \<times> watch_rec) \<Rightarrow> bool" where
  "keeps m = (\<forall>s. holds (rc_fs s) \<longrightarrow> holds (rc_fs (snd (m s))))"

lemma keeps_fs_bind: "keeps_fs m \<Longrightarrow> (\<And>x. keeps_fs (f x)) \<Longrightarrow> keeps_fs (bindSE m f)"
  unfolding keeps_fs_def bindSE_def by (fastforce split: prod.splits sum.splits)

lemma keeps_bind: "keeps m \<Longrightarrow> (\<And>x. keeps (f x)) \<Longrightarrow> keeps (bindSE m f)"
  unfolding keeps_def bindSE_def by (fastforce split: prod.splits sum.splits)

lemma keeps_basic:
  "keeps (returnR x)" "keeps (exitR v)" "keeps (liftR r)" "keeps (set_result d)" "keeps (\<lambda>s. (r' s, s))"
  "keeps (\<lambda>s. set_result (g s) s)"
  by (auto simp: keeps_def returnR_def exitR_def liftR_def set_result_def split: sum.splits)

lemma keeps_in_fs: "keeps_fs m \<Longrightarrow> keeps (in_fs m)"
  by (auto simp: keeps_def keeps_fs_def in_fs_def split: prod.splits sum.splits)

lemma keeps_catchR: "keeps m \<Longrightarrow> (\<And>e. keeps (h e)) \<Longrightarrow> keeps (catchR m h)"
  unfolding keeps_def catchR_def by (fastforce split: prod.splits sum.splits flow.splits)

lemma next_fault_kept: "holds fs \<Longrightarrow> next_fault fs = (f, fs') \<Longrightarrow> holds fs'"
  using faults_kept by (auto simp: next_fault_def split: list.splits)

lemma keeps_syscall: "(\<And>fs. holds fs \<Longrightarrow> holds (effect fs)) \<Longrightarrow> keeps_fs (syscall effect)"
  unfolding keeps_fs_def syscall_def using next_fault_kept by (fastforce split: prod.splits fault.splits)

lemma keeps_fsync: "keeps_fs fsync"
  unfolding fsync_def by (rule keeps_syscall)

lemma keeps_heartbeat: "keeps_fs (write_json HeartbeatFile v)"
  unfolding write_json_def
  by (intro keeps_fs_bind keeps_fsync keeps_syscall) (simp add: put_doc_def heartbeat_kept)

lemma keeps_append: "keeps_fs (append_durable_events events)"
  unfolding keeps_fs_def using append_kept by (metis prod.collapse)

lemma keeps_journaled: "keeps_fs (transition_already_journaled e)"
proof -
  have "keeps_fs (bindSE fsync (\<lambda>_. bindSE fsync (\<lambda>_. returnF True)))"
    by (intro keeps_fs_bind keeps_fsync) (simp add: keeps_fs_def returnF_def)
  then show ?thesis
    unfolding transition_already_journaled_def
    by (intro keeps_fs_bind keeps_syscall) (auto simp: keeps_fs_def returnF_def split: option.splits)
qed

lemma keeps_last_transition: "keeps_fs (last_journaled_transition decode)"
proof -
  have "keeps_fs (bindSE (liftF r) (\<lambda>last. bindSE fsync (\<lambda>_. bindSE fsync (\<lambda>_. returnF last))))" for r :: "exc + json"
    by (intro keeps_fs_bind keeps_fsync) (simp_all add: keeps_fs_def returnF_def liftF_def)
  then show ?thesis
    unfolding last_journaled_transition_def
    by (intro keeps_fs_bind keeps_syscall) (auto simp: keeps_fs_def returnF_def split: option.splits)
qed

lemma keeps_apply: "keeps m \<Longrightarrow> holds (rc_fs s) \<Longrightarrow> holds (rc_fs (snd (m s)))"
  by (simp add: keeps_def)

lemma keeps_unverifiable: "keeps (record_unverifiable_prior_state env heartbeat cause uncertain :: 'c rec_run)"
proof -
  have "holds (rc_fs (snd ((record_unverifiable_prior_state env heartbeat cause uncertain :: 'c rec_run) s)))"
    if h: "holds (rc_fs s)" for s
    unfolding record_unverifiable_prior_state_def Let_def
    by (rule keeps_apply [OF _ h]) (intro keeps_bind keeps_basic keeps_in_fs keeps_heartbeat)
  then show ?thesis by (simp add: keeps_def)
qed

lemmas keeps_rules = keeps_bind keeps_basic keeps_in_fs keeps_catchR keeps_append keeps_fsync keeps_journaled
  keeps_last_transition keeps_unverifiable

lemma keeps_lost_recovery: "keeps (verified_lost_state_recovery env hb result)"
  unfolding verified_lost_state_recovery_def by (auto intro!: keeps_rules split: list.splits)

lemma keeps_lost_alarm: "keeps (lost_alarm env hb result)"
  unfolding lost_alarm_def Let_def by (auto intro!: keeps_rules)

lemma keeps_lost_state: "keeps (lost_state env heartbeat result)"
  unfolding lost_state_def
  by (auto intro!: keeps_rules keeps_lost_recovery keeps_lost_alarm split: json.splits option.splits)

lemma keeps_read_prior: "keeps (read_prior env heartbeat)"
proof -
  have "holds (rc_fs (snd (read_prior env heartbeat s)))" if h: "holds (rc_fs s)" for s
    using h keeps_apply [OF keeps_unverifiable h] keeps_apply [OF keeps_lost_state h]
    by (auto simp: read_prior_def split: doc.splits json.splits)
  then show ?thesis by (simp add: keeps_def)
qed

lemma keeps_record_prior: "keeps (record_prior env serialized heartbeat)"
proof -
  have 1: "keeps (\<lambda>s. case severe_of no_prior previous of
         None \<Rightarrow> record_unverifiable_prior_state env heartbeat ''missing or malformed severe incident list'' False s
       | Some raw \<Rightarrow> if is_older env serialized previous (rc_result s) then exitR JNull s
           else (Inr (no_prior, previous, old_incidents raw), s))" for no_prior previous
    using keeps_apply [OF keeps_unverifiable] by (auto simp: keeps_def exitR_def split: option.splits)
  have "holds (rc_fs (snd (record_prior env serialized heartbeat s)))" if h: "holds (rc_fs s)" for s
    unfolding record_prior_def
    by (rule keeps_apply [OF _ h]) (auto intro!: keeps_bind keeps_basic keeps_read_prior 1)
  then show ?thesis by (simp add: keeps_def)
qed

lemma keeps_drop_journaled: "keeps (drop_journaled es)"
  by (induction es) (auto intro!: keeps_rules)

lemma keeps_load_pending: "keeps (load_pending env previous heartbeat)"
  unfolding load_pending_def by (intro keeps_rules keeps_drop_journaled)

lemma keeps_tentative_journal: "keeps (tentative_journal env heartbeat)"
proof -
  have "keeps (\<lambda>s. bindSE (if journal (rc_fs s) \<noteq> [] \<and> last (journal (rc_fs s)) \<noteq> newline
              then bindSE (in_fs (append_durable_events [])) (\<lambda>_. returnR ()) else returnR ())
            (\<lambda>_. in_fs (last_journaled_transition (we_decode env))) s)"
    unfolding keeps_def by (intro allI impI, rule keeps_apply) (auto intro!: keeps_rules)
  then show ?thesis unfolding tentative_journal_def by (intro keeps_catchR keeps_bind keeps_in_fs keeps_fsync keeps_unverifiable)
qed

lemma keeps_reconcile: "keeps (reconcile_tentative env heartbeat previous jl jc es acc)"
proof (induction es arbitrary: acc)
  case (Cons e es)
  obtain old pending where "acc = (old, pending)" by fastforce
  with Cons keeps_apply [OF keeps_unverifiable] show ?case by (auto simp: keeps_def Let_def)
qed (simp add: keeps_basic)

lemma keeps_admit: "keeps (admit_tentative env heartbeat previous old pending)"
  unfolding admit_tentative_def Let_def
  by (auto intro!: keeps_rules keeps_tentative_journal keeps_reconcile)

end

definition terminated :: "string \<Rightarrow> bool" where
  "terminated p = (p = [] \<or> last p = newline)"


subsection \<open>Lines that stay in the journal\<close>

lemma terminated_complete: "terminated (complete_part s)"
  using hd_dropWhile [of "\<lambda>c. c \<noteq> newline" "rev s"] by (auto simp: terminated_def complete_part_def last_rev)

lemma complete_part_terminated: "terminated p \<Longrightarrow> complete_part p = p"
  by (cases p rule: rev_cases) (auto simp: terminated_def complete_part_def)

lemma complete_part_extend: "terminated p \<Longrightarrow> complete_part (p @ t) = p @ complete_part t"
  by (cases "newline \<in> set t")
    (simp_all add: complete_part_append complete_part_drop complete_part_terminated complete_part_Nil [THEN iffD2])

lemma journal_lines_append: "terminated p \<Longrightarrow> journal_lines (p @ q) = journal_lines p @ journal_lines q"
proof (induction p rule: measure_induct_rule [of length])
  case (less p)
  show ?case
  proof (cases p rule: line_cases)
    case (line a b)
    moreover have "terminated b" using less.prems line by (auto simp: terminated_def split: if_splits)
    ultimately show ?thesis using less.IH [of b] by (simp add: journal_lines_line)
  next
    case partial
    then have "p = []" using less.prems by (auto simp: terminated_def) (metis last_in_set)
    then show ?thesis by simp
  qed
qed

lemma terminated_append: "terminated a \<Longrightarrow> terminated b \<Longrightarrow> terminated (a @ b)"
  by (auto simp: terminated_def last_append)

lemma partial_no_line: "newline \<notin> set t \<Longrightarrow> y @ [newline] \<notin> set (journal_lines t)"
  by (auto simp: journal_lines_partial)

definition journaled :: "string \<Rightarrow> watch_fs \<Rightarrow> bool" where
  "journaled l fs = (l \<in> set (journal_lines (complete_part (journal fs))))"

lemma journaled_full:
  assumes "y @ [newline] \<in> set (journal_lines (journal fs))"
  shows "journaled (y @ [newline]) fs"
proof -
  let ?t = "rev (takeWhile (\<lambda>c. c \<noteq> newline) (rev (journal fs)))"
  have t: "newline \<notin> set ?t" by (auto dest: set_takeWhileD)
  have "journal_lines (journal fs) = journal_lines (complete_part (journal fs)) @ journal_lines ?t"
    using journal_lines_append [OF terminated_complete] complete_part_split by metis
  with assms partial_no_line [OF t] show ?thesis by (auto simp: journaled_def)
qed

lemma journaled_append:
  assumes "journaled l fs" "append_durable_events events fs = (r, fs')"
  shows "journaled l fs'"
proof -
  let ?p = "complete_part (journal fs)"
  have "journal fs' = journal fs \<or> (\<exists>t. journal fs' = ?p @ t)"
    using append_run [OF assms(2)] by (auto split: sum.splits)
  then show ?thesis
    using assms(1) by (auto simp: journaled_def complete_part_extend terminated_complete journal_lines_append)
qed

lemma terminated_lines: "terminated (concat (map event_line es))"
  by (induction es rule: rev_induct) (auto simp: terminated_def event_line_def)

lemma appended_journaled:
  assumes "append_durable_events events fs = (Inr names, fs')" "v \<in> set events" "newline \<notin> set (dumps_compact v)"
  shows "journaled (event_line v) fs'"
proof -
  from assms(2) obtain a b where ab: "events = a @ v # b" by (auto simp: in_set_conv_decomp)
  let ?p = "complete_part (journal fs) @ concat (map event_line a)"
  have "terminated ?p" by (intro terminated_append terminated_complete terminated_lines)
  moreover have j: "journal fs' = ?p @ event_line v @ concat (map event_line b)"
    using append_run [OF assms(1)] by (simp add: ab)
  moreover have "complete_part (journal fs') = journal fs'"
    unfolding j by (intro complete_part_terminated terminated_append terminated_complete terminated_lines)
      (simp add: terminated_def event_line_def)
  ultimately have "journal_lines (complete_part (journal fs')) = journal_lines ?p @ event_line v # journal_lines (concat (map event_line b))"
    using journal_lines_line [OF assms(3)] by (simp add: journal_lines_append event_line_def del: append_assoc) (simp add: event_line_def)
  then show ?thesis by (simp add: journaled_def)
qed

subsection \<open>Written values read back\<close>

lemma sort_key_map_fst: "sort_key fst (map (\<lambda>(k, v). (k, h k v)) xs) = map (\<lambda>(k, v). (k, h k v)) (sort_key fst xs)"
proof -
  have "insort_key fst (case x of (k, v) \<Rightarrow> (k, h k v)) (map (\<lambda>(k, v). (k, h k v)) ys) =
      map (\<lambda>(k, v). (k, h k v)) (insort_key fst x ys)" for x ys
    by (induction ys) (auto split: prod.splits)
  then show ?thesis by (induction xs) auto
qed

lemma dict_get_sort_key: "dict_get (sort_key fst d) k = dict_get d k"
proof -
  have "map_of (insort_key fst x ys) k = map_of (x # ys) k" for x :: "string \<times> 'a" and ys
    by (induction ys) auto
  then show ?thesis by (induction d) (auto simp: dict_get_def)
qed

lemma dict_get_map_value: "dict_get (map (\<lambda>(k, v). (k, f v)) d) k = map_option f (dict_get d k)"
  by (induction d) (auto simp: dict_get_def)

lemma as_dict_sort_keys: "as_dict (sort_keys v) = sort_key fst (map (\<lambda>(k, v). (k, sort_keys v)) (as_dict v))"
  by (cases v) auto

lemma jget_sort_keys: "jget (as_dict (sort_keys v)) k = sort_keys (jget (as_dict v) k)"
  by (simp add: as_dict_sort_keys jget_def dict_get_sort_key dict_get_map_value split: option.split)

lemma dumps_sort_keys: "dumps_sorted isep ksep (sort_keys v) = dumps_sorted isep ksep v"
proof (induction v)
  case (JList xs)
  then have "map (dumps_sorted isep ksep \<circ> sort_keys) xs = map (dumps_sorted isep ksep) xs" by auto
  then show ?case by (simp del: map_eq_conv)
next
  case (JDict d)
  let ?g = "\<lambda>(k, v). (k, ascii_str k @ ksep @ dumps_sorted isep ksep v)"
  have "map ?g (map (\<lambda>(k, v). (k, sort_keys v)) d) = map ?g d"
    using JDict by (auto split: prod.splits)
  then have "sort_key fst (map ?g (map (\<lambda>(k, v). (k, sort_keys v)) d)) = sort_key fst (map ?g d)" by (rule arg_cong)
  moreover have "sort_key fst (map ?g (sort_key fst xs)) = sort_key fst (map ?g xs)" for xs
    by (simp only: sort_key_map_fst) (simp add: sort_key_id_if_sorted)
  ultimately show ?case by simp
qed simp_all

lemma entry_line_sort_keys: "event_line (JDict (entry_payload (sort_keys e))) = event_line (JDict (entry_payload e))"
proof -
  have "JDict (entry_payload (sort_keys e)) = sort_keys (JDict (entry_payload e))"
    unfolding entry_payload_def jget_sort_keys by (simp add: as_dict_sort_keys)
  then show ?thesis by (simp only: event_line_def dumps_sort_keys)
qed

definition has_line :: "string \<Rightarrow> json list \<Rightarrow> bool" where
  "has_line l es = list_ex (\<lambda>e. event_line (JDict (entry_payload e)) = l) es"

text \<open>The line of a transition that the outbox of \<open>state.json\<close> still carries.\<close>

definition in_state :: "string \<Rightarrow> watch_fs \<Rightarrow> bool" where
  "in_state l fs = (case fs_state fs of
     Doc v \<Rightarrow> has_line l (list_or_empty (jget (as_dict v) ''pending_transitions'')
                @ list_or_empty (jget (as_dict v) ''pending_surge_overflow''))
   | _ \<Rightarrow> False)"

definition durable :: "string \<Rightarrow> watch_fs \<Rightarrow> bool" where
  "durable l fs = (journaled l fs \<or> in_state l fs)"

lemma has_line_append [simp]: "has_line l (a @ b) \<longleftrightarrow> has_line l a \<or> has_line l b"
  by (simp add: has_line_def)

lemma has_line_sort_keys: "has_line l (map sort_keys es) = has_line l es"
  by (simp add: has_line_def list_ex_iff entry_line_sort_keys)

lemma list_or_empty_sort_keys: "list_or_empty (sort_keys v) = map sort_keys (list_or_empty v)"
  by (cases v) (auto simp: list_or_empty_def)

lemma snapshot_outbox:
  "list_or_empty (jget (state_snapshot result severe uncertain pending) ''pending_transitions'')
   @ list_or_empty (jget (state_snapshot result severe uncertain pending) ''pending_surge_overflow'') = pending"
  by (auto simp: state_snapshot_def outbox_fields_def jget_def dict_get_def list_or_empty_def)

lemma in_state_snapshot:
  "in_state l (fs\<lparr>fs_state := Doc (sort_keys (JDict (state_snapshot result severe uncertain pending)))\<rparr>) = has_line l pending"
proof -
  have "in_state l (fs\<lparr>fs_state := Doc (sort_keys (JDict d))\<rparr>) = has_line l
      (map sort_keys (list_or_empty (jget d ''pending_transitions'') @ list_or_empty (jget d ''pending_surge_overflow'')))" for d
    by (simp add: in_state_def jget_sort_keys list_or_empty_sort_keys del: sort_keys.simps)
  then show ?thesis by (simp only: has_line_sort_keys snapshot_outbox)
qed

interpretation journal_line: fs_invariant "journaled l" for l
  by unfold_locales (auto simp: journaled_def journal_def intro: journaled_append [unfolded journaled_def journal_def])

interpretation durable_line: fs_invariant "durable l" for l
proof
  show "durable l (fs\<lparr>fs_faults := f\<rparr>)" "durable l (fs\<lparr>fs_heartbeat := d\<rparr>)" if "durable l fs" for fs f d
    using that by (simp_all add: durable_def journaled_def journal_def in_state_def)
  show "durable l fs'" if "durable l fs" "append_durable_events events fs = (r, fs')" for fs events r fs'
    using that journaled_append append_run [OF that(2)] by (auto simp: durable_def in_state_def frame_def)
qed

interpretation same_state: fs_invariant "\<lambda>fs. fs_state fs = d" for d
  by unfold_locales (auto dest!: append_run simp: frame_def)

end
