(* ===== verification/Watch_Safety.thy ===== *)
theory Watch_Safety
  imports Watch_Durable
begin

text \<open>
  Safety of the production watch: how the transitions of a poll are decided, that no queued transition is lost
  whichever system calls fail, and that a corrupt state is never overwritten.  The steps of \<open>record\<close> are
  composed with the triples \<open>safe l P m Q\<close>, whose exceptional exits must keep the line \<open>l\<close> durable.
\<close>

subsection \<open>The decision\<close>

lemma keep_fold_set:
  "set (fold (\<lambda>i acc. if fst i \<in> A then acc else if i \<notin> set acc \<and> P (fst i) then acc @ [i] else acc) old acc) =
   set acc \<union> {i \<in> set old. fst i \<notin> A \<and> P (fst i)}"
  by (induction old arbitrary: acc) auto

lemma severe_after_set:
  "set (severe_after suppress result old) = (if at_capacity suppress result then set old else set (detected_incidents result))
     \<union> {i \<in> set old. fst i \<notin> fst ` set (detected_incidents result) \<and> unverified result (fst i)}"
  by (simp add: severe_after_def keep_unverified_def keep_fold_set)

lemma detected_Nil: "detected_incidents result = [] \<longleftrightarrow> \<not> has_severity ''P1'' (issues_of result)"
proof -
  have "detected_incidents result = [] \<longleftrightarrow> set (detected_incidents result) = {}" by simp
  then show ?thesis by (auto simp: detected_incidents_def has_severity_def list_ex_iff filter_empty_conv)
qed

text \<open>
  C10. The transitions of a poll are decided by evidence: an ALARM is raised exactly when an admitted poll
  detects an incident code that was not active, and a RECOVERY exactly when incidents were active, the
  admitted poll shows no P1 issue at all, and every old incident could have been seen by it, neither masked
  by an unavailable source nor still stale nor hidden behind a failure of the watcher.
\<close>

theorem transition_decided:
  "(transition_of old (severe_after suppress result old) = Some ''ALARM'' \<longleftrightarrow>
      \<not> at_capacity suppress result \<and> \<not> fst ` set (detected_incidents result) \<subseteq> fst ` set old)
   \<and> (transition_of old (severe_after suppress result old) = Some ''RECOVERY'' \<longleftrightarrow>
      old \<noteq> [] \<and> \<not> at_capacity suppress result \<and> \<not> has_severity ''P1'' (issues_of result)
      \<and> list_all (\<lambda>i. \<not> unverified result (fst i)) old)"
proof -
  let ?sev = "severe_after suppress result old"
  have codes: "fst ` set ?sev \<subseteq> fst ` set old \<longleftrightarrow>
      at_capacity suppress result \<or> fst ` set (detected_incidents result) \<subseteq> fst ` set old"
    by (auto simp: severe_after_set)
  have "?sev = [] \<longleftrightarrow> set ?sev = {}" by simp
  also have "\<dots> \<longleftrightarrow> (if at_capacity suppress result then old = [] else detected_incidents result = []) \<and>
      list_all (\<lambda>i. fst i \<notin> fst ` set (detected_incidents result) \<longrightarrow> \<not> unverified result (fst i)) old"
    by (auto simp: severe_after_set list_all_iff)
  finally have none: "?sev = [] \<longleftrightarrow> (if at_capacity suppress result then old = [] else detected_incidents result = []) \<and>
      list_all (\<lambda>i. fst i \<notin> fst ` set (detected_incidents result) \<longrightarrow> \<not> unverified result (fst i)) old" .
  have "transition_of old ?sev = Some ''ALARM'' \<longleftrightarrow> \<not> fst ` set ?sev \<subseteq> fst ` set old"
    by (simp add: transition_of_def)
  moreover have "transition_of old ?sev = Some ''RECOVERY'' \<longleftrightarrow> old \<noteq> [] \<and> ?sev = []"
    by (auto simp: transition_of_def)
  ultimately show ?thesis
    unfolding codes none detected_Nil [symmetric] by (auto simp: list_all_iff)
qed

subsection \<open>No transition is lost\<close>

text \<open>
  \<open>safe l P m Q\<close>: from a state with \<open>P\<close>, the step \<open>m\<close> returns in a state with \<open>Q\<close>, or stops, by an exception or
  an early return, in a state that still has the line \<open>l\<close>.
\<close>

definition safe :: "string \<Rightarrow> (watch_rec \<Rightarrow> bool) \<Rightarrow> 'a rec_run \<Rightarrow> ('a \<Rightarrow> watch_rec \<Rightarrow> bool) \<Rightarrow> bool" where
  "safe l P m Q = (\<forall>s. P s \<longrightarrow> (case m s of (Inr x, s') \<Rightarrow> Q x s' | (Inl _, s') \<Rightarrow> durable l (rc_fs s')))"

lemma safeI: "(\<And>s r s'. P s \<Longrightarrow> m s = (r, s') \<Longrightarrow> (case r of Inr x \<Rightarrow> Q x s' | Inl _ \<Rightarrow> durable l (rc_fs s'))) \<Longrightarrow> safe l P m Q"
  by (auto simp: safe_def split: prod.splits sum.splits)

lemma safeD: "safe l P m Q \<Longrightarrow> P s \<Longrightarrow> m s = (r, s') \<Longrightarrow> (case r of Inr x \<Rightarrow> Q x s' | Inl _ \<Rightarrow> durable l (rc_fs s'))"
  by (auto simp: safe_def split: prod.splits sum.splits)

lemma safe_bind:
  assumes "safe l P m Q" and "\<And>x. safe l (Q x) (f x) R"
  shows "safe l P (bindSE m f) R"
proof (rule safeI)
  fix s r s' assume "P s" and run: "bindSE m f s = (r, s')"
  obtain q s1 where q: "m s = (q, s1)" by fastforce
  note m = safeD [OF assms(1) \<open>P s\<close> q]
  show "case r of Inr x \<Rightarrow> R x s' | Inl _ \<Rightarrow> durable l (rc_fs s')"
  proof (cases q)
    case (Inl e)
    with m run q show ?thesis by (auto simp: bindSE_def)
  next
    case (Inr x)
    with run q have "f x s1 = (r, s')" by (simp add: bindSE_def)
    with safeD [OF assms(2) _ this] m Inr show ?thesis by simp
  qed
qed

lemma safe_conseq: "safe l P m Q \<Longrightarrow> (\<And>s. P' s \<Longrightarrow> P s) \<Longrightarrow> (\<And>x s. Q x s \<Longrightarrow> Q' x s) \<Longrightarrow> safe l P' m Q'"
  unfolding safe_def by (force split: prod.splits sum.splits)

lemma safe_returnR: "(\<And>s. P s \<Longrightarrow> Q x s) \<Longrightarrow> safe l P (returnR x) Q"
  by (simp add: safe_def returnR_def)

text \<open>The pending outbox still has the line, or the journal has it.\<close>

definition carried :: "string \<Rightarrow> json list \<Rightarrow> watch_rec \<Rightarrow> bool" where
  "carried l pending s = (durable l (rc_fs s) \<and> (journaled l (rc_fs s) \<or> has_line l pending))"

lemma durable_result [simp]: "durable l (rc_fs (s\<lparr>rc_result := d\<rparr>)) = durable l (rc_fs s)"
  by simp

lemma record_unverifiable_isl: "(record_unverifiable_prior_state env heartbeat cause uncertain :: 'a rec_run) s = (r, s') \<Longrightarrow> isl r"
  by (auto simp: record_unverifiable_prior_state_def Let_def bindSE_def exitR_def split: prod.splits sum.splits)

lemma safe_stop:
  assumes "\<And>s. P s \<Longrightarrow> durable l (rc_fs s)"
  shows "safe l P (record_unverifiable_prior_state env heartbeat cause uncertain :: 'a rec_run) Q"
proof (rule safeI)
  fix s r s'
  assume s: "P s" and run: "(record_unverifiable_prior_state env heartbeat cause uncertain :: 'a rec_run) s = (r, s')"
  have "durable l (rc_fs s')"
    using durable_line.keeps_apply [OF durable_line.keeps_unverifiable assms [OF s]] run by (metis snd_conv)
  with record_unverifiable_isl [OF run] show "case r of Inr x \<Rightarrow> Q x s' | Inl _ \<Rightarrow> durable l (rc_fs s')" by (cases r) auto
qed

lemma safe_unverifiable: "safe l (carried l pending) (record_unverifiable_prior_state env heartbeat cause uncertain :: 'a rec_run) Q"
  by (rule safe_stop) (simp add: carried_def)

lemma write_state_run:
  assumes "write_json StateFile v fs = (r, fs')"
  shows "journal fs' = journal fs \<and> (fs_state fs' = fs_state fs \<or> fs_state fs' = Doc (sort_keys v))"
proof -
  obtain a fs1 where 1: "fsync fs = (a, fs1)" by fastforce
  obtain b fs2 where 2: "syscall (put_doc StateFile (Doc (sort_keys v))) fs1 = (b, fs2)" by fastforce
  obtain c fs3 where 3: "fsync fs2 = (c, fs3)" by fastforce
  have "journal fs2 = journal fs1 \<and> (fs_state fs2 = fs_state fs1 \<or> fs_state fs2 = Doc (sort_keys v))"
    using 2 by (auto simp: syscall_def next_fault_def put_doc_def journal_def split: fault.splits list.splits if_splits)
  moreover have "fs' \<in> {fs1, fs2, fs3}"
    using assms 1 2 3 by (auto simp: write_json_def bindSE_def split: sum.splits)
  ultimately show ?thesis using fsync_events [OF 1] fsync_events [OF 3] by (auto simp: frame_def journal_def)
qed

lemma write_heartbeat_run:
  assumes "write_json HeartbeatFile v fs = (r, fs')"
  shows "journal fs' = journal fs \<and> fs_state fs' = fs_state fs"
proof -
  obtain a fs1 where 1: "fsync fs = (a, fs1)" by fastforce
  obtain b fs2 where 2: "syscall (put_doc HeartbeatFile (Doc (sort_keys v))) fs1 = (b, fs2)" by fastforce
  obtain c fs3 where 3: "fsync fs2 = (c, fs3)" by fastforce
  have "journal fs2 = journal fs1 \<and> fs_state fs2 = fs_state fs1"
    using 2 by (auto simp: syscall_def next_fault_def put_doc_def journal_def split: fault.splits list.splits if_splits)
  moreover have "fs' \<in> {fs1, fs2, fs3}"
    using assms 1 2 3 by (auto simp: write_json_def bindSE_def split: sum.splits)
  ultimately show ?thesis using fsync_events [OF 1] fsync_events [OF 3] by (auto simp: frame_def journal_def)
qed

lemma in_state_cong: "fs_state fs' = fs_state fs \<Longrightarrow> in_state l fs' = in_state l fs"
  by (simp add: in_state_def)

lemma carried_state_write:
  "safe l (carried l pending) (in_fs (write_json StateFile (JDict (state_snapshot result severe uncertain pending)))) (\<lambda>_. carried l pending)"
proof (rule safeI)
  fix s r s'
  assume s: "carried l pending s"
    and run: "in_fs (write_json StateFile (JDict (state_snapshot result severe uncertain pending))) s = (r, s')"
  then obtain q fs' where "write_json StateFile (JDict (state_snapshot result severe uncertain pending)) (rc_fs s) = (q, fs')"
    and s': "rc_fs s' = fs'" by (auto simp: in_fs_def split: prod.splits)
  note w = write_state_run [OF this(1)]
  have "journaled l fs' = journaled l (rc_fs s)" using w by (simp add: journaled_def)
  moreover have "in_state l fs' = has_line l pending"
    if "fs_state fs' = Doc (sort_keys (JDict (state_snapshot result severe uncertain pending)))"
    using that in_state_snapshot [where fs = fs' and pending = pending and l = l] by (simp add: in_state_def)
  then have "in_state l fs' = in_state l (rc_fs s) \<or> in_state l fs' = has_line l pending"
    using w in_state_cong [of fs' "rc_fs s" l] by blast
  ultimately have "carried l pending s'" using s by (auto simp: carried_def durable_def s')
  then show "case r of Inr x \<Rightarrow> carried l pending s' | Inl _ \<Rightarrow> durable l (rc_fs s')"
    by (cases r) (auto simp: carried_def)
qed

lemma carried_heartbeat_write:
  "safe l (carried l pending) (in_fs (write_json HeartbeatFile v)) (\<lambda>_. carried l pending)"
proof (rule safeI)
  fix s r s'
  assume s: "carried l pending s" and run: "in_fs (write_json HeartbeatFile v) s = (r, s')"
  then obtain q fs' where "write_json HeartbeatFile v (rc_fs s) = (q, fs')"
    and s': "rc_fs s' = fs'" by (auto simp: in_fs_def split: prod.splits)
  note w = write_heartbeat_run [OF this(1)]
  then have "carried l pending s'"
    using s in_state_cong [of fs' "rc_fs s" l] by (simp add: carried_def durable_def journaled_def s')
  then show "case r of Inr x \<Rightarrow> carried l pending s' | Inl _ \<Rightarrow> durable l (rc_fs s')"
    by (cases r) (auto simp: carried_def)
qed

lemma carried_set_result: "safe l (carried l pending) (set_result d) (\<lambda>_. carried l pending)"
  by (simp add: safe_def set_result_def carried_def)

lemma safe_persist: "safe l (carried l pending) (persist_snapshots severe uncertain pending hf) (\<lambda>_. carried l pending)"
proof (rule safeI)
  fix s r s'
  assume s: "carried l pending s" and run: "persist_snapshots severe uncertain pending hf s = (r, s')"
  let ?r = "with_outbox (rc_result s) pending"
  have "safe l (carried l pending) (bindSE (set_result ?r) (\<lambda>_.
      if hf then bindSE (in_fs (write_json HeartbeatFile (JDict ?r))) (\<lambda>_. in_fs (write_json StateFile (JDict (state_snapshot ?r severe uncertain pending))))
      else bindSE (in_fs (write_json StateFile (JDict (state_snapshot ?r severe uncertain pending)))) (\<lambda>_. in_fs (write_json HeartbeatFile (JDict ?r)))))
      (\<lambda>_. carried l pending)"
    by (intro safe_bind [OF carried_set_result])
      (simp add: safe_bind [OF carried_heartbeat_write carried_state_write] safe_bind [OF carried_state_write carried_heartbeat_write])
  from safeD [OF this s run [unfolded persist_snapshots_def Let_def]]
  show "case r of Inr x \<Rightarrow> carried l pending s' | Inl _ \<Rightarrow> durable l (rc_fs s')" .
qed

text \<open>Entries later in the outbox are not equal to earlier ones.\<close>

abbreviation deduped :: "json list \<Rightarrow> bool" where
  "deduped \<equiv> sorted_wrt (\<lambda>x y. \<not> py_eq y x)"

lemma add_new_deduped: "deduped acc \<Longrightarrow> deduped (add_new acc xs)"
  unfolding add_new_def by (induction xs arbitrary: acc) (auto simp: sorted_wrt_append py_in_def list_ex_iff)

lemma add_new_keeps: "set acc \<subseteq> set (add_new acc xs)"
  unfolding add_new_def
proof (induction xs arbitrary: acc)
  case (Cons x xs)
  show ?case using Cons [of acc] Cons [of "acc @ [x]"] by auto
qed simp

lemma add_new_id: "deduped (acc @ xs) \<Longrightarrow> add_new acc xs = acc @ xs"
  unfolding add_new_def
proof (induction xs arbitrary: acc)
  case (Cons x xs)
  then have "\<not> py_in x acc" by (auto simp: sorted_wrt_append py_in_def list_ex_iff)
  with Cons show ?case by simp
qed simp

lemma ready_prefix: "ready_entries u v n es = take (length (ready_entries u v n es)) es"
  by (induction u v n es rule: ready_entries.induct) auto

lemma carried_drop:
  assumes "has_line l pending" and "\<not> has_line l (take k pending)"
  shows "has_line l (drop k pending)"
  using assms append_take_drop_id [of k pending] has_line_append by metis

lemma ready_journaled:
  assumes "append_durable_events (entry_payloads ready @ extra) fs = (Inr names, fs')" "has_line (y @ [newline]) ready" "newline \<notin> set y"
  shows "journaled (y @ [newline]) fs'"
proof -
  from assms(2) obtain e where e: "e \<in> set ready" "event_line (JDict (entry_payload e)) = y @ [newline]"
    by (auto simp: has_line_def list_ex_iff)
  then have "newline \<notin> set (dumps_compact (JDict (entry_payload e)))" using assms(3) by (simp add: event_line_def)
  moreover have "JDict (entry_payload e) \<in> set (entry_payloads ready @ extra)" using e(1) by (auto simp: entry_payloads_def)
  ultimately show ?thesis using appended_journaled [OF assms(1)] e(2) by metis
qed

lemma in_fs_append:
  assumes "in_fs (append_durable_events events) s = (r, s')"
  obtains q where "append_durable_events events (rc_fs s) = (q, rc_fs s')" "isl q = isl r" "rc_result s' = rc_result s"
  using assms by (auto simp: in_fs_def split: prod.splits sum.splits)

lemma carried_append:
  assumes "carried l pending s" "in_fs (append_durable_events events) s = (r, s')"
  shows "carried l pending s'"
  using assms durable_line.append_kept journaled_append by (elim in_fs_append) (auto simp: carried_def)

lemma safe_frame: "safe l P m Q \<Longrightarrow> safe l (\<lambda>s. P s \<and> b) m (\<lambda>x s. Q x s \<and> b)"
  unfolding safe_def by (fastforce split: prod.splits sum.splits)

lemma safe_drain_append:
  assumes y: "newline \<notin> set y"
  shows "safe (y @ [newline]) (carried (y @ [newline]) pending)
    (catchR (in_fs (append_durable_events (entry_payloads (ready_entries u v n pending)))) (\<lambda>e.
      record_unverifiable_prior_state env heartbeat (''pending outbox drain failed: '' @ fst e) False))
    (\<lambda>_. carried (y @ [newline]) (drop (length (ready_entries u v n pending)) pending))"
proof (rule safeI)
  let ?l = "y @ [newline]" and ?ready = "ready_entries u v n pending"
  fix s r s'
  let ?h = "\<lambda>e. record_unverifiable_prior_state env heartbeat (''pending outbox drain failed: '' @ fst e) False :: json list rec_run"
  assume s: "carried ?l pending s" and run: "catchR (in_fs (append_durable_events (entry_payloads ?ready))) ?h s = (r, s')"
  obtain q s1 where q: "in_fs (append_durable_events (entry_payloads ?ready)) s = (q, s1)" by fastforce
  have s1: "carried ?l pending s1" by (rule carried_append [OF s q])
  show "case r of Inr x \<Rightarrow> carried ?l (drop (length ?ready) pending) s' | Inl _ \<Rightarrow> durable ?l (rc_fs s')"
  proof (cases q)
    case (Inr names)
    then have r: "r = Inr names" "s' = s1" using run q by (simp_all add: catchR_def)
    have "journaled ?l (rc_fs s1) \<or> has_line ?l (drop (length ?ready) pending)"
    proof (cases "has_line ?l ?ready")
      case True
      from q obtain a where "append_durable_events (entry_payloads ?ready) (rc_fs s) = (Inr a, rc_fs s1)"
        using Inr by (elim in_fs_append) (metis isl_def sum.disc(2) sum.exhaust_sel)
      with ready_journaled [of ?ready "[]", OF _ True y] show ?thesis by simp
    next
      case False
      then have "\<not> has_line ?l (take (length ?ready) pending)" using ready_prefix by metis
      with s1 show ?thesis using carried_drop by (auto simp: carried_def)
    qed
    with s1 r show ?thesis by (simp add: carried_def)
  next
    case (Inl f)
    show ?thesis
    proof (cases "\<exists>e. f = Raise e \<and> is_os_error e")
      case True
      then obtain e where "?h e s1 = (r, s')" using run q Inl by (auto simp: catchR_def)
      from safeD [OF safe_unverifiable s1 this] show ?thesis .
    next
      case False
      then have "r = Inl f" "s' = s1" using run q Inl by (auto simp: catchR_def split: flow.splits if_splits)
      with s1 show ?thesis by (simp add: carried_def)
    qed
  qed
qed

lemma safe_drain:
  assumes y: "newline \<notin> set y"
  shows "safe (y @ [newline]) (\<lambda>s. carried (y @ [newline]) pending s \<and> deduped pending)
    (drain_surge env heartbeat severe uncertain u v n pending) (\<lambda>(d, p) s. carried (y @ [newline]) p s \<and> deduped p)"
proof -
  let ?l = "y @ [newline]" and ?ready = "ready_entries u v n pending"
  have "safe ?l (carried ?l pending) (drain_surge env heartbeat severe uncertain u v n pending)
      (\<lambda>(d, p) s. carried ?l p s \<and> (\<exists>k. p = drop k pending))"
  proof (cases "length pending \<le> OUTBOX_NORMAL_LIMIT")
    case True
    have "\<exists>k. pending = drop k pending" by (rule exI [of _ 0]) simp
    with True show ?thesis unfolding drain_surge_def by (simp add: safe_returnR)
  next
    case False
    have full: "safe ?l (carried ?l pending) (bindSE (catchR (in_fs (append_durable_events (entry_payloads ?ready))) (\<lambda>e.
        record_unverifiable_prior_state env heartbeat (''pending outbox drain failed: '' @ fst e) False))
        (\<lambda>_. returnR (if ?ready = [] then JNull else entry_event (last ?ready), drop (length ?ready) pending)))
        (\<lambda>(d, p) s. carried ?l p s \<and> (\<exists>k. p = drop k pending))"
      by (rule safe_bind [OF safe_drain_append [OF y]], rule safe_returnR) auto
    show ?thesis
      unfolding drain_surge_def Let_def if_not_P [OF False]
    proof (rule safe_bind [OF safe_persist], split if_split, intro conjI impI)
      show "safe ?l (carried ?l pending) (record_unverifiable_prior_state env heartbeat ''pending transition outbox at capacity with blocked recovery'' False)
        (\<lambda>(d, p) s. carried ?l p s \<and> (\<exists>k. p = drop k pending))" by (rule safe_unverifiable)
    qed (rule full)
  qed
  from safe_frame [OF this, of "deduped pending"] show ?thesis
    by (rule safe_conseq) (auto intro: sorted_wrt_drop)
qed

lemma unread_stays:
  assumes "deduped pending" "has_line l pending" "ready = take k pending" "\<not> has_line l ready"
  shows "has_line l (filter (\<lambda>e. \<not> py_in e ready) pending)"
proof -
  from carried_drop [OF assms(2)] assms(3,4) obtain e where e: "e \<in> set (drop k pending)" "event_line (JDict (entry_payload e)) = l"
    by (auto simp: has_line_def list_ex_iff)
  have "deduped (take k pending @ drop k pending)" using assms(1) by simp
  then have "\<not> py_in e ready" using e(1) assms(3) by (auto simp: sorted_wrt_append py_in_def list_ex_iff simp del: append_take_drop_id)
  moreover have "e \<in> set pending" using e(1) by (rule in_set_dropD)
  ultimately show ?thesis using e(2) by (auto simp: has_line_def list_ex_iff)
qed

lemma safe_journal:
  assumes y: "newline \<notin> set y" and ready: "ready = take k pending" and dd: "deduped pending"
  shows "safe (y @ [newline]) (carried (y @ [newline]) pending)
    (journal_step env severe uncertain ready (entry_payloads ready @ extra) pending) (\<lambda>(p, _, _). carried (y @ [newline]) p)"
proof (rule safeI)
  let ?l = "y @ [newline]" and ?events = "entry_payloads ready @ extra"
  fix s r s'
  assume s: "carried ?l pending s" and run: "journal_step env severe uncertain ready ?events pending s = (r, s')"
  show "case r of Inr x \<Rightarrow> (case x of (p, _, _) \<Rightarrow> carried ?l p) s' | Inl _ \<Rightarrow> durable ?l (rc_fs s')"
  proof (cases "?events = []")
    case True
    with run s show ?thesis by (auto simp: journal_step_def returnR_def)
  next
    case False
    obtain q s1 where q: "in_fs (append_durable_events ?events) s = (q, s1)" by fastforce
    have s1: "carried ?l pending s1" by (rule carried_append [OF s q])
    show ?thesis
    proof (cases q)
      case (Inl f)
      with run q False s1 show ?thesis
        by (cases f) (auto simp: journal_step_def catchR_def bindSE_def carried_def split: if_splits)
    next
      case (Inr names)
      let ?p = "filter (\<lambda>e. \<not> py_in e ready) pending"
      have r: "r = Inr (?p, uncertain, False)" "rc_fs s' = rc_fs s1"
        using run q False Inr by (auto simp: journal_step_def catchR_def bindSE_def)
      from q obtain a where a: "append_durable_events ?events (rc_fs s) = (Inr a, rc_fs s1)"
        using Inr by (elim in_fs_append) (metis isl_def sum.disc(2) sum.exhaust_sel)
      have "journaled ?l (rc_fs s1) \<or> has_line ?l ?p"
        using s1 ready_journaled [OF a _ y] unread_stays [OF dd _ ready] by (auto simp: carried_def)
      with s1 r show ?thesis by (simp add: carried_def)
    qed
  qed
qed

lemma safe_local: "(\<And>s. P s \<Longrightarrow> \<exists>a f. m s = bindSE a f s \<and> safe l P (bindSE a f) Q) \<Longrightarrow> safe l P m Q"
  unfolding safe_def by metis

lemma safe_last:
  fixes v :: json
  shows "safe l (carried l p) (bindSE (if b then persist_snapshots severe u p False else returnR ()) (\<lambda>_. returnR v)) (\<lambda>_ s. durable l (rc_fs s))"
proof (rule safe_bind [of _ _ _ "\<lambda>_. carried l p"])
  show "safe l (carried l p) (if b then persist_snapshots severe u p False else returnR ()) (\<lambda>_. carried l p)"
    by (cases b) (simp_all add: safe_persist safe_returnR)
qed (rule safe_returnR, simp add: carried_def)

lemma safe_journal_last:
  fixes h :: "bool \<Rightarrow> json"
  assumes y: "newline \<notin> set y"
  shows "safe (y @ [newline]) (\<lambda>s. carried (y @ [newline]) p s \<and> deduped p)
    (\<lambda>s. bindSE (journal_step env severe u (if suppress then [] else ready_entries a b (length p) p)
          (entry_payloads (if suppress then [] else ready_entries a b (length p) p) @ extra s) p) (\<lambda>(p, u, failed).
       bindSE (if g u p failed then persist_snapshots severe u p False else returnR ()) (\<lambda>_. returnR (h failed))) s)
    (\<lambda>_ s. durable (y @ [newline]) (rc_fs s))"
proof (rule safeI)
  let ?l = "y @ [newline]"
  fix s r s'
  let ?ready = "if suppress then [] else ready_entries a b (length p) p"
  assume s: "carried ?l p s \<and> deduped p" and run: "bindSE (journal_step env severe u ?ready (entry_payloads ?ready @ extra s) p) (\<lambda>(p, u, failed).
       bindSE (if g u p failed then persist_snapshots severe u p False else returnR ()) (\<lambda>_. returnR (h failed))) s = (r, s')"
  have "?ready = take (length ?ready) p" using ready_prefix [of a b "length p" p] by simp
  note step = safe_journal [OF y this conjunct2 [OF s]]
  have "safe ?l (carried ?l p) (bindSE (journal_step env severe u ?ready (entry_payloads ?ready @ extra s) p) (\<lambda>(p, u, failed).
       bindSE (if g u p failed then persist_snapshots severe u p False else returnR ()) (\<lambda>_. returnR (h failed)))) (\<lambda>_ s. durable ?l (rc_fs s))"
  proof (rule safe_bind [OF step])
    fix x :: "json list \<times> string list \<times> bool"
    show "safe ?l ((\<lambda>(p, _, _). carried ?l p) x) (case x of (p, u, failed) \<Rightarrow>
        bindSE (if g u p failed then persist_snapshots severe u p False else returnR ()) (\<lambda>_. returnR (h failed))) (\<lambda>_ s. durable ?l (rc_fs s))"
      by (cases x) (simp only: prod.case safe_last)
  qed
  from safeD [OF this _ run] s show "case r of Inr x \<Rightarrow> durable ?l (rc_fs s') | Inl _ \<Rightarrow> durable ?l (rc_fs s')" by blast
qed

lemma safe_publish:
  assumes y: "newline \<notin> set y"
  shows "safe (y @ [newline]) (\<lambda>s. carried (y @ [newline]) pending s \<and> deduped pending)
    (publish env heartbeat previous suppress old severe n pending) (\<lambda>_ s. durable (y @ [newline]) (rc_fs s))"
proof (rule safe_local)
  let ?l = "y @ [newline]"
  fix s :: watch_rec
  have room: "safe ?l (\<lambda>s. carried ?l pending s \<and> deduped pending)
      (if b then record_unverifiable_prior_state env heartbeat c False else returnR ()) (\<lambda>_ s. carried ?l pending s \<and> deduped pending)" for b c
    using safe_frame [OF safe_unverifiable [of ?l pending env heartbeat c False "\<lambda>_ _. True"], of "deduped pending"]
    by (cases b) (auto intro: safe_returnR safe_conseq [OF safe_unverifiable])
  have before: "safe ?l (\<lambda>s. carried ?l p s \<and> deduped p) (if b then returnR () else persist_snapshots severe u p c) (\<lambda>_ s. carried ?l p s \<and> deduped p)" for b u p c
    using safe_frame [OF safe_persist] by (cases b) (simp_all add: safe_returnR)
  show "\<exists>(a :: unit rec_run) f. publish env heartbeat previous suppress old severe n pending s = bindSE a f s
      \<and> safe ?l (\<lambda>s. carried ?l pending s \<and> deduped pending) (bindSE a f) (\<lambda>_ s. durable ?l (rc_fs s))"
    apply (intro exI conjI)
     apply (simp only: publish_def Let_def)
    apply (rule safe_bind [OF room])
    apply (rule safe_bind [OF safe_drain [OF y]])
    apply (clarsimp simp only: prod.case)
    apply (rule safe_bind [OF before])
    apply (rule safe_journal_last [OF y])
    done
qed

subsection \<open>The outbox that is read\<close>

lemma check_entries_deduped: "check_entries tm n u acc es = Inr out \<Longrightarrow> deduped acc \<Longrightarrow> deduped out"
proof (induction es arbitrary: n u acc)
  case (Cons e es)
  have "deduped (if py_in e acc then acc else acc @ [e])"
    using Cons.prems(2) by (auto simp: sorted_wrt_append py_in_def list_ex_iff)
  with Cons show ?case by (auto simp: bindE_def Let_def split: sum.splits if_splits)
qed simp

lemma pending_deduped: "pending_transition_entries tm v = Inr es \<Longrightarrow> deduped es"
  by (auto simp: pending_transition_entries_def elim: check_entries_deduped split: json.splits if_splits)

text \<open>What the outbox still has of the entry \<open>E\<close>.\<close>

definition held :: "json \<Rightarrow> json list \<Rightarrow> watch_rec \<Rightarrow> bool" where
  "held E pending s = (durable (event_line (JDict (entry_payload E))) (rc_fs s)
     \<and> (journaled (event_line (JDict (entry_payload E))) (rc_fs s) \<or> E \<in> set pending))"

lemma held_carried: "held E pending s \<Longrightarrow> carried (event_line (JDict (entry_payload E))) pending s"
  by (auto simp: held_def carried_def has_line_def list_ex_iff)

lemma drop_known:
  assumes nl: "newline \<notin> set (dumps_compact (JDict (entry_payload e)))"
    and run: "in_fs (transition_already_journaled e) s = (Inr True, s')"
  shows "journaled (event_line (JDict (entry_payload e))) (rc_fs s')"
proof -
  from run have "transition_already_journaled e (rc_fs s) = (Inr True, rc_fs s')"
    by (auto simp: in_fs_def split: prod.splits sum.splits)
  from already_journaled_run [OF this] scan_journal_lines [OF nl]
  have "event_line (JDict (entry_payload e)) \<in> set (journal_lines (journal (rc_fs s')))"
    by (simp add: event_line_def frame_def journal_def)
  then show ?thesis unfolding event_line_def by (rule journaled_full)
qed

lemma drop_journaled_run:
  assumes "drop_journaled es s = (Inr p, s')"
  shows "set p \<subseteq> set es \<and> (deduped es \<longrightarrow> deduped p) \<and> (\<forall>e \<in> set es. newline \<notin> set (dumps_compact (JDict (entry_payload e))) \<longrightarrow>
    e \<in> set p \<or> journaled (event_line (JDict (entry_payload e))) (rc_fs s'))"
  using assms
proof (induction es arbitrary: s p)
  case (Cons e es)
  from Cons.prems obtain known s1 rest where k: "in_fs (transition_already_journaled e) s = (Inr known, s1)"
    and rest: "drop_journaled es s1 = (Inr rest, s')" and p: "p = (if known then rest else e # rest)"
    by (auto simp: bindSE_def returnR_def split: prod.splits sum.splits)
  have "journaled (event_line (JDict (entry_payload e))) (rc_fs s')"
    if "known" "newline \<notin> set (dumps_compact (JDict (entry_payload e)))"
    using drop_known [OF that(2)] k that(1) rest journal_line.keeps_apply [OF journal_line.keeps_drop_journaled] by (metis snd_conv)
  with Cons.IH [OF rest] p show ?case by auto
qed (simp add: returnR_def)

lemma safe_load_pending:
  assumes nl: "newline \<notin> set (dumps_compact (JDict (entry_payload E)))"
    and E: "E \<in> set (entries_or_none (we_time env) (JDict previous))"
  shows "safe (event_line (JDict (entry_payload E))) (\<lambda>s. durable (event_line (JDict (entry_payload E))) (rc_fs s))
    (load_pending env previous heartbeat) (\<lambda>p s. held E p s \<and> deduped p)"
proof (rule safeI)
  let ?l = "event_line (JDict (entry_payload E))"
  fix s r s'
  assume s: "durable ?l (rc_fs s)" and run: "load_pending env previous heartbeat s = (r, s')"
  have s': "durable ?l (rc_fs s')"
    using durable_line.keeps_apply [OF durable_line.keeps_load_pending s] run by (metis snd_conv)
  show "case r of Inl _ \<Rightarrow> durable ?l (rc_fs s') | Inr p \<Rightarrow> held E p s' \<and> deduped p"
  proof (cases r)
    case (Inr p)
    from E obtain a where a: "pending_transition_entries (we_time env) (JDict previous) = Inr a" "E \<in> set a"
      by (cases "pending_transition_entries (we_time env) (JDict previous)") (auto simp: entries_or_none_def)
    have dd: "deduped a" using a(1) by (rule pending_deduped)
    obtain b where b: "drop_journaled (add_new (add_new [] a) b) s = (Inr p, s')"
      using run Inr a(1) record_unverifiable_isl by (fastforce simp: load_pending_def catchR_def bindSE_def liftR_def split: prod.splits sum.splits flow.splits if_splits)
    let ?es = "add_new (add_new [] a) b"
    have "add_new [] a = a" using dd add_new_id [of "[]"] by simp
    then have "E \<in> set ?es" "deduped ?es" using a(2) dd add_new_keeps [of a b] add_new_deduped by auto
    with drop_journaled_run [OF b] nl s' Inr show ?thesis by (auto simp: held_def)
  qed (simp add: s')
qed

lemma safe_kept:
  assumes "durable_line.keeps (event_line (JDict (entry_payload E))) m" "journal_line.keeps (event_line (JDict (entry_payload E))) m"
  shows "safe (event_line (JDict (entry_payload E))) (\<lambda>s. held E p s \<and> b) m (\<lambda>_ s. held E p s \<and> b)"
proof (rule safeI)
  let ?l = "event_line (JDict (entry_payload E))"
  fix s r s'
  assume s: "held E p s \<and> b" and run: "m s = (r, s')"
  have "durable ?l (rc_fs s')" "journaled ?l (rc_fs s) \<Longrightarrow> journaled ?l (rc_fs s')"
    using durable_line.keeps_apply [OF assms(1), of s] journal_line.keeps_apply [OF assms(2), of s] s run by (auto simp: held_def)
  with s show "case r of Inr x \<Rightarrow> held E p s' \<and> b | Inl _ \<Rightarrow> durable ?l (rc_fs s')" by (cases r) (auto simp: held_def)
qed

lemma safe_if: "safe l P a Q \<Longrightarrow> safe l P b Q \<Longrightarrow> safe l P (\<lambda>s. if c s then a s else b s) Q"
  by (simp add: safe_def)

subsection \<open>Provisional alarms\<close>

lemma safe_reconcile:
  assumes "list_all (\<lambda>e. \<not> py_eq E e) es"
  shows "safe (event_line (JDict (entry_payload E))) (\<lambda>s. held E p s \<and> deduped p)
    (reconcile_tentative env heartbeat previous jl jc es (old, p)) (\<lambda>(_, p) s. held E p s \<and> deduped p)"
  using assms
proof (induction es arbitrary: old p)
  case Nil
  show ?case by (auto intro: safe_returnR)
next
  case (Cons e es)
  let ?l = "event_line (JDict (entry_payload E))" and ?P = "\<lambda>p s. held E p s \<and> deduped p"
  have held_durable: "?P p s \<Longrightarrow> durable ?l (rc_fs s)" for s by (simp add: held_def)
  have drop: "?P p s \<Longrightarrow> ?P (filter (\<lambda>x. \<not> py_eq x e) p) s" for s
    using Cons.prems by (auto simp: held_def sorted_wrt_filter)
  note IH = Cons.IH [OF conjunct2 [OF Cons.prems [simplified]]]
  note stop = safe_stop [of "?P p" ?l, OF held_durable]
  show ?case
    unfolding reconcile_tentative.simps Let_def by (intro safe_if stop IH safe_conseq [OF IH drop])
qed

text \<open>An entry that equals a provisional alarm of one of the two outboxes.\<close>

definition provisional :: "time_lib \<Rightarrow> dict \<Rightarrow> json \<Rightarrow> json \<Rightarrow> bool" where
  "provisional tm state heartbeat E =
     list_ex (\<lambda>e. is_tentative e \<and> py_eq E e) (entries_or_none tm (JDict state) @ entries_or_none tm heartbeat)"

lemma add_new_subset: "set (add_new acc xs) \<subseteq> set acc \<union> set xs"
  unfolding add_new_def
proof (induction xs arbitrary: acc)
  case (Cons x xs)
  show ?case using Cons [of acc] Cons [of "acc @ [x]"] by auto
qed simp

lemma safe_admit:
  assumes "\<not> provisional (we_time env) previous heartbeat E"
  shows "safe (event_line (JDict (entry_payload E))) (\<lambda>s. held E p s \<and> deduped p)
    (admit_tentative env heartbeat previous old p) (\<lambda>(_, p) s. held E p s \<and> deduped p)"
proof -
  let ?l = "event_line (JDict (entry_payload E))" and ?P = "\<lambda>p s. held E p s \<and> deduped p"
  let ?es = "tentative_entries (we_time env) previous heartbeat p"
  have es: "list_all (\<lambda>e. \<not> py_eq E e) ?es"
    using assms add_new_subset [of "[]"] by (fastforce simp: provisional_def tentative_entries_def list_all_iff list_ex_iff)
  have sorted: "safe ?l (?P p) (bindSE (reconcile_tentative env heartbeat previous jl jc ?es (old, p)) (\<lambda>(old, pending). returnR (sort old, pending)))
      (\<lambda>(_, p). ?P p)" for jl jc
  proof (rule safe_bind [OF safe_reconcile [OF es]])
    fix x :: "incident list \<times> json list"
    show "safe ?l ((\<lambda>(_, p). ?P p) x) (case x of (old, pending) \<Rightarrow> returnR (sort old, pending)) (\<lambda>(_, p). ?P p)"
      by (cases x) (simp add: safe_returnR)
  qed
  have stop: "safe ?l (?P p) (record_unverifiable_prior_state env heartbeat cause False) (\<lambda>(_, p). ?P p)" for cause
    by (rule safe_stop) (simp add: held_def)
  show ?thesis
    unfolding admit_tentative_def Let_def
    by (auto intro!: safe_returnR safe_bind [OF safe_kept [OF durable_line.keeps_tentative_journal journal_line.keeps_tentative_journal]]
        stop sorted)
qed

lemma safe_record_prior:
  "safe l (\<lambda>s. durable l (rc_fs s) \<and> fs_state (rc_fs s) = Doc (JDict st)) (record_prior env serialized heartbeat)
    (\<lambda>(_, previous, _) s. previous = st \<and> durable l (rc_fs s))"
proof (rule safeI)
  fix s r s'
  assume s: "durable l (rc_fs s) \<and> fs_state (rc_fs s) = Doc (JDict st)"
    and run: "record_prior env serialized heartbeat s = (r, s')"
  have s': "durable l (rc_fs s')"
    using durable_line.keeps_apply [OF durable_line.keeps_record_prior] s run by (metis snd_conv)
  have "fst (snd x) = st" if "r = Inr x" for x
    using run s that record_unverifiable_isl
    by (auto simp: record_prior_def read_prior_def bindSE_def exitR_def returnR_def set_result_def
        split: if_splits option.splits dest!: record_unverifiable_isl)
  with s' show "case r of Inr x \<Rightarrow> (case x of (_, previous, _) \<Rightarrow> \<lambda>s. previous = st \<and> durable l (rc_fs s)) s' | Inl _ \<Rightarrow> durable l (rc_fs s')"
    by (cases r) auto
qed

lemma queue_transition_keeps: "set pending \<subseteq> set (queue_transition t result pending)"
  using add_new_keeps by (auto simp: queue_transition_def split: option.split)

lemma queue_transition_deduped: "deduped pending \<Longrightarrow> deduped (queue_transition t result pending)"
  using add_new_deduped by (auto simp: queue_transition_def split: option.split)

lemma held_queued: "held E p s \<Longrightarrow> deduped p \<Longrightarrow> carried (event_line (JDict (entry_payload E))) (queue_transition t result p) s
    \<and> deduped (queue_transition t result p)"
  using queue_transition_keeps [of p t result] held_carried [of E "queue_transition t result p" s]
  by (auto intro: queue_transition_deduped simp: held_def)

lemma safe_decide:
  assumes nl: "newline \<notin> set (dumps_compact (JDict (entry_payload E)))"
  shows "safe (event_line (JDict (entry_payload E))) (\<lambda>s. held E p s \<and> deduped p)
    (\<lambda>s. bindSE (set_result (g s)) (\<lambda>_. publish env heartbeat previous suppress (o1 s) (severe s) n
       (queue_transition (t s) (g s) p)) s) (\<lambda>_ s. durable (event_line (JDict (entry_payload E))) (rc_fs s))"
proof (rule safe_local)
  let ?l = "event_line (JDict (entry_payload E))"
  fix s
  let ?q = "queue_transition (t s) (g s) p"
  have "safe ?l (\<lambda>s. held E p s \<and> deduped p) (set_result (g s)) (\<lambda>_ s. carried ?l ?q s \<and> deduped ?q)"
  proof (rule safeI)
    fix s1 r s2
    assume "held E p s1 \<and> deduped p" "set_result (g s) s1 = (r, s2)"
    with held_queued [of E p s1 "t s" "g s"] show "case r of Inr x \<Rightarrow> carried ?l ?q s2 \<and> deduped ?q | Inl _ \<Rightarrow> durable ?l (rc_fs s2)"
      by (auto simp: set_result_def carried_def)
  qed
  note step = safe_bind [OF this safe_publish [OF nl, folded event_line_def, where pending = ?q and env = env and heartbeat = heartbeat and previous = previous and
      suppress = suppress and old = "o1 s" and severe = "severe s" and n = n]]
  show "\<exists>(a :: unit rec_run) f. bindSE (set_result (g s)) (\<lambda>_. publish env heartbeat previous suppress (o1 s) (severe s) n ?q) s = bindSE a f s
      \<and> safe ?l (\<lambda>s. held E p s \<and> deduped p) (bindSE a f) (\<lambda>_ s. durable ?l (rc_fs s))"
    by (rule exI, rule exI, rule conjI [OF refl step])
qed

lemma safe_let: "(\<And>s. P s \<Longrightarrow> k s = c) \<Longrightarrow> safe l P (M c) Q \<Longrightarrow> safe l P (\<lambda>s. let h = k s in M h s) Q"
  by (simp add: safe_def)

lemma safe_sync:
  "safe l (\<lambda>s. durable l (rc_fs s) \<and> fs_state (rc_fs s) = st \<and> fs_heartbeat (rc_fs s) = hb) (in_fs fsync)
    (\<lambda>_ s. durable l (rc_fs s) \<and> fs_state (rc_fs s) = st \<and> fs_heartbeat (rc_fs s) = hb)"
proof (rule safeI)
  let ?P = "\<lambda>s. durable l (rc_fs s) \<and> fs_state (rc_fs s) = st \<and> fs_heartbeat (rc_fs s) = hb"
  fix s r s'
  assume s: "?P s" and run: "in_fs fsync s = (r, s')"
  then obtain q where "fsync (rc_fs s) = (q, rc_fs s')" by (auto simp: in_fs_def split: prod.splits)
  then have "fs_state (rc_fs s') = fs_state (rc_fs s)" "fs_heartbeat (rc_fs s') = fs_heartbeat (rc_fs s)"
    using fsync_events by (auto simp: frame_def)
  moreover have "durable l (rc_fs s')"
    using durable_line.keeps_apply [OF durable_line.keeps_in_fs [OF durable_line.keeps_fsync]] s run by (metis snd_conv)
  ultimately show "case r of Inr x \<Rightarrow> ?P s' | Inl _ \<Rightarrow> durable l (rc_fs s')" using s by (cases r) auto
qed

lemma safe_record_steps:
  assumes nl: "newline \<notin> set (dumps_compact (JDict (entry_payload E)))"
    and E: "E \<in> set (entries_or_none (we_time env) (JDict st))"
    and "\<not> provisional (we_time env) st (heartbeat_of hb) E"
  shows "safe (event_line (JDict (entry_payload E)))
    (\<lambda>s. durable (event_line (JDict (entry_payload E))) (rc_fs s) \<and> fs_state (rc_fs s) = Doc (JDict st) \<and> fs_heartbeat (rc_fs s) = hb)
    (record_steps env serialized suppress) (\<lambda>_ s. durable (event_line (JDict (entry_payload E))) (rc_fs s))"
proof -
  let ?l = "event_line (JDict (entry_payload E))"
  let ?P = "\<lambda>s. durable ?l (rc_fs s) \<and> fs_state (rc_fs s) = Doc (JDict st) \<and> fs_heartbeat (rc_fs s) = hb"
  let ?H = "heartbeat_of hb"
  have prior: "safe ?l ?P (record_prior env serialized ?H) (\<lambda>(_, previous, _) s. previous = st \<and> durable ?l (rc_fs s))"
    by (rule safe_conseq [OF safe_record_prior]) auto
  have admitted: "safe ?l ((\<lambda>(_, p) s. held E p s \<and> deduped p) x) (case x of (old, pending) \<Rightarrow> \<lambda>s.
       let old = active_incidents env st ?H (rc_result s) old pending;
           severe = severe_after suppress (rc_result s) old;
           result = decided_result suppress (rc_result s) old;
           transition = (if suppress then None else transition_of old severe);
           queued = queue_transition transition result pending
       in bindSE (set_result result) (\<lambda>_. publish env ?H st suppress old severe (length pending) queued) s)
      (\<lambda>_ s. durable ?l (rc_fs s))" for x
    by (cases x) (simp only: prod.case Let_def, rule safe_decide [OF nl])
  have rest: "safe ?l ((\<lambda>(_, previous, _) s. previous = st \<and> durable ?l (rc_fs s)) x) (case x of (_, previous, old) \<Rightarrow>
     bindSE (load_pending env previous ?H) (\<lambda>pending.
     bindSE (admit_tentative env ?H previous old pending) (\<lambda>(old, pending) s.
       let old = active_incidents env previous ?H (rc_result s) old pending;
           severe = severe_after suppress (rc_result s) old;
           result = decided_result suppress (rc_result s) old;
           transition = (if suppress then None else transition_of old severe);
           queued = queue_transition transition result pending
       in bindSE (set_result result) (\<lambda>_. publish env ?H previous suppress old severe (length pending) queued) s)))
      (\<lambda>_ s. durable ?l (rc_fs s))" for x
  proof (cases x)
    case (fields c previous old)
    show ?thesis
    proof (cases "previous = st")
      case True
      show ?thesis
        unfolding fields True prod.case
        by (rule safe_bind [OF safe_conseq [OF safe_load_pending [OF nl E]]], simp, assumption,
            rule safe_bind [OF safe_admit [OF assms(3)]], rule admitted)
    qed (simp add: fields safe_def)
  qed
  show ?thesis
    unfolding record_steps_def
    by (rule safe_bind [OF safe_sync], rule safe_let [where c = ?H], simp, rule safe_bind [OF prior], rule rest)
qed

lemma check_entries_subset: "check_entries tm n u acc es = Inr out \<Longrightarrow> set out \<subseteq> set acc \<union> set es"
proof (induction es arbitrary: n u acc)
  case (Cons e es)
  then show ?case by (fastforce simp: bindE_def Let_def split: sum.splits if_splits)
qed simp

lemma outbox_in_state:
  assumes "fs_state fs = Doc (JDict st)" "E \<in> set (entries_or_none tm (JDict st))"
  shows "in_state (event_line (JDict (entry_payload E))) fs"
proof -
  from assms(2) obtain a where a: "pending_transition_entries tm (JDict st) = Inr a" "E \<in> set a"
    by (cases "pending_transition_entries tm (JDict st)") (auto simp: entries_or_none_def)
  from a(1) obtain n u where "check_entries tm n u [] (list_or_empty (jget st ''pending_transitions'')
      @ list_or_empty (jget st ''pending_surge_overflow'')) = Inr a"
    by (auto simp: pending_transition_entries_def get_or_def jget_def list_or_empty_def split: json.splits option.splits if_splits)
  from check_entries_subset [OF this] a(2) show ?thesis
    using assms(1) by (auto simp: in_state_def has_line_def list_ex_iff)
qed


subsection \<open>A corrupt state\<close>

definition verifiable :: "doc \<Rightarrow> bool" where
  "verifiable d = (case d of Missing \<Rightarrow> True | Doc v \<Rightarrow> is_dict v | _ \<Rightarrow> False)"

lemma unverifiable_run:
  assumes "(record_unverifiable_prior_state env heartbeat cause uncertain :: 'a rec_run) s = (r, s')"
  shows "fs_state (rc_fs s') = fs_state (rc_fs s) \<and> journal (rc_fs s') = journal (rc_fs s)
    \<and> (\<exists>f. r = Inl f \<and> ((\<exists>e. f = Raise e) \<or> jget (rc_result s') ''status'' \<noteq> JStr ''HEALTHY''))"
proof -
  have "jget (unverifiable_report env result heartbeat cause uncertain) ''status'' \<noteq> JStr ''HEALTHY''" for result
    by (simp add: unverifiable_report_def failure_report_def jget_def dict_get_def Let_def)
  with assms show ?thesis
    using write_heartbeat_run
    by (fastforce simp: record_unverifiable_prior_state_def Let_def bindSE_def liftR_def set_result_def in_fs_def exitR_def
        split: prod.splits sum.splits)
qed

definition pending_payload :: dict where
  "pending_payload = [(''event'', JStr ''ALARM''), (''status'', JStr ''ALARM''), (''checked_at_utc'', JStr ''0''), (''issues'', JList [])]"

definition pending_state :: dict where
  "pending_state = [(''severe'', JList []), (''pending_transitions'', JList [transition_entry ''ALARM'' pending_payload])]"

definition idle_env :: watch_env where
  "idle_env = \<lparr>we_time = \<lparr>fromisoformat = (\<lambda>_. Some 0), isoformat = (\<lambda>_. ''0''), seconds_text = (\<lambda>_. [])\<rparr>,
     we_decode = (\<lambda>_. Inr JNull), we_now = 0, we_state_path = ''state.json'', we_events_path = ''events.jsonl''\<rparr>"

text \<open>A poll whose ninth system call writes only two bytes.\<close>

definition pending_poll :: watch_rec where
  "pending_poll = \<lparr>rc_fs = \<lparr>fs_state = Doc (JDict pending_state), fs_heartbeat = Missing, fs_events = None,
       fs_faults = replicate 8 NoFault @ [Short 2]\<rparr>,
     rc_result = [(''checked_at_utc'', JStr ''0''), (''status'', JStr ''HEALTHY''), (''issues'', JList [])], rc_committed = []\<rparr>"


lemma corrupt_record:
  assumes bad: "\<not> verifiable (fs_state (rc_fs s))" and run: "watch_record env True suppress s = (r, s')"
  shows "fs_state (rc_fs s') = fs_state (rc_fs s) \<and> journal (rc_fs s') = journal (rc_fs s)
    \<and> (isl r \<or> jget (rc_result s') ''status'' \<noteq> JStr ''HEALTHY'')"
proof -
  obtain a s1 where sync: "in_fs fsync s = (a, s1)" by fastforce
  then have s1: "fs_state (rc_fs s1) = fs_state (rc_fs s)" "journal (rc_fs s1) = journal (rc_fs s)"
    using fsync_events by (fastforce simp: in_fs_def frame_def journal_def split: prod.splits)+
  obtain q where q: "record_steps env True suppress s = (q, s')"
    and r: "r = (case q of Inl (Raise e) \<Rightarrow> Inl e | Inl (Return v) \<Rightarrow> Inr v | Inr v \<Rightarrow> Inr v)"
    using run by (auto simp: watch_record_def split: prod.splits sum.splits flow.splits)
  show ?thesis
  proof (cases a)
    case (Inl e)
    then obtain x where "e = Raise x" using sync by (auto simp: in_fs_def split: prod.splits sum.splits)
    with Inl sync q r s1 show ?thesis by (auto simp: record_steps_def bindSE_def)
  next
    case (Inr u)
    let ?H = "heartbeat_of (fs_heartbeat (rc_fs s1))"
    have bad1: "\<not> verifiable (fs_state (rc_fs s1))" using bad s1(1) by simp
    have "\<exists>cause. read_prior env ?H s1 = record_unverifiable_prior_state env ?H cause True s1"
    proof (cases "fs_state (rc_fs s1)")
      case (Doc v)
      with bad1 show ?thesis by (cases v) (auto simp: read_prior_def verifiable_def)
    qed (use bad1 in \<open>auto simp: read_prior_def verifiable_def\<close>)
    then obtain cause where "read_prior env ?H s1 = record_unverifiable_prior_state env ?H cause True s1" by blast
    then obtain p s2 where p: "record_unverifiable_prior_state env ?H cause True s1 = (p, s2)"
      and read: "read_prior env ?H s1 = (p, s2)" by fastforce
    from unverifiable_run [OF p] obtain f where f: "p = Inl f" "(\<exists>e. f = Raise e) \<or> jget (rc_result s2) ''status'' \<noteq> JStr ''HEALTHY''"
      and kept: "fs_state (rc_fs s2) = fs_state (rc_fs s1)" "journal (rc_fs s2) = journal (rc_fs s1)" by blast
    have "record_prior env True ?H s1 = (Inl f, s2)"
      using read f(1) by (simp add: record_prior_def is_older_def bindSE_def returnR_def)
    then have "q = Inl f" "s' = s2" using q sync Inr by (auto simp: record_steps_def bindSE_def Let_def)
    with r f kept s1 show ?thesis by (cases f) auto
  qed
qed



end
