(* ===== verification/Env_Text.thy ===== *)
theory Env_Text
  imports Repo_Paths
begin

text \<open>
  \<open>src/scripts/ops/reconcile_public_login_smtp_env.py\<close>, the text of environment files: parsing, the values the
  source must have, and the reconciled content.  A \<open>ReconcileError\<close> is its message on the left.
\<close>

subsection \<open>Constants\<close>

definition APPROVED_KEYS :: "string list" where
  "APPROVED_KEYS = [''APP_BASE_URL'', ''AUTH_PUBLIC_LOGIN'', ''AUTH_LOG_MAGIC_TOKEN'', ''SMTP_HOST'', ''SMTP_PORT'',
     ''SMTP_AUTH'', ''SMTP_USER'', ''SMTP_PASS'', ''SMTP_FROM'']"

definition REQUIRED_SOURCE_KEYS :: "string list" where
  "REQUIRED_SOURCE_KEYS = [''AUTH_PUBLIC_LOGIN'', ''SMTP_HOST'', ''SMTP_PORT'', ''SMTP_AUTH'', ''SMTP_USER'', ''SMTP_PASS'', ''SMTP_FROM'']"

definition TLS_PORTS :: "int list" where
  "TLS_PORTS = [465, 587, 2525]"

definition CANONICAL_APP_BASE_URL :: string where
  "CANONICAL_APP_BASE_URL = ''https://commonthing.net''"

definition ALLOWED_SMTP_FROM_OVERRIDES :: "string list" where
  "ALLOWED_SMTP_FROM_OVERRIDES = [''noreply@login.commonthing.net'', ''noreply@login.weltgewebe.net'']"

definition RECONCILE_MARKER :: string where
  "RECONCILE_MARKER = ''# Reconciled canonical app-base, public-login and SMTP keys.''"

text \<open>The line and paragraph separators U+2028 and U+2029 are outside the characters of the model.\<close>

definition INVALID_LINE_CHARS :: "char list" where
  "INVALID_LINE_CHARS = [CHR 0x0D, CHR 0x0B, CHR 0x0C, CHR 0x1C, CHR 0x1D, CHR 0x1E, CHR 0x85]"

definition line_feed :: char where
  "line_feed = CHR 0x0A"

definition equals_sign :: char where
  "equals_sign = CHR ''=''"

subsection \<open>Parsing\<close>

definition key_from_line :: "string \<Rightarrow> string option" where
  "key_from_line raw =
     (let stripped = strip raw in
      if stripped = [] \<or> starts_with ''#'' stripped \<or> equals_sign \<notin> set stripped then None
      else
        let left = strip (fst (partition_at equals_sign stripped));
            name = (if starts_with ''export '' left then strip (drop 7 left) else left)
        in if name = [] then None else Some name)"

definition value_from_line :: "string \<Rightarrow> string" where
  "value_from_line raw = strip (snd (partition_at equals_sign (strip raw)))"

record env_document =
  ed_lines :: "string list"
  ed_values :: "(string \<times> string) list"

fun collect_values :: "string \<Rightarrow> string list \<Rightarrow> (string \<times> string) list \<Rightarrow> string + (string \<times> string) list" where
  "collect_values label [] values = Inr values"
| "collect_values label (raw # lines) values = (case key_from_line raw of
     None \<Rightarrow> collect_values label lines values
   | Some key \<Rightarrow>
       if key \<in> set (dict_keys values) then Inl (''duplicate key in '' @ label @ '': '' @ key)
       else collect_values label lines (dict_set values key (value_from_line raw)))"

definition parse_env :: "string \<Rightarrow> string \<Rightarrow> string + env_document" where
  "parse_env label content =
     (if list_ex (\<lambda>c. c \<in> set INVALID_LINE_CHARS) content then Inl (label @ '' contains an unsupported line separator'')
      else
        let lines = split_on line_feed content in
        bindE (collect_values label lines []) (\<lambda>values. Inr \<lparr>ed_lines = lines, ed_values = values\<rparr>))"

subsection \<open>The values of the source\<close>

definition is_quote_char :: "char \<Rightarrow> bool" where
  "is_quote_char c = (c = CHR 0x27 \<or> c = CHR 0x22)"

definition malformed_quote :: "string \<Rightarrow> string" where
  "malformed_quote key = ''malformed quoted value for key: '' @ key"

definition logical_scalar :: "string \<Rightarrow> string \<Rightarrow> string + string" where
  "logical_scalar key raw =
     (let value = strip raw in
      if value = [] then Inr []
      else if is_quote_char (hd value)
      then (if length value < 2 \<or> last value \<noteq> hd value then Inl (malformed_quote key) else Inr (strip (butlast (tl value))))
      else if is_quote_char (last value) then Inl (malformed_quote key) else Inr value)"

text \<open>\<open>[0-9]{1,5}\<close> and its number.\<close>

definition is_ascii_port :: "string \<Rightarrow> bool" where
  "is_ascii_port s = (1 \<le> length s \<and> length s \<le> 5 \<and> list_all is_digit s)"

definition port_number :: "string \<Rightarrow> int" where
  "port_number s = fold (\<lambda>c n. 10 * n + (of_char c - 48)) s 0"

definition source_value :: "(string \<times> string) list \<Rightarrow> string \<Rightarrow> string" where
  "source_value values key = (case dict_get values key of Some v \<Rightarrow> v | None \<Rightarrow> [])"

definition raw_setting :: "(string \<times> string) list \<Rightarrow> string \<Rightarrow> string + string" where
  "raw_setting values key =
     (let raw = strip (source_value values key) in
      bindE (logical_scalar key raw) (\<lambda>v. if v = [] then Inl (key @ '' is empty in the source'') else Inr raw))"

definition sender_setting :: "string option \<Rightarrow> string \<Rightarrow> string + string" where
  "sender_setting smtp_from_override sender = (case smtp_from_override of
     None \<Rightarrow> Inr sender
   | Some s \<Rightarrow> if s \<in> set ALLOWED_SMTP_FROM_OVERRIDES then Inr s else Inl ''SMTP_FROM override is not an approved sender'')"

definition validate_source :: "(string \<times> string) list \<Rightarrow> string option \<Rightarrow> string + (string \<times> string) list" where
  "validate_source values smtp_from_override =
     (let missing = filter (\<lambda>k. k \<notin> set (dict_keys values)) REQUIRED_SOURCE_KEYS in
      if missing \<noteq> [] then Inl (''required approved source keys missing: '' @ join '', '' missing)
      else
        bindE (logical_scalar ''AUTH_PUBLIC_LOGIN'' (source_value values ''AUTH_PUBLIC_LOGIN'')) (\<lambda>public_login.
        bindE (guardE (public_login = ''1'' \<or> lower public_login = ''true'') ''AUTH_PUBLIC_LOGIN is not enabled in the source'') (\<lambda>_.
        bindE (logical_scalar ''AUTH_LOG_MAGIC_TOKEN''
            (case dict_get values ''AUTH_LOG_MAGIC_TOKEN'' of Some v \<Rightarrow> v | None \<Rightarrow> ''0'')) (\<lambda>magic_log.
        bindE (guardE (magic_log = ''0'' \<or> lower magic_log = ''false'') ''AUTH_LOG_MAGIC_TOKEN is not disabled in the source'') (\<lambda>_.
        bindE (logical_scalar ''SMTP_AUTH'' (source_value values ''SMTP_AUTH'')) (\<lambda>smtp_auth.
        bindE (guardE (lower smtp_auth = ''on'') ''SMTP_AUTH must be exactly 'on' in the source'') (\<lambda>_.
        bindE (logical_scalar ''SMTP_PORT'' (source_value values ''SMTP_PORT'')) (\<lambda>port_text.
        bindE (guardE (is_ascii_port port_text) ''SMTP_PORT must contain ASCII digits only'') (\<lambda>_.
        bindE (guardE (port_number port_text \<in> set TLS_PORTS) ''SMTP_PORT is not an approved TLS submission port'') (\<lambda>_.
        bindE (raw_setting values ''SMTP_HOST'') (\<lambda>host.
        bindE (raw_setting values ''SMTP_USER'') (\<lambda>user.
        bindE (raw_setting values ''SMTP_PASS'') (\<lambda>pass.
        bindE (raw_setting values ''SMTP_FROM'') (\<lambda>sender.
        bindE (sender_setting smtp_from_override sender) (\<lambda>sender.
          Inr (zip APPROVED_KEYS [CANONICAL_APP_BASE_URL, ''1'', ''0'', host, str_int (port_number port_text), ''on'', user, pass, sender]
            ))))))))))))))))"

subsection \<open>The reconciled content\<close>

definition changed_keys :: "env_document \<Rightarrow> (string \<times> string) list \<Rightarrow> string list" where
  "changed_keys destination selected =
     filter (\<lambda>key. dict_get (ed_values destination) key \<noteq> Some (source_value selected key)) APPROVED_KEYS"

definition is_kept :: "(string \<times> string) list \<Rightarrow> string \<Rightarrow> bool" where
  "is_kept selected raw =
     ((case key_from_line raw of None \<Rightarrow> True | Some key \<Rightarrow> key \<notin> set (dict_keys selected)) \<and> strip raw \<noteq> RECONCILE_MARKER)"

definition drop_trailing_empty :: "string list \<Rightarrow> string list" where
  "drop_trailing_empty lines = rev (dropWhile (\<lambda>l. l = []) (rev lines))"

definition setting_line :: "(string \<times> string) list \<Rightarrow> string \<Rightarrow> string" where
  "setting_line selected key = key @ equals_sign # source_value selected key"

definition reconciled_lines :: "string list \<Rightarrow> (string \<times> string) list \<Rightarrow> string list" where
  "reconciled_lines lines selected =
     drop_trailing_empty (filter (is_kept selected) lines) @ [[], RECONCILE_MARKER] @ map (setting_line selected) APPROVED_KEYS"

definition build_reconciled_content :: "string \<Rightarrow> (string \<times> string) list \<Rightarrow> string + string" where
  "build_reconciled_content destination_text selected =
     bindE (parse_env ''destination'' destination_text) (\<lambda>destination.
       Inr (join [line_feed] (reconciled_lines (ed_lines destination) selected) @ [line_feed]))"

subsection \<open>Lines and values\<close>

definition line_pairs :: "string list \<Rightarrow> (string \<times> string) list" where
  "line_pairs lines = List.map_filter (\<lambda>raw. map_option (\<lambda>key. (key, value_from_line raw)) (key_from_line raw)) lines"

lemma line_pairs_Nil [simp]: "line_pairs [] = []"
  by (simp add: line_pairs_def)

lemma line_pairs_Cons: "line_pairs (raw # lines) =
    (case key_from_line raw of None \<Rightarrow> line_pairs lines | Some key \<Rightarrow> (key, value_from_line raw) # line_pairs lines)"
  by (simp add: line_pairs_def map_filter_simps split: option.split)

lemma line_pairs_append [simp]: "line_pairs (a @ b) = line_pairs a @ line_pairs b"
  by (induction a) (auto simp: line_pairs_Cons split: option.split)

lemma collect_values_Inr:
  "distinct (dict_keys vals) \<Longrightarrow>
   collect_values label lines vals = Inr out \<longleftrightarrow> out = vals @ line_pairs lines \<and> distinct (dict_keys out)"
proof (induction lines arbitrary: vals)
  case (Cons raw lines)
  show ?case
  proof (cases "key_from_line raw")
    case (Some key)
    show ?thesis
    proof (cases "key \<in> set (dict_keys vals)")
      case True
      then show ?thesis using Some by (auto simp: line_pairs_Cons dict_keys_def)
    next
      case False
      then have "distinct (dict_keys (vals @ [(key, value_from_line raw)]))" using Cons.prems by (simp add: dict_keys_def)
      with Cons.IH [OF this] False Some show ?thesis by (auto simp: line_pairs_Cons dict_set_fresh)
    qed
  qed (simp add: Cons line_pairs_Cons)
qed auto

definition clean_text :: "string \<Rightarrow> bool" where
  "clean_text s = (\<not> list_ex (\<lambda>c. c \<in> set INVALID_LINE_CHARS) s)"

lemma clean_text_append [simp]: "clean_text (a @ b) \<longleftrightarrow> clean_text a \<and> clean_text b"
  by (simp add: clean_text_def)

lemma clean_text_iff: "clean_text s \<longleftrightarrow> set s \<inter> set INVALID_LINE_CHARS = {}"
  by (auto simp: clean_text_def list_ex_iff)

lemma parse_env_Inr:
  "parse_env label content = Inr doc \<longleftrightarrow> clean_text content \<and>
     doc = \<lparr>ed_lines = split_on line_feed content, ed_values = line_pairs (split_on line_feed content)\<rparr>
     \<and> distinct (dict_keys (line_pairs (split_on line_feed content)))"
  unfolding parse_env_def clean_text_def
  by (auto simp: bindE_Inr_iff Let_def collect_values_Inr dict_keys_def)

lemma split_on_single: "c \<notin> set l \<Longrightarrow> split_on c l = [l]"
  by (induction l) auto

lemma split_join: "ls \<noteq> [] \<Longrightarrow> \<forall>l \<in> set ls. c \<notin> set l \<Longrightarrow> split_on c (join [c] ls) = ls"
proof (induction ls)
  case (Cons l ls)
  then show ?case by (cases ls) (simp_all add: split_on_single split_on_append)
qed simp

lemma split_join_end: "ls \<noteq> [] \<Longrightarrow> \<forall>l \<in> set ls. c \<notin> set l \<Longrightarrow> split_on c (join [c] ls @ [c]) = ls @ [[]]"
  using split_on_append [of c "join [c] ls" "[]"] split_join [of ls c] by simp

lemma join_clean: "clean_text sep \<Longrightarrow> clean_text (join sep ls) \<longleftrightarrow> list_all clean_text ls"
proof (induction sep ls rule: join.induct)
  case (1 sep)
  then show ?case by (simp add: clean_text_def)
qed simp_all

subsection \<open>Setting lines\<close>

definition plain_env_key :: "string \<Rightarrow> bool" where
  "plain_env_key k = (k \<noteq> [] \<and> hd k \<noteq> CHR ''#'' \<and> equals_sign \<notin> set k \<and> list_all (\<lambda>c. \<not> is_ws c) k \<and> clean_text k \<and> line_feed \<notin> set k)"

definition plain_value :: "string \<Rightarrow> bool" where
  "plain_value v = (v \<noteq> [] \<and> trimmed is_ws v \<and> clean_text v \<and> line_feed \<notin> set v)"

definition plain_selection :: "(string \<times> string) list \<Rightarrow> bool" where
  "plain_selection sel = (map fst sel = APPROVED_KEYS \<and> list_all (\<lambda>(k, v). plain_value v) sel)"

lemma approved_plain: "k \<in> set APPROVED_KEYS \<Longrightarrow> plain_env_key k"
proof -
  have "list_all plain_env_key APPROVED_KEYS" by code_simp
  then show "k \<in> set APPROVED_KEYS \<Longrightarrow> plain_env_key k" by (simp add: list_all_iff)
qed

lemma approved_distinct: "distinct APPROVED_KEYS"
  by (simp add: APPROVED_KEYS_def)

lemma plain_env_key_no_export: "plain_env_key k \<Longrightarrow> \<not> starts_with ''export '' k"
proof
  assume "plain_env_key k" "starts_with ''export '' k"
  then obtain t where "k = ''export '' @ t" by (auto simp: starts_with_iff)
  then have "CHR '' '' \<in> set k" by simp
  moreover have "is_ws (CHR '' '')" by (simp add: is_ws_def)
  ultimately show False using \<open>plain_env_key k\<close> by (auto simp: plain_env_key_def list_all_iff)
qed

lemma setting_line_parsed:
  assumes "plain_env_key k" "plain_value v"
  shows "key_from_line (k @ equals_sign # v) = Some k" "value_from_line (k @ equals_sign # v) = v"
proof -
  have t: "trimmed is_ws (k @ equals_sign # v)"
    using assms by (auto simp: plain_env_key_def plain_value_def trimmed_def list_all_iff)
  have p: "partition_at equals_sign (k @ equals_sign # v) = (k, v)"
    using assms(1) by (simp add: plain_env_key_def partition_at_first)
  have k: "trimmed is_ws k" using assms(1) by (auto simp: plain_env_key_def trimmed_def list_all_iff)
  have v: "trimmed is_ws v" using assms(2) by (simp add: plain_value_def)
  have "\<not> starts_with ''#'' (k @ equals_sign # v)"
    using assms(1) by (cases k) (auto simp: plain_env_key_def starts_with_def)
  with plain_env_key_no_export [OF assms(1)] assms(1)
  show "key_from_line (k @ equals_sign # v) = Some k"
    by (simp add: key_from_line_def Let_def strip_trimmed [OF t] strip_trimmed [OF k] p plain_env_key_def)
  show "value_from_line (k @ equals_sign # v) = v"
    by (simp add: value_from_line_def strip_trimmed [OF t] strip_trimmed [OF v] p)
qed

subsection \<open>The reconciled lines\<close>

lemma strip_Nil [simp]: "strip [] = []"
  by (simp add: strip_def lstrip_def rstrip_by_def)

lemma key_from_empty [simp]: "key_from_line [] = None"
  by (simp add: key_from_line_def)

lemma marker_no_key: "strip raw = RECONCILE_MARKER \<Longrightarrow> key_from_line raw = None"
  by (simp add: key_from_line_def RECONCILE_MARKER_def starts_with_def)

lemma marker_trimmed: "strip RECONCILE_MARKER = RECONCILE_MARKER"
  by code_simp

lemma line_pairs_kept: "line_pairs (filter (is_kept sel) lines) = filter (\<lambda>(k, v). k \<notin> set (dict_keys sel)) (line_pairs lines)"
proof (induction lines)
  case (Cons raw lines)
  show ?case
  proof (cases "key_from_line raw")
    case None
    with Cons show ?thesis by (simp add: line_pairs_Cons)
  next
    case (Some key)
    then have "strip raw \<noteq> RECONCILE_MARKER" using marker_no_key [of raw] by force
    with Cons Some show ?thesis by (simp add: line_pairs_Cons is_kept_def)
  qed
qed simp

lemma drop_trailing_split: "\<exists>n. lines = drop_trailing_empty lines @ replicate n []"
proof -
  have "lines = rev (dropWhile (\<lambda>l. l = []) (rev lines)) @ rev (takeWhile (\<lambda>l. l = []) (rev lines))"
    by (metis rev_append rev_rev_ident takeWhile_dropWhile_id)
  moreover have "takeWhile (\<lambda>l. l = []) (rev lines) = replicate (length (takeWhile (\<lambda>l. l = []) (rev lines))) []"
    by (metis (mono_tags, lifting) replicate_length_same set_takeWhileD)
  ultimately show ?thesis unfolding drop_trailing_empty_def by (metis rev_replicate)
qed

lemma drop_trailing_empty_end [simp]: "drop_trailing_empty (lines @ [[]]) = drop_trailing_empty lines"
  by (simp add: drop_trailing_empty_def)

lemma drop_trailing_idem [simp]: "drop_trailing_empty (drop_trailing_empty lines) = drop_trailing_empty lines"
proof -
  have "dropWhile p (dropWhile p xs) = dropWhile p xs" for p and xs :: "string list" by (induction xs) auto
  then show ?thesis by (simp add: drop_trailing_empty_def)
qed

lemma line_pairs_replicate [simp]: "line_pairs (replicate n []) = []"
  by (induction n) (simp_all add: line_pairs_Cons)

lemma line_pairs_drop [simp]: "line_pairs (drop_trailing_empty lines) = line_pairs lines"
proof -
  obtain n where "lines = drop_trailing_empty lines @ replicate n []" using drop_trailing_split by blast
  then show ?thesis by (metis append_Nil2 line_pairs_append line_pairs_replicate)
qed

lemma drop_trailing_subset: "set (drop_trailing_empty lines) \<subseteq> set lines"
  unfolding drop_trailing_empty_def using set_dropWhileD by fastforce

lemma selection_value: "plain_selection sel \<Longrightarrow> k \<in> set APPROVED_KEYS \<Longrightarrow> plain_value (source_value sel k)"
proof -
  assume sel: "plain_selection sel" and "k \<in> set APPROVED_KEYS"
  then have "k \<in> fst ` set sel" unfolding plain_selection_def by (metis set_map)
  then obtain v where v: "dict_get sel k = Some v" unfolding dict_get_def by (metis map_of_eq_None_iff not_None_eq)
  then have "(k, v) \<in> set sel" unfolding dict_get_def by (rule map_of_SomeD)
  with sel v show "plain_value (source_value sel k)" by (auto simp: plain_selection_def list_all_iff source_value_def)
qed

lemma selection_pairs: "plain_selection sel \<Longrightarrow> map (\<lambda>k. (k, source_value sel k)) APPROVED_KEYS = sel"
proof -
  assume "plain_selection sel"
  then have keys: "map fst sel = APPROVED_KEYS" by (simp add: plain_selection_def)
  then have "distinct (map fst sel)" using approved_distinct by simp
  then have "map (\<lambda>p. (fst p, source_value sel (fst p))) sel = sel"
    by (intro map_idI) (auto simp: source_value_def dict_get_def)
  then show ?thesis by (simp only: keys [symmetric] map_map comp_def)
qed

lemma line_pairs_settings: "plain_selection sel \<Longrightarrow> line_pairs (map (setting_line sel) APPROVED_KEYS) = sel"
proof -
  assume sel: "plain_selection sel"
  have "set ks \<subseteq> set APPROVED_KEYS \<Longrightarrow> line_pairs (map (setting_line sel) ks) = map (\<lambda>k. (k, source_value sel k)) ks" for ks
    by (induction ks) (simp_all add: line_pairs_Cons setting_line_def setting_line_parsed approved_plain selection_value [OF sel])
  then show ?thesis using selection_pairs [OF sel] by simp
qed

lemma marker_text: "clean_text RECONCILE_MARKER" "line_feed \<notin> set RECONCILE_MARKER" "clean_text [line_feed]" "clean_text []"
  by code_simp+

lemma setting_line_text: "plain_env_key k \<Longrightarrow> plain_value (source_value sel k) \<Longrightarrow> clean_text (setting_line sel k) \<and> line_feed \<notin> set (setting_line sel k)"
proof -
  have "clean_text [equals_sign]" "equals_sign \<noteq> line_feed" by code_simp+
  then show "plain_env_key k \<Longrightarrow> plain_value (source_value sel k) \<Longrightarrow> clean_text (setting_line sel k) \<and> line_feed \<notin> set (setting_line sel k)"
    by (auto simp: setting_line_def plain_env_key_def plain_value_def clean_text_def)
qed

lemma reconciled_line_text:
  assumes "clean_text content" "plain_selection sel" "l \<in> set (reconciled_lines (split_on line_feed content) sel)"
  shows "clean_text l \<and> line_feed \<notin> set l"
proof -
  have "list_all clean_text (split_on line_feed content)"
    using assms(1) join_clean [OF marker_text(3), of "split_on line_feed content"] by (simp add: join_split_on)
  then have "l \<in> set (split_on line_feed content) \<Longrightarrow> ?thesis" using split_on_no_sep by (auto simp: list_all_iff)
  moreover have "k \<in> set APPROVED_KEYS \<Longrightarrow> clean_text (setting_line sel k) \<and> line_feed \<notin> set (setting_line sel k)" for k
    by (rule setting_line_text [OF approved_plain selection_value [OF assms(2)]])
  moreover have "l \<in> set (split_on line_feed content) \<or> l = [] \<or> l = RECONCILE_MARKER \<or> l \<in> setting_line sel ` set APPROVED_KEYS"
    using assms(3) drop_trailing_subset [of "filter (is_kept sel) (split_on line_feed content)"] by (auto simp: reconciled_lines_def)
  ultimately show ?thesis using marker_text by auto
qed

lemma reconciled_parse:
  assumes dst: "parse_env label content = Inr d" and sel: "plain_selection sel"
  shows "parse_env label' (join [line_feed] (reconciled_lines (ed_lines d) sel) @ [line_feed]) =
    Inr \<lparr>ed_lines = reconciled_lines (ed_lines d) sel @ [[]],
         ed_values = filter (\<lambda>(k, v). k \<notin> set APPROVED_KEYS) (ed_values d) @ sel\<rparr>"
proof -
  let ?ls = "reconciled_lines (ed_lines d) sel"
  have d: "ed_lines d = split_on line_feed content" "ed_values d = line_pairs (ed_lines d)" "distinct (dict_keys (ed_values d))"
    and clean: "clean_text content" using dst by (auto simp: parse_env_Inr)
  have lines: "clean_text l \<and> line_feed \<notin> set l" if "l \<in> set ?ls" for l
    using reconciled_line_text [OF clean sel] that d(1) by simp
  have keys: "dict_keys sel = APPROVED_KEYS" using sel by (simp add: plain_selection_def dict_keys_def)
  have "?ls \<noteq> []" by (simp add: reconciled_lines_def)
  then have parts: "split_on line_feed (join [line_feed] ?ls @ [line_feed]) = ?ls @ [[]]"
    using lines by (intro split_join_end) auto
  have whole: "clean_text (join [line_feed] ?ls @ [line_feed])"
    using lines marker_text(3) by (simp add: join_clean list_all_iff)
  have marker: "key_from_line RECONCILE_MARKER = None" using marker_no_key [OF marker_trimmed] .
  have pairs: "line_pairs (?ls @ [[]]) = filter (\<lambda>(k, v). k \<notin> set APPROVED_KEYS) (ed_values d) @ sel"
    unfolding reconciled_lines_def
    by (simp add: line_pairs_Cons marker line_pairs_kept line_pairs_settings [OF sel] keys d(2))
  have "distinct (dict_keys (filter (\<lambda>(k, v). k \<notin> set APPROVED_KEYS) (ed_values d) @ sel))"
    using d(3) keys approved_distinct by (auto simp: dict_keys_def distinct_map_filter)
  then show ?thesis unfolding parse_env_Inr parts pairs using whole by blast
qed

lemma reconciled_lines_stable:
  assumes sel: "plain_selection sel"
  shows "reconciled_lines (reconciled_lines lines sel @ [[]]) sel = reconciled_lines lines sel"
proof -
  let ?K = "drop_trailing_empty (filter (is_kept sel) lines)"
  have keys: "dict_keys sel = APPROVED_KEYS" using sel by (simp add: plain_selection_def dict_keys_def)
  have "filter (is_kept sel) ?K = ?K" using drop_trailing_subset [of "filter (is_kept sel) lines"] by (auto simp: filter_id_conv)
  moreover have "is_kept sel []"
    by (simp add: is_kept_def) (simp add: strip_def lstrip_def rstrip_by_def RECONCILE_MARKER_def)
  moreover have "\<not> is_kept sel RECONCILE_MARKER" by (simp add: is_kept_def marker_trimmed)
  moreover have "filter (is_kept sel) (map (setting_line sel) APPROVED_KEYS) = []"
    using setting_line_parsed(1) [OF approved_plain selection_value [OF sel]]
    by (auto simp: filter_empty_conv is_kept_def setting_line_def keys)
  ultimately have "filter (is_kept sel) (reconciled_lines lines sel @ [[]]) = (?K @ [[]]) @ [[]]"
    by (simp add: reconciled_lines_def)
  then show ?thesis by (simp only: reconciled_lines_def drop_trailing_empty_end drop_trailing_idem)
qed

subsection \<open>The selection\<close>

lemma parsed_value_text:
  assumes "parse_env label content = Inr d" "dict_get (ed_values d) k = Some v"
  shows "clean_text v \<and> line_feed \<notin> set v"
proof -
  have "(k, v) \<in> set (line_pairs (split_on line_feed content))"
    using assms by (auto simp: parse_env_Inr dict_get_def dest: map_of_SomeD)
  then obtain raw where raw: "raw \<in> set (split_on line_feed content)" "v = value_from_line raw"
    by (auto simp: line_pairs_def List.map_filter_def)
  have "set (strip s) \<subseteq> set s" for s
    unfolding strip_def lstrip_def rstrip_by_def by (auto dest!: set_dropWhileD)
  moreover have "set (snd (partition_at c s)) \<subseteq> set s" for c s
    unfolding partition_at_def by (auto dest!: in_set_dropD set_dropWhileD)
  ultimately have sub: "set v \<subseteq> set raw" unfolding raw(2) value_from_line_def by blast
  have "list_all clean_text (split_on line_feed content)"
    using assms(1) join_clean [OF marker_text(3), of "split_on line_feed content"] by (simp add: join_split_on parse_env_Inr)
  with raw(1) have "clean_text raw" "line_feed \<notin> set raw" using split_on_no_sep by (auto simp: list_all_iff)
  with sub show ?thesis by (auto simp: clean_text_iff)
qed

lemma logical_scalar_Nil: "logical_scalar k [] = Inr []"
  by (simp add: logical_scalar_def)

lemma raw_setting_plain:
  assumes "raw_setting (ed_values d) k = Inr v" "parse_env label content = Inr d"
  shows "plain_value v"
proof -
  have v: "v = strip (source_value (ed_values d) k)" "logical_scalar k v \<noteq> Inr []"
    using assms(1) by (auto simp: raw_setting_def Let_def bindE_Inr_iff split: if_splits)
  then have "v \<noteq> []" using logical_scalar_Nil by auto
  then have "source_value (ed_values d) k \<noteq> []" using v(1) by auto
  then obtain w where w: "dict_get (ed_values d) k = Some w" "source_value (ed_values d) k = w"
    by (auto simp: source_value_def split: option.splits)
  have "set v \<subseteq> set w" unfolding v(1) w(2) strip_def lstrip_def rstrip_by_def by (auto dest!: set_dropWhileD)
  with parsed_value_text [OF assms(2) w(1)] have "clean_text v" "line_feed \<notin> set v" by (auto simp: clean_text_iff)
  moreover have "trimmed is_ws v" using strip_by_is_trimmed unfolding v(1) strip_is_strip_by by blast
  ultimately show ?thesis using \<open>v \<noteq> []\<close> by (simp add: plain_value_def)
qed

lemma fixed_plain:
  "list_all plain_value ([CANONICAL_APP_BASE_URL, ''1'', ''0'', ''on''] @ map str_int TLS_PORTS @ ALLOWED_SMTP_FROM_OVERRIDES)"
  by code_simp

lemma validate_source_Inr:
  assumes "validate_source vals override = Inr sel"
  obtains host user pass sender sent p where "raw_setting vals ''SMTP_HOST'' = Inr host" "raw_setting vals ''SMTP_USER'' = Inr user"
    "raw_setting vals ''SMTP_PASS'' = Inr pass" "raw_setting vals ''SMTP_FROM'' = Inr sender" "sender_setting override sender = Inr sent"
    "p \<in> set TLS_PORTS" "sel = zip APPROVED_KEYS [CANONICAL_APP_BASE_URL, ''1'', ''0'', host, str_int p, ''on'', user, pass, sent]"
  using assms unfolding validate_source_def by (auto simp: Let_def bindE_Inr_iff split: if_splits)

lemma validate_source_plain:
  assumes "parse_env label content = Inr d" "validate_source (ed_values d) override = Inr sel"
  shows "plain_selection sel"
proof -
  from validate_source_Inr [OF assms(2)] obtain host user pass sender sent p where
    r: "raw_setting (ed_values d) ''SMTP_HOST'' = Inr host" "raw_setting (ed_values d) ''SMTP_USER'' = Inr user"
    "raw_setting (ed_values d) ''SMTP_PASS'' = Inr pass" "raw_setting (ed_values d) ''SMTP_FROM'' = Inr sender"
    and s: "sender_setting override sender = Inr sent" and p: "p \<in> set TLS_PORTS"
    and sel: "sel = zip APPROVED_KEYS [CANONICAL_APP_BASE_URL, ''1'', ''0'', host, str_int p, ''on'', user, pass, sent]" by blast
  note plain = r [THEN raw_setting_plain, OF assms(1)]
  have "plain_value sent" using s plain(4) fixed_plain by (auto simp: sender_setting_def list_all_iff split: option.splits if_splits)
  moreover have "plain_value (str_int p)" using p fixed_plain by (auto simp: list_all_iff)
  ultimately have "list_all plain_value [CANONICAL_APP_BASE_URL, ''1'', ''0'', host, str_int p, ''on'', user, pass, sent]"
    using plain fixed_plain by simp
  moreover have "length APPROVED_KEYS = 9" by (simp add: APPROVED_KEYS_def)
  ultimately show ?thesis unfolding plain_selection_def sel
    by (auto simp: list_all_iff dest: set_zip_rightD)
qed

subsection \<open>Properties\<close>

text \<open>
  C8. What the reconciled file says: read back, every approved key has exactly the validated value, so that no
  approved key counts as changed any more, every other key has the value it had in the destination, no key occurs
  twice, and reconciling the file again gives the same file.
\<close>

theorem reconciled_content:
  assumes source: "parse_env ''source'' source_text = Inr source"
    and selected: "validate_source (ed_values source) override = Inr selected"
    and destination: "parse_env ''destination'' destination_text = Inr destination"
  shows "\<exists>content doc. build_reconciled_content destination_text selected = Inr content
    \<and> parse_env label content = Inr doc
    \<and> (\<forall>k. dict_get (ed_values doc) k =
           (if k \<in> set APPROVED_KEYS then dict_get selected k else dict_get (ed_values destination) k))
    \<and> distinct (dict_keys (ed_values doc)) \<and> changed_keys doc selected = []
    \<and> build_reconciled_content content selected = Inr content"
proof -
  have sel: "plain_selection selected" by (rule validate_source_plain [OF source selected])
  let ?ls = "reconciled_lines (ed_lines destination) selected"
  let ?content = "join [line_feed] ?ls @ [line_feed]"
  let ?kept = "filter (\<lambda>(k, v). k \<notin> set APPROVED_KEYS) (ed_values destination)"
  let ?doc = "\<lparr>ed_lines = ?ls @ [[]], ed_values = ?kept @ selected\<rparr>"
  have parsed: "parse_env l ?content = Inr ?doc" for l by (rule reconciled_parse [OF destination sel])
  have keys: "map fst selected = APPROVED_KEYS" using sel by (simp add: plain_selection_def)
  have kept: "map_of (filter (\<lambda>(k, v). k \<notin> set APPROVED_KEYS) ps) k = (if k \<in> set APPROVED_KEYS then None else map_of ps k)"
    for ps :: "(string \<times> string) list" and k by (induction ps) auto
  have "map_of selected k = None \<longleftrightarrow> k \<notin> set APPROVED_KEYS" for k
    unfolding map_of_eq_None_iff by (simp add: keys flip: set_map)
  then have get: "dict_get (?kept @ selected) k = (if k \<in> set APPROVED_KEYS then dict_get selected k else dict_get (ed_values destination) k)" for k
    using kept [of _ k] by (auto simp: dict_get_def map_add_def split: option.splits)
  have "distinct (dict_keys (ed_values ?doc))" using parsed by (auto simp: parse_env_Inr)
  moreover have "changed_keys ?doc selected = []"
  proof -
    have "dict_get selected k = Some (source_value selected k)" if "k \<in> set APPROVED_KEYS" for k
    proof -
      have "(k, source_value selected k) \<in> set selected"
        using that selection_pairs [OF sel] by (metis (no_types, lifting) image_eqI set_map)
      then show ?thesis unfolding dict_get_def using approved_distinct by (simp add: keys)
    qed
    then show ?thesis by (simp add: changed_keys_def filter_empty_conv get)
  qed
  moreover have "build_reconciled_content ?content selected = Inr ?content"
    by (simp add: build_reconciled_content_def parsed reconciled_lines_stable [OF sel])
  moreover have "build_reconciled_content destination_text selected = Inr ?content"
    by (simp add: build_reconciled_content_def destination)
  ultimately show ?thesis using parsed get by (intro exI [of _ ?content] exI [of _ ?doc]) simp
qed

definition demo_source :: string where
  "demo_source = join [line_feed] [''AUTH_PUBLIC_LOGIN=true'', ''SMTP_HOST=mail.example.net'', ''SMTP_PORT=587'', ''SMTP_AUTH=on'',
     ''SMTP_USER=mailer'', ''SMTP_PASS=secret'', ''SMTP_FROM=noreply@login.commonthing.net'', []]"

definition demo_destination :: string where
  "demo_destination = join [line_feed] [''DATABASE_HOST=db'', ''SMTP_PORT=25'', []]"

theorem reconciled_content_witness:
  "\<exists>source selected content doc. parse_env ''source'' demo_source = Inr source
    \<and> validate_source (ed_values source) None = Inr selected
    \<and> build_reconciled_content demo_destination selected = Inr content
    \<and> parse_env ''destination'' content = Inr doc
    \<and> dict_get (ed_values doc) ''DATABASE_HOST'' = Some ''db'' \<and> changed_keys doc selected = []"
proof -
  have s: "case parse_env ''source'' demo_source of Inl _ \<Rightarrow> False
      | Inr d \<Rightarrow> (case validate_source (ed_values d) None of Inl _ \<Rightarrow> False | Inr _ \<Rightarrow> True)" by code_simp
  have d: "case parse_env ''destination'' demo_destination of Inl _ \<Rightarrow> False
      | Inr d \<Rightarrow> dict_get (ed_values d) ''DATABASE_HOST'' = Some ''db''" by code_simp
  have k: "''DATABASE_HOST'' \<notin> set APPROVED_KEYS" by code_simp
  from s obtain source selected where s: "parse_env ''source'' demo_source = Inr source"
    "validate_source (ed_values source) None = Inr selected" by (auto split: sum.splits)
  from d obtain destination where d: "parse_env ''destination'' demo_destination = Inr destination"
    "dict_get (ed_values destination) ''DATABASE_HOST'' = Some ''db''" by (auto split: sum.splits)
  from reconciled_content [OF s d(1), of "''destination''"] s d(2) k show ?thesis by metis
qed

end
