(* ===== verification/Env_Reconcile.thy ===== *)
theory Env_Reconcile
  imports Env_Text
begin

text \<open>
  \<open>src/scripts/ops/reconcile_public_login_smtp_env.py\<close>, the files: trusted directories, exclusive writes, the plan
  hash, \<open>reconcile\<close> and \<open>main\<close>.  The file system is a table of nodes, a directory maps names to nodes, and every
  system call may fail or, for a write, stop part of the way, as the schedule \<open>ef_faults\<close> says.  SHA-256, UTF-8, the
  time stamp with the process id, the random token and the wait for the lock are parameters; \<open>rw_others\<close> is what other processes do
  until the lock is held.  Descriptors are node numbers; closing them has no effect.
\<close>

subsection \<open>Files\<close>

type_synonym os_exc = "string \<times> string"

datatype os_fault = Works | Fails os_exc | Stops nat os_exc

datatype file_kind = Directory "(string \<times> nat) list" | Regular string | Symlink | Special

record file_node =
  fn_kind :: file_kind
  fn_dev :: int
  fn_uid :: int
  fn_gid :: int
  fn_mode :: int

record env_fs =
  ef_nodes :: "file_node list"
  ef_euid :: int
  ef_egid :: int
  ef_faults :: "os_fault list"

type_synonym 'a os_run = "env_fs \<Rightarrow> (os_exc + 'a) \<times> env_fs"

definition returnO :: "'a \<Rightarrow> 'a os_run" where
  "returnO x fs = (Inr x, fs)"

definition raiseO :: "os_exc \<Rightarrow> 'a os_run" where
  "raiseO e fs = (Inl e, fs)"

definition guardO :: "bool \<Rightarrow> string \<Rightarrow> unit os_run" where
  "guardO b message fs = (if b then Inr () else Inl (''ReconcileError'', message), fs)"

text \<open>A pure computation that may raise a \<open>ReconcileError\<close>.\<close>

definition liftO :: "string + 'a \<Rightarrow> 'a os_run" where
  "liftO r fs = (case r of Inl message \<Rightarrow> (Inl (''ReconcileError'', message), fs) | Inr x \<Rightarrow> (Inr x, fs))"

definition is_os_exc :: "os_exc \<Rightarrow> bool" where
  "is_os_exc e = (fst e \<noteq> ''ReconcileError'' \<and> fst e \<noteq> ''KeyboardInterrupt'')"

definition pop_fault :: "env_fs \<Rightarrow> os_fault \<times> env_fs" where
  "pop_fault fs = (case ef_faults fs of [] \<Rightarrow> (Works, fs) | f # rest \<Rightarrow> (f, fs\<lparr>ef_faults := rest\<rparr>))"

definition os_call :: "'a os_run \<Rightarrow> 'a os_run" where
  "os_call act fs = (case pop_fault fs of
     (Works, fs') \<Rightarrow> act fs' | (Fails e, fs') \<Rightarrow> (Inl e, fs') | (Stops n e, fs') \<Rightarrow> (Inl e, fs'))"

definition node_at :: "env_fs \<Rightarrow> nat \<Rightarrow> file_node option" where
  "node_at fs i = (if i < length (ef_nodes fs) then Some (ef_nodes fs ! i) else None)"

definition entries_of :: "env_fs \<Rightarrow> nat \<Rightarrow> (string \<times> nat) list" where
  "entries_of fs d = (case node_at fs d of
     Some n \<Rightarrow> (case fn_kind n of Directory es \<Rightarrow> es | _ \<Rightarrow> []) | None \<Rightarrow> [])"

definition entry :: "env_fs \<Rightarrow> nat \<Rightarrow> string \<Rightarrow> nat option" where
  "entry fs d name = dict_get (entries_of fs d) name"

definition is_dir_kind :: "file_kind \<Rightarrow> bool" where
  "is_dir_kind k = (case k of Directory _ \<Rightarrow> True | _ \<Rightarrow> False)"

definition set_entries :: "nat \<Rightarrow> (string \<times> nat) list \<Rightarrow> env_fs \<Rightarrow> env_fs" where
  "set_entries d es fs = (case node_at fs d of
     Some n \<Rightarrow> if is_dir_kind (fn_kind n) then fs\<lparr>ef_nodes := (ef_nodes fs)[d := n\<lparr>fn_kind := Directory es\<rparr>]\<rparr> else fs
   | None \<Rightarrow> fs)"

definition remove_entry :: "string \<Rightarrow> (string \<times> nat) list \<Rightarrow> (string \<times> nat) list" where
  "remove_entry name es = filter (\<lambda>(n, i). n \<noteq> name) es"

subsection \<open>System calls\<close>

definition not_found :: "string \<Rightarrow> os_exc" where
  "not_found name = (''FileNotFoundError'', name)"

definition os_fsync :: "unit os_run" where
  "os_fsync = os_call (returnO ())"

definition os_unlink :: "nat \<Rightarrow> string \<Rightarrow> unit os_run" where
  "os_unlink d name = os_call (\<lambda>fs. case entry fs d name of
     None \<Rightarrow> (Inl (not_found name), fs)
   | Some i \<Rightarrow> (Inr (), set_entries d (remove_entry name (entries_of fs d)) fs))"

definition os_replace :: "nat \<Rightarrow> string \<Rightarrow> string \<Rightarrow> unit os_run" where
  "os_replace d name target = os_call (\<lambda>fs. case entry fs d name of
     None \<Rightarrow> (Inl (not_found name), fs)
   | Some i \<Rightarrow> (Inr (), set_entries d (dict_set (remove_entry name (entries_of fs d)) target i) fs))"

text \<open>\<open>O_DIRECTORY\<close> and \<open>O_NOFOLLOW\<close>: only a directory itself is opened.\<close>

definition open_dir_at :: "nat \<Rightarrow> string \<Rightarrow> nat os_run" where
  "open_dir_at d part = os_call (\<lambda>fs. case entry fs d part of
     None \<Rightarrow> (Inl (not_found part), fs)
   | Some i \<Rightarrow> (case node_at fs i of
       Some n \<Rightarrow> if is_dir_kind (fn_kind n) then (Inr i, fs) else (Inl (''NotADirectoryError'', part), fs)
     | None \<Rightarrow> (Inl (not_found part), fs)))"

text \<open>\<open>O_RDONLY\<close> and \<open>O_NOFOLLOW\<close>: everything but a symbolic link is opened.\<close>

definition open_file_at :: "nat \<Rightarrow> string \<Rightarrow> (nat \<times> file_node) os_run" where
  "open_file_at d name = os_call (\<lambda>fs. case entry fs d name of
     None \<Rightarrow> (Inl (not_found name), fs)
   | Some i \<Rightarrow> (case node_at fs i of
       Some n \<Rightarrow> if fn_kind n = Symlink then (Inl (''OSError'', name), fs) else (Inr (i, n), fs)
     | None \<Rightarrow> (Inl (not_found name), fs)))"

text \<open>\<open>O_CREAT\<close>: a new empty file of the process, with mode 0600.\<close>

definition new_file :: "nat \<Rightarrow> string \<Rightarrow> env_fs \<Rightarrow> nat \<times> env_fs" where
  "new_file d name fs =
     (let i = length (ef_nodes fs);
          dev = (case node_at fs d of Some n \<Rightarrow> fn_dev n | None \<Rightarrow> 0);
          node = \<lparr>fn_kind = Regular [], fn_dev = dev, fn_uid = ef_euid fs, fn_gid = ef_egid fs, fn_mode = 384\<rparr>
      in (i, set_entries d (dict_set (entries_of fs d) name i) (fs\<lparr>ef_nodes := ef_nodes fs @ [node]\<rparr>)))"

definition create_exclusive :: "nat \<Rightarrow> string \<Rightarrow> nat os_run" where
  "create_exclusive d name = os_call (\<lambda>fs. case entry fs d name of
     Some _ \<Rightarrow> (Inl (''FileExistsError'', name), fs)
   | None \<Rightarrow> (case new_file d name fs of (i, fs') \<Rightarrow> (Inr i, fs')))"

definition update_node :: "nat \<Rightarrow> (file_node \<Rightarrow> file_node) \<Rightarrow> env_fs \<Rightarrow> env_fs" where
  "update_node i f fs = (if i < length (ef_nodes fs) then fs\<lparr>ef_nodes := (ef_nodes fs)[i := f (ef_nodes fs ! i)]\<rparr> else fs)"

definition os_write :: "nat \<Rightarrow> string \<Rightarrow> unit os_run" where
  "os_write i content fs = (case pop_fault fs of
     (Works, fs') \<Rightarrow> (Inr (), update_node i (fn_kind_update (\<lambda>_. Regular content)) fs')
   | (Fails e, fs') \<Rightarrow> (Inl e, fs')
   | (Stops n e, fs') \<Rightarrow> (Inl e, update_node i (fn_kind_update (\<lambda>_. Regular (take n content))) fs'))"

definition os_fchown :: "nat \<Rightarrow> int \<Rightarrow> int \<Rightarrow> unit os_run" where
  "os_fchown i uid gid = os_call (\<lambda>fs. (Inr (), update_node i (\<lambda>n. n\<lparr>fn_uid := uid, fn_gid := gid\<rparr>) fs))"

definition os_fchmod :: "nat \<Rightarrow> int \<Rightarrow> unit os_run" where
  "os_fchmod i mode = os_call (\<lambda>fs. (Inr (), update_node i (\<lambda>n. n\<lparr>fn_mode := mode\<rparr>) fs))"

subsection \<open>Stat and trust\<close>

record file_stat =
  st_dev :: int
  st_ino :: int
  st_uid :: int
  st_gid :: int
  st_mode :: int

definition stat_of :: "nat \<Rightarrow> file_node \<Rightarrow> file_stat" where
  "stat_of i n = \<lparr>st_dev = fn_dev n, st_ino = int i, st_uid = fn_uid n, st_gid = fn_gid n, st_mode = fn_mode n\<rparr>"

definition dir_stat :: "nat \<Rightarrow> env_fs \<Rightarrow> file_stat" where
  "dir_stat d fs = (case node_at fs d of Some n \<Rightarrow> stat_of d n
     | None \<Rightarrow> \<lparr>st_dev = 0, st_ino = 0, st_uid = 0, st_gid = 0, st_mode = 0\<rparr>)"

definition same_file :: "file_stat \<Rightarrow> file_stat \<Rightarrow> bool" where
  "same_file left right = (st_dev left = st_dev right \<and> st_ino left = st_ino right)"

text \<open>Write permission of the group is 0020, of others 0002.\<close>

definition validate_root_owned_stat :: "string \<Rightarrow> file_stat \<Rightarrow> unit os_run" where
  "validate_root_owned_stat label st =
     bindSE (guardO (st_uid st = 0) (label @ '' must be root-owned'')) (\<lambda>_.
       guardO (\<not> (odd (st_mode st div 16) \<or> odd (st_mode st div 2))) (label @ '' must not be writable by group or others''))"

record env_path =
  ep_absolute :: bool
  ep_parts :: "string list"

definition path_text :: "env_path \<Rightarrow> string" where
  "path_text p = (if ep_absolute p then slash # join [slash] (ep_parts p) else join [slash] (ep_parts p))"

definition path_name :: "env_path \<Rightarrow> string" where
  "path_name p = (if ep_parts p = [] then [] else last (ep_parts p))"

definition path_parent :: "env_path \<Rightarrow> env_path" where
  "path_parent p = p\<lparr>ep_parts := butlast (ep_parts p)\<rparr>"

definition normalize_absolute_path :: "string \<Rightarrow> env_path \<Rightarrow> unit os_run" where
  "normalize_absolute_path label p =
     bindSE (guardO (ep_absolute p) (label @ '' path must be absolute'')) (\<lambda>_.
       guardO (list_all (\<lambda>part. part \<notin> {''.'', ''..''}) (ep_parts p)) (label @ '' path must be normalized''))"

definition check_owner :: "bool \<Rightarrow> string \<Rightarrow> nat \<Rightarrow> unit os_run" where
  "check_owner require_root label d fs =
     (if require_root then validate_root_owned_stat label (dir_stat d fs) fs else (Inr (), fs))"

text \<open>An \<open>OSError\<close> of the call becomes a \<open>ReconcileError\<close>.\<close>

definition wrapO :: "string \<Rightarrow> 'a os_run \<Rightarrow> 'a os_run" where
  "wrapO message m fs = (case m fs of
     (Inl e, fs') \<Rightarrow> (Inl (if is_os_exc e then (''ReconcileError'', message) else e), fs')
   | r \<Rightarrow> r)"

fun walk_trusted :: "string \<Rightarrow> string \<Rightarrow> bool \<Rightarrow> nat \<Rightarrow> string list \<Rightarrow> nat os_run" where
  "walk_trusted label shown require_root d [] = returnO d"
| "walk_trusted label shown require_root d (part # parts) =
     bindSE (wrapO (''unable to open '' @ label @ '' safely: '' @ shown) (open_dir_at d part)) (\<lambda>d'.
     bindSE (check_owner require_root label d') (\<lambda>_. walk_trusted label shown require_root d' parts))"

text \<open>The mode in four octal digits.\<close>

definition octal4 :: "int \<Rightarrow> string" where
  "octal4 m = map (\<lambda>k. char_of (nat (48 + (m div k) mod 8))) [512, 64, 8, 1]"

definition open_trusted_directory :: "string \<Rightarrow> bool \<Rightarrow> int option \<Rightarrow> env_path \<Rightarrow> nat os_run" where
  "open_trusted_directory label require_root exact_mode p =
     bindSE (normalize_absolute_path label p) (\<lambda>_.
     bindSE (os_call (returnO 0)) (\<lambda>top_dir.
     bindSE (check_owner require_root ''filesystem root'' top_dir) (\<lambda>_.
     bindSE (walk_trusted label (path_text p) require_root top_dir (ep_parts p)) (\<lambda>d fs.
       (case exact_mode of
          None \<Rightarrow> (Inr d, fs)
        | Some mode \<Rightarrow> if st_mode (dir_stat d fs) = mode then (Inr d, fs)
            else (Inl (''ReconcileError'', label @ '' must have mode '' @ octal4 mode), fs))))))"

subsection \<open>Reading and writing files\<close>

record opened_env =
  oe_raw :: string
  oe_text :: string
  oe_stat :: file_stat

record reconcile_world =
  rw_sha256 :: "string \<Rightarrow> string"
  rw_decode :: "string \<Rightarrow> string option"
  rw_encode :: "string \<Rightarrow> string"
  rw_stamp :: string
  rw_token :: string
  rw_lock :: "os_exc + unit"
  rw_others :: "env_fs \<Rightarrow> env_fs"

definition read_regular_at :: "reconcile_world \<Rightarrow> bool \<Rightarrow> string \<Rightarrow> nat \<Rightarrow> string \<Rightarrow> opened_env os_run" where
  "read_regular_at w require_root label d name =
     bindSE (guardO (name \<noteq> [] \<and> slash \<notin> set name \<and> name \<notin> {''.'', ''..''}) (''invalid '' @ label @ '' filename'')) (\<lambda>_.
     bindSE (wrapO (''unable to open '' @ label @ '' safely'') (open_file_at d name)) (\<lambda>(i, n).
     case fn_kind n of
       Regular raw \<Rightarrow>
         bindSE (if require_root then validate_root_owned_stat label (stat_of i n) else returnO ()) (\<lambda>_.
         bindSE (os_call (returnO ())) (\<lambda>_.
         case rw_decode w raw of
           None \<Rightarrow> raiseO (''ReconcileError'', label @ '' is not valid UTF-8'')
         | Some decoded \<Rightarrow> returnO \<lparr>oe_raw = raw, oe_text = decoded, oe_stat = stat_of i n\<rparr>))
     | _ \<Rightarrow> raiseO (''ReconcileError'', label @ '' is not a regular file'')))"

text \<open>\<open>except BaseException\<close> with a clean-up of its own: the clean-up's failure replaces the exception, a missing file apart.\<close>

definition on_failure :: "'a os_run \<Rightarrow> unit os_run \<Rightarrow> 'a os_run" where
  "on_failure m cleanup fs = (case m fs of
     (Inl e, fs') \<Rightarrow> (case cleanup fs' of
        (Inl e', fs'') \<Rightarrow> (Inl (if fst e' = ''FileNotFoundError'' then e else e'), fs'')
      | (Inr _, fs'') \<Rightarrow> (Inl e, fs''))
   | r \<Rightarrow> r)"

definition unlink_synced :: "nat \<Rightarrow> string \<Rightarrow> unit os_run" where
  "unlink_synced d name = bindSE (os_unlink d name) (\<lambda>_. os_fsync)"

definition write_file_exclusive_at :: "nat \<Rightarrow> string \<Rightarrow> string \<Rightarrow> int \<Rightarrow> int \<Rightarrow> unit os_run" where
  "write_file_exclusive_at d name content uid gid =
     bindSE (create_exclusive d name) (\<lambda>i.
       on_failure
         (bindSE (os_write i content) (\<lambda>_.
          bindSE (os_fchown i uid gid) (\<lambda>_.
          bindSE (os_fchmod i 384) (\<lambda>_. os_fsync))))
         (unlink_synced d name))"

definition is_orphan :: "int \<Rightarrow> int \<Rightarrow> file_node \<Rightarrow> bool" where
  "is_orphan uid gid n =
     ((case fn_kind n of Regular _ \<Rightarrow> True | _ \<Rightarrow> False) \<and> fn_uid n = uid \<and> fn_gid n = gid \<and> fn_mode n = 384)"

fun cleanup_names :: "nat \<Rightarrow> string \<Rightarrow> int \<Rightarrow> int \<Rightarrow> string list \<Rightarrow> unit os_run" where
  "cleanup_names d stem uid gid [] fs = (Inr (), fs)"
| "cleanup_names d stem uid gid (name # names) fs =
     (if \<not> starts_with stem name then cleanup_names d stem uid gid names fs
      else (case open_file_at d name fs of
          (Inl e, fs') \<Rightarrow> if is_os_exc e then cleanup_names d stem uid gid names fs' else (Inl e, fs')
        | (Inr (i, n), fs') \<Rightarrow>
            bindSE (if is_orphan uid gid n then os_unlink d name else returnO ()) (\<lambda>_. cleanup_names d stem uid gid names) fs'))"

definition cleanup_orphan_temps :: "nat \<Rightarrow> string \<Rightarrow> int \<Rightarrow> int \<Rightarrow> unit os_run" where
  "cleanup_orphan_temps d stem uid gid =
     bindSE (os_call (\<lambda>fs. (Inr (dict_keys (entries_of fs d)), fs))) (\<lambda>names.
     bindSE (cleanup_names d stem uid gid names) (\<lambda>_. os_fsync))"

subsection \<open>The wait for the lock\<close>

text \<open>
  \<open>lw_busy k\<close>: another process holds the lock at try \<open>k\<close>; \<open>lw_clock k\<close>: the monotonic clock before the first try for
  0, and after try \<open>k - 1\<close> otherwise, in microseconds.  The sleep between the tries is in the clock.
\<close>

record lock_world =
  lw_busy :: "nat \<Rightarrow> bool"
  lw_clock :: "nat \<Rightarrow> int"

definition LOCK_TIMEOUT :: int where
  "LOCK_TIMEOUT = 15000000"

partial_function (option) lock_tries :: "lock_world \<Rightarrow> int \<Rightarrow> nat \<Rightarrow> (os_exc + unit) option" where
  "lock_tries lw deadline k =
     (if \<not> lw_busy lw k then Some (Inr ())
      else if deadline - lw_clock lw (k + 1) \<le> 0 then Some (Inl (''ReconcileError'', ''timed out waiting for reconciliation lock''))
      else lock_tries lw deadline (k + 1))"

definition acquire_exclusive_lock :: "lock_world \<Rightarrow> (os_exc + unit) option" where
  "acquire_exclusive_lock lw = lock_tries lw (lw_clock lw 0 + LOCK_TIMEOUT) 0"

subsection \<open>The plan\<close>

definition PLAN_DOMAIN :: string where
  "PLAN_DOMAIN = ''weltgewebe-public-login-smtp-env-plan-v2'' @ [CHR 0x00]"

fun be_bytes :: "nat \<Rightarrow> nat \<Rightarrow> string" where
  "be_bytes 0 n = []"
| "be_bytes (Suc k) n = be_bytes k (n div 256) @ [char_of (n mod 256)]"

definition plan_field :: "string \<times> string \<Rightarrow> string" where
  "plan_field f = be_bytes 4 (length (fst f)) @ fst f @ be_bytes 8 (length (snd f)) @ snd f"

definition stat_plan_fields :: "string \<Rightarrow> file_stat \<Rightarrow> (string \<times> string) list" where
  "stat_plan_fields stem st = map (\<lambda>(name, v). (stem @ ''_'' @ name, str_int v))
     [(''device'', st_dev st), (''inode'', st_ino st), (''uid'', st_uid st), (''gid'', st_gid st), (''mode'', st_mode st)]"

record recon_args =
  ra_source :: env_path
  ra_destination :: env_path
  ra_backup :: env_path
  ra_apply :: bool
  ra_expected :: "string option"
  ra_override :: "string option"
  ra_require_root :: bool

definition plan_fields :: "reconcile_world \<Rightarrow> recon_args \<Rightarrow> file_stat \<Rightarrow> opened_env \<Rightarrow> opened_env \<Rightarrow> string \<Rightarrow> (string \<times> string) list" where
  "plan_fields w args backup_stat source destination content =
     [(''source_path'', rw_encode w (path_text (ra_source args))),
      (''destination_path'', rw_encode w (path_text (ra_destination args))),
      (''backup_dir'', rw_encode w (path_text (ra_backup args))),
      (''source_text'', rw_encode w (oe_text source)), (''destination_text'', rw_encode w (oe_text destination)),
      (''planned_content'', rw_encode w content)]
     @ stat_plan_fields ''source'' (oe_stat source) @ stat_plan_fields ''destination'' (oe_stat destination)
     @ stat_plan_fields ''backup_dir'' backup_stat"

definition plan_sha256 :: "reconcile_world \<Rightarrow> recon_args \<Rightarrow> file_stat \<Rightarrow> opened_env \<Rightarrow> opened_env \<Rightarrow> string \<Rightarrow> string" where
  "plan_sha256 w args backup_stat source destination content =
     rw_sha256 w (PLAN_DOMAIN @ concat (map plan_field (plan_fields w args backup_stat source destination content)))"

definition is_plan_sha256 :: "string \<Rightarrow> bool" where
  "is_plan_sha256 s = (length s = 64 \<and> list_all is_lower_hex s)"

definition validate_expected_plan :: "string option \<Rightarrow> string + string" where
  "validate_expected_plan expected = (case expected of
     None \<Rightarrow> Inl ''--apply requires --expected-plan-sha256 from dry-run''
   | Some s \<Rightarrow> let normalized = lower (strip s) in
       if is_plan_sha256 normalized then Inr normalized else Inl ''expected plan SHA-256 is invalid'')"

text \<open>What the two texts lead to: the content, the plan hash and the changed keys.\<close>

record recon_plan =
  rp_content :: string
  rp_hash :: string
  rp_changed :: "string list"

definition plan_of :: "reconcile_world \<Rightarrow> recon_args \<Rightarrow> file_stat \<Rightarrow> opened_env \<Rightarrow> opened_env \<Rightarrow> string + recon_plan" where
  "plan_of w args backup_stat source destination =
     bindE (parse_env ''source'' (oe_text source)) (\<lambda>source_document.
     bindE (validate_source (ed_values source_document) (ra_override args)) (\<lambda>selected.
     bindE (parse_env ''destination'' (oe_text destination)) (\<lambda>destination_document.
     bindE (build_reconciled_content (oe_text destination) selected) (\<lambda>content.
       Inr \<lparr>rp_content = content, rp_hash = plan_sha256 w args backup_stat source destination content,
            rp_changed = changed_keys destination_document selected\<rparr>))))"

subsection \<open>Applying a plan\<close>

definition lock_name :: "string \<Rightarrow> string" where
  "lock_name name = ''.'' @ name @ ''.reconcile.lock''"

definition open_lock :: "nat \<Rightarrow> string \<Rightarrow> nat os_run" where
  "open_lock d name = os_call (\<lambda>fs. case entry fs d name of
     None \<Rightarrow> (case new_file d name fs of (i, fs') \<Rightarrow> (Inr i, fs'))
   | Some i \<Rightarrow> (case node_at fs i of
       Some n \<Rightarrow> if fn_kind n = Symlink \<or> is_dir_kind (fn_kind n) then (Inl (''OSError'', name), fs) else (Inr i, fs)
     | None \<Rightarrow> (Inl (not_found name), fs)))"

definition check_lock :: "bool \<Rightarrow> nat \<Rightarrow> unit os_run" where
  "check_lock require_root i fs = (case node_at fs i of
     Some n \<Rightarrow> (case fn_kind n of
         Regular _ \<Rightarrow> if require_root then validate_root_owned_stat ''reconciliation lock'' (stat_of i n) fs else (Inr (), fs)
       | _ \<Rightarrow> (Inl (''ReconcileError'', ''reconciliation lock is not a regular file''), fs))
   | None \<Rightarrow> (Inl (not_found ''lock''), fs))"

text \<open>The lock file is opened, other processes run until the lock is held, and the wait ends.\<close>

definition take_lock :: "reconcile_world \<Rightarrow> bool \<Rightarrow> nat \<Rightarrow> string \<Rightarrow> unit os_run" where
  "take_lock w require_root d name =
     bindSE (open_lock d (lock_name name)) (\<lambda>i.
     bindSE (check_lock require_root i) (\<lambda>_ fs. (rw_lock w, rw_others w fs)))"

text \<open>The inputs under the lock must be the ones the plan was made of.\<close>

definition unchanged_inputs :: "opened_env \<Rightarrow> opened_env \<Rightarrow> opened_env \<Rightarrow> opened_env \<Rightarrow> unit os_run" where
  "unchanged_inputs source destination source' destination' =
     bindSE (guardO (same_file (oe_stat source) (oe_stat source')) ''source file identity changed during reconciliation'') (\<lambda>_.
     bindSE (guardO (same_file (oe_stat destination) (oe_stat destination')) ''destination file identity changed during reconciliation'') (\<lambda>_.
     bindSE (guardO (\<not> same_file (oe_stat source') (oe_stat destination')) ''source and destination must be different files'') (\<lambda>_.
     bindSE (guardO (oe_text source = oe_text source') ''source content changed during reconciliation'') (\<lambda>_.
       guardO (oe_text destination = oe_text destination') ''destination content changed during reconciliation''))))"

definition backup_name :: "reconcile_world \<Rightarrow> string \<Rightarrow> string" where
  "backup_name w name = name @ ''.bak-'' @ rw_stamp w"

definition write_backup :: "reconcile_world \<Rightarrow> bool \<Rightarrow> nat \<Rightarrow> string \<Rightarrow> opened_env \<Rightarrow> unit os_run" where
  "write_backup w require_root d name destination =
     (let st = oe_stat destination in
      bindSE (write_file_exclusive_at d name (oe_raw destination) (st_uid st) (st_gid st)) (\<lambda>_.
      bindSE os_fsync (\<lambda>_.
        on_failure
          (bindSE (read_regular_at w require_root ''backup'' d name) (\<lambda>backup.
             guardO (oe_raw backup = oe_raw destination \<and> st_uid (oe_stat backup) = st_uid st
                     \<and> st_gid (oe_stat backup) = st_gid st \<and> st_mode (oe_stat backup) = 384)
               ''backup verification failed before destination replace''))
          (unlink_synced d name))))"

definition temp_stem :: "string \<Rightarrow> string" where
  "temp_stem name = ''.'' @ name @ ''.reconcile-''"

text \<open>\<open>try ... finally\<close>: the temporary file is removed when the replacement failed.\<close>

definition or_unlink :: "nat \<Rightarrow> string \<Rightarrow> unit os_run \<Rightarrow> unit os_run" where
  "or_unlink d name m fs = (case m fs of
     (Inl e, fs') \<Rightarrow> (case os_unlink d name fs' of (Inl e', fs'') \<Rightarrow> (Inl e', fs'') | (Inr _, fs'') \<Rightarrow> (Inl e, fs''))
   | r \<Rightarrow> r)"

definition install_content :: "nat \<Rightarrow> string \<Rightarrow> string \<Rightarrow> string \<Rightarrow> file_stat \<Rightarrow> unit os_run" where
  "install_content d temp name content st =
     bindSE (write_file_exclusive_at d temp content (st_uid st) (st_gid st)) (\<lambda>_.
     bindSE (or_unlink d temp (os_replace d temp name)) (\<lambda>_. os_fsync))"

definition base_result :: "recon_args \<Rightarrow> recon_plan \<Rightarrow> dict" where
  "base_result args plan =
     [(''destination'', JStr (path_text (ra_destination args))), (''updated_keys'', JList (map JStr (rp_changed plan))),
      (''values_redacted'', JBool True), (''plan_sha256'', JStr (rp_hash plan))]"

definition applied_result :: "reconcile_world \<Rightarrow> recon_args \<Rightarrow> recon_plan \<Rightarrow> file_stat \<Rightarrow> dict" where
  "applied_result w args plan st = base_result args plan @
     [(''status'', JStr ''reconciled''), (''applied'', JBool True),
      (''backup'', JStr (path_text ((ra_backup args)\<lparr>ep_parts := ep_parts (ra_backup args) @ [backup_name w (path_name (ra_destination args))]\<rparr>))),
      (''mode'', JStr (octal4 (st_mode st))), (''owner_uid'', JInt (st_uid st)), (''owner_gid'', JInt (st_gid st))]"

definition write_locked :: "reconcile_world \<Rightarrow> recon_args \<Rightarrow> nat \<Rightarrow> nat \<Rightarrow> opened_env \<Rightarrow> recon_plan \<Rightarrow> dict os_run" where
  "write_locked w args dd bd destination locked =
     (let require_root = ra_require_root args; name = path_name (ra_destination args) in
      bindSE (write_backup w require_root bd (backup_name w name) destination) (\<lambda>_.
      bindSE (cleanup_orphan_temps dd (temp_stem name) (st_uid (oe_stat destination)) (st_gid (oe_stat destination))) (\<lambda>_.
      bindSE (install_content dd (temp_stem name @ rw_token w) name (rw_encode w (rp_content locked)) (oe_stat destination)) (\<lambda>_.
      bindSE (read_regular_at w require_root ''destination'' dd name) (\<lambda>final.
      bindSE (guardO (oe_text final = rp_content locked) ''destination verification failed after atomic replace'') (\<lambda>_.
        returnO (applied_result w args locked (oe_stat final))))))))"

text \<open>Everything under the lock; \<open>source\<close> and \<open>destination\<close> are what the plan was made of.\<close>

definition apply_locked ::
  "reconcile_world \<Rightarrow> recon_args \<Rightarrow> nat \<Rightarrow> nat \<Rightarrow> nat \<Rightarrow> opened_env \<Rightarrow> opened_env \<Rightarrow> recon_plan \<Rightarrow> string \<Rightarrow> dict os_run" where
  "apply_locked w args sd dd bd source destination plan expected =
     (let require_root = ra_require_root args; name = path_name (ra_destination args) in
      bindSE (read_regular_at w require_root ''source'' sd (path_name (ra_source args))) (\<lambda>source'.
      bindSE (read_regular_at w require_root ''destination'' dd name) (\<lambda>destination'.
      bindSE (unchanged_inputs source destination source' destination') (\<lambda>_.
      bindSE (\<lambda>fs. liftO (plan_of w args (dir_stat bd fs) source' destination') fs) (\<lambda>locked.
      bindSE (guardO (rp_hash locked = rp_hash plan) ''reconciliation plan changed after lock'') (\<lambda>_.
      bindSE (guardO (expected = rp_hash locked) ''expected plan SHA-256 changed after lock'') (\<lambda>_.
        write_locked w args dd bd destination' locked)))))))"

subsection \<open>The whole command\<close>

definition reconcile_env :: "reconcile_world \<Rightarrow> recon_args \<Rightarrow> dict os_run" where
  "reconcile_env w args =
     (let require_root = ra_require_root args; name = path_name (ra_destination args) in
      bindSE (normalize_absolute_path ''source'' (ra_source args)) (\<lambda>_.
      bindSE (normalize_absolute_path ''destination'' (ra_destination args)) (\<lambda>_.
      bindSE (normalize_absolute_path ''backup directory'' (ra_backup args)) (\<lambda>_.
      bindSE (guardO (path_name (ra_source args) \<noteq> [] \<and> name \<noteq> []) ''source and destination must name regular files'') (\<lambda>_.
      bindSE (\<lambda>fs. guardO (require_root \<longrightarrow> ef_euid fs = 0) ''dry-run and apply require root'' fs) (\<lambda>_.
      bindSE (open_trusted_directory ''source parent directory'' require_root None (path_parent (ra_source args))) (\<lambda>sd.
      bindSE (open_trusted_directory ''destination parent directory'' require_root None (path_parent (ra_destination args))) (\<lambda>dd.
      bindSE (read_regular_at w require_root ''source'' sd (path_name (ra_source args))) (\<lambda>source.
      bindSE (read_regular_at w require_root ''destination'' dd name) (\<lambda>destination.
      bindSE (guardO (\<not> same_file (oe_stat source) (oe_stat destination)) ''source and destination must be different files'') (\<lambda>_.
      bindSE (open_trusted_directory ''backup directory'' require_root (Some 448) (ra_backup args)) (\<lambda>bd.
      bindSE (\<lambda>fs. liftO (plan_of w args (dir_stat bd fs) source destination) fs) (\<lambda>plan.
      bindSE (if ra_apply args then liftO (validate_expected_plan (ra_expected args)) else returnO []) (\<lambda>expected.
      bindSE (guardO (ra_apply args \<longrightarrow> expected = rp_hash plan) ''expected plan SHA-256 does not match current inputs'') (\<lambda>_.
        if rp_content plan = oe_text destination
        then returnO (base_result args plan @ [(''status'', JStr ''already_reconciled''), (''applied'', JBool False)])
        else if \<not> ra_apply args
        then returnO (base_result args plan @ [(''status'', JStr ''planned''), (''applied'', JBool False)])
        else bindSE (take_lock w require_root dd name) (\<lambda>_.
               apply_locked w args sd dd bd source destination plan expected))))))))))))))))"

text \<open>
  The exit code, or None when the wait for the lock never ends; an exception other than \<open>OSError\<close> and
  \<open>ReconcileError\<close> leaves the command.
\<close>

definition reconcile_main :: "reconcile_world \<Rightarrow> lock_world \<Rightarrow> recon_args \<Rightarrow> env_fs \<Rightarrow> ((os_exc + int) \<times> env_fs) option" where
  "reconcile_main w lw args fs = (case acquire_exclusive_lock lw of
     None \<Rightarrow> None
   | Some lock \<Rightarrow> (case reconcile_env (w\<lparr>rw_lock := lock\<rparr>) (args\<lparr>ra_require_root := True\<rparr>) fs of
       (Inr _, fs') \<Rightarrow> Some (Inr 0, fs')
     | (Inl e, fs') \<Rightarrow> Some (if is_os_exc e \<or> fst e = ''ReconcileError'' then Inr 2 else Inl e, fs')))"

end
