(* ===== verification/Env_Safety.thy ===== *)
theory Env_Safety
  imports Env_Reconcile
begin

text \<open>
  What \<open>reconcile_public_login_smtp_env.py\<close> guarantees of the files.  Each system call changes directory entries and
  files it created itself (\<open>fs_frame\<close>), the calls before the lock change nothing (\<open>quiet\<close>), and the phases compose under
  every schedule of failing calls: an existing file is never modified, the destination is replaced as a whole after its
  backup is on disk, nothing is written without the expected plan, the plan hash binds its inputs, and the wait for the
  lock ends.
\<close>

subsection \<open>What a step may change\<close>

text \<open>
  \<open>fs_frame N fs fs'\<close>: no file of \<open>fs\<close> is modified, only directory entries with a name in \<open>N\<close> change, and directories
  stay directories.
\<close>

definition same_node :: "file_node \<Rightarrow> file_node \<Rightarrow> bool" where
  "same_node a b = (if is_dir_kind (fn_kind a) then is_dir_kind (fn_kind b) else b = a)"

definition fs_frame :: "string set \<Rightarrow> env_fs \<Rightarrow> env_fs \<Rightarrow> bool" where
  "fs_frame N fs fs' = (length (ef_nodes fs) \<le> length (ef_nodes fs')
     \<and> (\<forall>i < length (ef_nodes fs). same_node (ef_nodes fs ! i) (ef_nodes fs' ! i))
     \<and> (\<forall>d n. n \<notin> N \<longrightarrow> entry fs' d n = entry fs d n))"

lemma same_node_refl [simp]: "same_node n n"
  by (simp add: same_node_def)

lemma fs_frame_refl [simp]: "fs_frame N fs fs"
  by (simp add: fs_frame_def)

lemma fs_frame_trans: "fs_frame N a b \<Longrightarrow> fs_frame M b c \<Longrightarrow> fs_frame (N \<union> M) a c"
  unfolding fs_frame_def same_node_def by (smt (verit) Un_iff order_trans order_less_le_trans)

lemma fs_frame_mono: "fs_frame N a b \<Longrightarrow> N \<subseteq> M \<Longrightarrow> fs_frame M a b"
  unfolding fs_frame_def by blast

lemma fs_frame_same: "fs_frame N a b \<Longrightarrow> fs_frame N b c \<Longrightarrow> fs_frame N a c"
  using fs_frame_trans [of N a b N c] by simp

lemma entry_nodes: "ef_nodes fs' = ef_nodes fs \<Longrightarrow> entry fs' = entry fs"
  by (intro ext) (simp add: entry_def entries_of_def node_at_def)

lemma node_nodes: "ef_nodes fs' = ef_nodes fs \<Longrightarrow> node_at fs' = node_at fs"
  by (intro ext) (simp add: node_at_def)

lemma fs_frame_nodes: "ef_nodes fs' = ef_nodes fs \<Longrightarrow> fs_frame N fs fs'"
  using entry_nodes [of fs' fs] by (simp add: fs_frame_def)

lemma fs_frame_node: "fs_frame N fs fs' \<Longrightarrow> node_at fs i = Some n \<Longrightarrow> \<not> is_dir_kind (fn_kind n) \<Longrightarrow> node_at fs' i = Some n"
  unfolding fs_frame_def node_at_def same_node_def by (auto split: if_splits)

lemma entry_dir:
  assumes "entry fs d n = Some i"
  obtains m where "node_at fs d = Some m" "is_dir_kind (fn_kind m)"
  using assms by (auto simp: entry_def entries_of_def dict_get_def is_dir_kind_def split: option.splits file_kind.splits)

definition is_dir :: "env_fs \<Rightarrow> nat \<Rightarrow> bool" where
  "is_dir fs d = (case node_at fs d of Some n \<Rightarrow> is_dir_kind (fn_kind n) | None \<Rightarrow> False)"

lemma entry_is_dir: "entry fs d n = Some i \<Longrightarrow> is_dir fs d"
  by (elim entry_dir) (simp add: is_dir_def)

lemma fs_frame_dir: "fs_frame N fs fs' \<Longrightarrow> is_dir fs d \<Longrightarrow> is_dir fs' d"
  unfolding fs_frame_def is_dir_def node_at_def same_node_def by (auto split: if_splits option.splits)

lemma pop_fault_nodes: "pop_fault fs = (f, fs') \<Longrightarrow> ef_nodes fs' = ef_nodes fs"
  by (auto simp: pop_fault_def split: list.splits)

lemma os_call_run:
  assumes "os_call act fs = (r, fs')"
  obtains e where "r = Inl e" "ef_nodes fs' = ef_nodes fs"
    | fs1 where "ef_nodes fs1 = ef_nodes fs" "act fs1 = (r, fs')"
proof -
  obtain f fs1 where f: "pop_fault fs = (f, fs1)" by fastforce
  note n = pop_fault_nodes [OF f]
  show thesis
  proof (cases f)
    case Works
    with assms f have "act fs1 = (r, fs')" by (simp add: os_call_def)
    with n show thesis by (rule that(2))
  qed (use assms f n that(1) in \<open>auto simp: os_call_def\<close>)
qed

lemma entries_of_set: "entries_of (set_entries d es fs) d' = (if d' = d \<and> is_dir fs d then es else entries_of fs d')"
  by (auto simp: entries_of_def set_entries_def node_at_def is_dir_def nth_list_update split: file_kind.splits option.splits)

lemma set_entries_frame:
  assumes "\<And>n. n \<notin> N \<Longrightarrow> dict_get es n = dict_get (entries_of fs d) n"
  shows "fs_frame N fs (set_entries d es fs)"
proof -
  have "same_node (ef_nodes fs ! i) (ef_nodes (set_entries d es fs) ! i)" for i
    by (auto simp: set_entries_def same_node_def node_at_def nth_list_update is_dir_kind_def split: option.splits file_kind.splits)
  moreover have "length (ef_nodes (set_entries d es fs)) = length (ef_nodes fs)"
    by (simp add: set_entries_def split: option.splits)
  ultimately show ?thesis using assms by (auto simp: fs_frame_def entry_def entries_of_set)
qed

lemma remove_entry_get: "dict_get (remove_entry name es) n = (if n = name then None else dict_get es n)"
  unfolding dict_get_def remove_entry_def by (induction es) auto

lemma fsync_frame: "os_fsync fs = (r, fs') \<Longrightarrow> ef_nodes fs' = ef_nodes fs"
  unfolding os_fsync_def by (elim os_call_run) (auto simp: returnO_def)

lemma unlink_frame: "os_unlink d name fs = (r, fs') \<Longrightarrow> fs_frame {name} fs fs'"
  unfolding os_unlink_def
proof (elim os_call_run)
  fix fs1 assume f: "ef_nodes fs1 = ef_nodes fs"
    and run: "(case entry fs1 d name of None \<Rightarrow> (Inl (not_found name), fs1)
     | Some i \<Rightarrow> (Inr (), set_entries d (remove_entry name (entries_of fs1 d)) fs1)) = (r, fs')"
  have "fs_frame {name} fs1 (set_entries d (remove_entry name (entries_of fs1 d)) fs1)"
    by (rule set_entries_frame) (simp add: remove_entry_get)
  with run have "fs_frame {name} fs1 fs'" by (auto split: option.splits)
  with fs_frame_nodes [OF f] show "fs_frame {name} fs fs'" by (rule fs_frame_same)
qed (simp add: fs_frame_nodes)

lemma unlink_synced_frame: "unlink_synced d name fs = (r, fs') \<Longrightarrow> fs_frame {name} fs fs'"
proof -
  assume run: "unlink_synced d name fs = (r, fs')"
  obtain q fs1 where q: "os_unlink d name fs = (q, fs1)" by fastforce
  have "fs' = fs1 \<or> (\<exists>p. os_fsync fs1 = (p, fs'))"
    using run q by (auto simp: unlink_synced_def bindSE_def split: sum.splits)
  then have "ef_nodes fs' = ef_nodes fs1" using fsync_frame by auto
  with unlink_frame [OF q] fs_frame_nodes [of fs' fs1] show ?thesis by (blast intro: fs_frame_same)
qed

lemma replace_run:
  assumes "os_replace d name target fs = (r, fs')"
  shows "fs_frame {name, target} fs fs'
    \<and> (case r of Inl _ \<Rightarrow> ef_nodes fs' = ef_nodes fs | Inr _ \<Rightarrow> entry fs d name \<noteq> None \<and> entry fs' d target = entry fs d name)"
  using assms unfolding os_replace_def
proof (elim os_call_run)
  fix fs1 assume f: "ef_nodes fs1 = ef_nodes fs"
    and run: "(case entry fs1 d name of None \<Rightarrow> (Inl (not_found name), fs1)
     | Some i \<Rightarrow> (Inr (), set_entries d (dict_set (remove_entry name (entries_of fs1 d)) target i) fs1)) = (r, fs')"
  show ?thesis
  proof (cases "entry fs1 d name")
    case None
    with run f show ?thesis by (auto simp: fs_frame_nodes)
  next
    case (Some i)
    let ?es = "dict_set (remove_entry name (entries_of fs1 d)) target i"
    have "fs_frame {name, target} fs1 (set_entries d ?es fs1)"
      by (rule set_entries_frame) (simp add: remove_entry_get dict_set_get)
    moreover have "entry (set_entries d ?es fs1) d target = Some i"
      using entry_is_dir [OF Some] by (simp add: entry_def entries_of_set dict_set_get)
    ultimately show ?thesis using run Some fs_frame_same [OF fs_frame_nodes [OF f]] entry_nodes [OF f] by auto
  qed
qed (simp add: fs_frame_nodes)

lemma new_file_run:
  assumes "new_file d name fs = (i, fs')"
  shows "fs_frame {name} fs fs' \<and> i = length (ef_nodes fs) \<and> length (ef_nodes fs') = Suc i
    \<and> (\<exists>n. node_at fs' i = Some n \<and> fn_kind n = Regular []) \<and> (is_dir fs d \<longrightarrow> entry fs' d name = Some i)"
proof -
  let ?node = "\<lparr>fn_kind = Regular [], fn_dev = (case node_at fs d of Some n \<Rightarrow> fn_dev n | None \<Rightarrow> 0), fn_uid = ef_euid fs,
      fn_gid = ef_egid fs, fn_mode = 384\<rparr>"
  let ?fs1 = "fs\<lparr>ef_nodes := ef_nodes fs @ [?node]\<rparr>" and ?es = "dict_set (entries_of fs d) name i"
  have i: "i = length (ef_nodes fs)" and fs': "fs' = set_entries d ?es ?fs1"
    using assms by (auto simp: new_file_def Let_def)
  have entries: "entries_of ?fs1 d' = entries_of fs d'" for d'
    by (auto simp: entries_of_def node_at_def nth_append split: file_kind.splits)
  have grown: "fs_frame {name} fs ?fs1" by (simp add: fs_frame_def entry_def entries) (simp add: nth_append)
  have set: "fs_frame {name} ?fs1 fs'"
    unfolding fs' by (rule set_entries_frame) (simp add: entries dict_set_get)
  have dir1: "is_dir ?fs1 d \<longleftrightarrow> is_dir fs d"
    by (auto simp: is_dir_def node_at_def nth_append is_dir_kind_def split: file_kind.splits)
  have len: "length (ef_nodes fs') = Suc i" by (simp add: fs' i set_entries_def split: option.splits)
  have "node_at ?fs1 i = Some ?node" by (simp add: node_at_def i)
  then have "node_at fs' i = Some ?node" using fs_frame_node [OF set] by (simp add: is_dir_kind_def)
  moreover have "is_dir fs d \<longrightarrow> entry fs' d name = Some i"
    by (simp add: fs' entry_def entries_of_set dir1 dict_set_get)
  ultimately show ?thesis using fs_frame_same [OF grown set] i len by auto
qed

lemma create_run:
  assumes "create_exclusive d name fs = (Inr i, fs')"
  shows "fs_frame {name} fs fs' \<and> i = length (ef_nodes fs) \<and> length (ef_nodes fs') = Suc i
    \<and> (\<exists>n. node_at fs' i = Some n \<and> fn_kind n = Regular []) \<and> (is_dir fs d \<longrightarrow> entry fs' d name = Some i)"
  using assms unfolding create_exclusive_def
proof (elim os_call_run)
  fix fs1 assume f: "ef_nodes fs1 = ef_nodes fs"
    and run: "(case entry fs1 d name of None \<Rightarrow> (case new_file d name fs1 of (i, fs') \<Rightarrow> (Inr i, fs'))
     | Some x \<Rightarrow> (Inl (''FileExistsError'', name), fs1)) = (Inr i, fs')"
  then have "new_file d name fs1 = (i, fs')" by (auto split: option.splits prod.splits)
  from new_file_run [OF this] f fs_frame_same [OF fs_frame_nodes [OF f]] show ?thesis
    by (auto simp: is_dir_def node_at_def)
qed simp

lemma create_failed: "create_exclusive d name fs = (Inl e, fs') \<Longrightarrow> ef_nodes fs' = ef_nodes fs"
  unfolding create_exclusive_def by (elim os_call_run) (auto split: option.splits prod.splits)

text \<open>Changes of one node that is no directory.\<close>

definition node_step :: "nat \<Rightarrow> env_fs \<Rightarrow> env_fs \<Rightarrow> bool" where
  "node_step i fs fs' = (\<exists>n. ef_nodes fs' = (ef_nodes fs)[i := n] \<and> \<not> is_dir_kind (fn_kind n))"

lemma node_step_refl: "i < length (ef_nodes fs) \<Longrightarrow> \<not> is_dir_kind (fn_kind (ef_nodes fs ! i)) \<Longrightarrow> ef_nodes fs' = ef_nodes fs \<Longrightarrow> node_step i fs fs'"
  unfolding node_step_def by (intro exI [of _ "ef_nodes fs ! i"]) simp

lemma node_step_trans: "node_step i a b \<Longrightarrow> node_step i b c \<Longrightarrow> node_step i a c"
  unfolding node_step_def by auto

lemma node_step_frame:
  assumes "fs_frame N fs fs1" "length (ef_nodes fs) \<le> i" "i < length (ef_nodes fs1)" "\<not> is_dir_kind (fn_kind (ef_nodes fs1 ! i))" "node_step i fs1 fs2"
  shows "fs_frame N fs fs2" "entry fs2 = entry fs1" "length (ef_nodes fs2) = length (ef_nodes fs1)"
proof -
  from assms(5) obtain n where n: "ef_nodes fs2 = (ef_nodes fs1)[i := n]" "\<not> is_dir_kind (fn_kind n)" by (auto simp: node_step_def)
  have "entries_of fs2 d = entries_of fs1 d" for d
  proof (cases "d = i")
    case True
    then show ?thesis using n(2) assms(3,4)
      by (cases "fn_kind n"; cases "fn_kind (ef_nodes fs1 ! i)") (simp_all add: entries_of_def node_at_def n(1) is_dir_kind_def)
  qed (simp add: entries_of_def node_at_def n(1))
  then show e: "entry fs2 = entry fs1" by (intro ext) (simp add: entry_def)
  show "length (ef_nodes fs2) = length (ef_nodes fs1)" by (simp add: n(1))
  show "fs_frame N fs fs2" using assms(1,2) by (auto simp: fs_frame_def e n(1) nth_list_update)
qed

lemma update_node_step:
  assumes "i < length (ef_nodes fs)" "\<not> is_dir_kind (fn_kind (f (ef_nodes fs1 ! i)))" "ef_nodes fs1 = ef_nodes fs"
  shows "node_step i fs (update_node i f fs1)"
  using assms by (auto simp: node_step_def update_node_def)

lemma os_write_run:
  assumes "os_write i content fs = (r, fs')" "i < length (ef_nodes fs)" "\<not> is_dir_kind (fn_kind (ef_nodes fs ! i))"
  shows "node_step i fs fs' \<and> (isl r \<or> fn_kind (ef_nodes fs' ! i) = Regular content)"
proof -
  obtain f fs1 where f: "pop_fault fs = (f, fs1)" by fastforce
  note n = pop_fault_nodes [OF f]
  show ?thesis
  proof (cases f)
    case Works
    with assms f n show ?thesis by (auto simp: os_write_def update_node_def node_step_def is_dir_kind_def)
  next
    case (Fails e)
    with assms f n show ?thesis by (auto simp: os_write_def intro: node_step_refl)
  next
    case (Stops k e)
    with assms f n show ?thesis by (auto simp: os_write_def intro!: update_node_step) (simp add: is_dir_kind_def)
  qed
qed

lemma attribute_run:
  assumes "os_call (\<lambda>fs. (Inr (), update_node i g fs)) fs = (r, fs')" "\<And>n. fn_kind (g n) = fn_kind n"
    "i < length (ef_nodes fs)" "\<not> is_dir_kind (fn_kind (ef_nodes fs ! i))"
  shows "node_step i fs fs' \<and> fn_kind (ef_nodes fs' ! i) = fn_kind (ef_nodes fs ! i)"
  using assms(1)
proof (elim os_call_run)
  fix fs1 assume "ef_nodes fs1 = ef_nodes fs" "(Inr (), update_node i g fs1) = (r, fs')"
  with assms(2-) show ?thesis by (auto simp: update_node_def node_step_def)
qed (use assms(3,4) node_step_refl in auto)

lemma fill_run:
  assumes run: "bindSE (os_write i content) (\<lambda>_. bindSE (os_fchown i uid gid) (\<lambda>_. bindSE (os_fchmod i mode) (\<lambda>_. os_fsync))) fs = (r, fs')"
    and i: "i < length (ef_nodes fs)" "\<not> is_dir_kind (fn_kind (ef_nodes fs ! i))"
  shows "node_step i fs fs' \<and> (isl r \<or> fn_kind (ef_nodes fs' ! i) = Regular content)"
proof -
  have keep: "i < length (ef_nodes b)" "\<not> is_dir_kind (fn_kind (ef_nodes b ! i))" if "node_step i a b" "i < length (ef_nodes a)" for a b
    using that by (auto simp: node_step_def)
  obtain r1 fs1 where 1: "os_write i content fs = (r1, fs1)" by fastforce
  note s1 = os_write_run [OF 1 i]
  note k1 = keep [OF conjunct1 [OF s1] i(1)]
  obtain r2 fs2 where 2: "os_fchown i uid gid fs1 = (r2, fs2)" by fastforce
  note s2 = attribute_run [OF 2 [unfolded os_fchown_def] _ k1, simplified]
  note k2 = keep [OF conjunct1 [OF s2] k1(1)]
  obtain r3 fs3 where 3: "os_fchmod i mode fs2 = (r3, fs3)" by fastforce
  note s3 = attribute_run [OF 3 [unfolded os_fchmod_def] _ k2, simplified]
  note k3 = keep [OF conjunct1 [OF s3] k2(1)]
  obtain r4 fs4 where 4: "os_fsync fs3 = (r4, fs4)" by fastforce
  have s4: "node_step i fs3 fs4" by (rule node_step_refl [OF k3 fsync_frame [OF 4]])
  have t: "node_step i fs fs2" "node_step i fs fs3" "node_step i fs fs4"
    using s1 s2 s3 s4 node_step_trans by blast+
  have kinds: "fn_kind (ef_nodes fs4 ! i) = fn_kind (ef_nodes fs1 ! i)" using s2 s3 fsync_frame [OF 4] by simp
  have "isl r \<and> fs' \<in> {fs1, fs2, fs3, fs4} \<or> r = Inr () \<and> r1 = Inr () \<and> fs' = fs4"
    using run 1 2 3 4 by (cases r1; cases r2; cases r3; cases r4) (auto simp: bindSE_def)
  with s1 t kinds show ?thesis by auto
qed

lemma write_exclusive_run:
  assumes run: "write_file_exclusive_at d name content uid gid fs = (r, fs')"
  shows "fs_frame {name} fs fs' \<and> (case r of Inl _ \<Rightarrow> True
    | Inr _ \<Rightarrow> is_dir fs d \<longrightarrow> (\<exists>i n. entry fs' d name = Some i \<and> node_at fs' i = Some n \<and> fn_kind n = Regular content))"
proof -
  obtain q fs1 where q: "create_exclusive d name fs = (q, fs1)" by fastforce
  show ?thesis
  proof (cases q)
    case (Inl e)
    with run q create_failed show ?thesis by (auto simp: write_file_exclusive_at_def bindSE_def fs_frame_nodes)
  next
    case (Inr i)
    note c = create_run [OF q [unfolded Inr]]
    let ?fill = "bindSE (os_write i content) (\<lambda>_. bindSE (os_fchown i uid gid) (\<lambda>_. bindSE (os_fchmod i 384) (\<lambda>_. os_fsync)))"
    obtain p fs2 where p: "?fill fs1 = (p, fs2)" by fastforce
    from c have i: "i < length (ef_nodes fs1)" "\<not> is_dir_kind (fn_kind (ef_nodes fs1 ! i))"
      by (auto simp: node_at_def is_dir_kind_def)
    note s = fill_run [OF p i]
    note f = node_step_frame [OF conjunct1 [OF c] _ i conjunct1 [OF s]]
    have f2: "fs_frame {name} fs fs2" "entry fs2 = entry fs1" "length (ef_nodes fs2) = length (ef_nodes fs1)" using f c by simp_all
    show ?thesis
    proof (cases p)
      case Inl: (Inl e)
      obtain u fs3 where u: "unlink_synced d name fs2 = (u, fs3)" by fastforce
      have "fs' = fs3 \<and> isl r"
        using run q p u Inl Inr by (auto simp: write_file_exclusive_at_def bindSE_def on_failure_def split: sum.splits)
      with fs_frame_same [OF f2(1) unlink_synced_frame [OF u]] show ?thesis by (cases r) auto
    next
      case Inr': (Inr v)
      then have "r = Inr v" "fs' = fs2" using run q p Inr by (auto simp: write_file_exclusive_at_def bindSE_def on_failure_def)
      with s Inr' c f2 i(1) show ?thesis by (auto simp: node_at_def)
    qed
  qed
qed

subsection \<open>Steps that change no file\<close>

definition quiet :: "'a os_run \<Rightarrow> bool" where
  "quiet m = (\<forall>fs. ef_nodes (snd (m fs)) = ef_nodes fs)"

lemma quietD: "quiet m \<Longrightarrow> m fs = (r, fs') \<Longrightarrow> ef_nodes fs' = ef_nodes fs"
  unfolding quiet_def by (metis snd_conv)

lemma quietI: "(\<And>fs r fs'. m fs = (r, fs') \<Longrightarrow> ef_nodes fs' = ef_nodes fs) \<Longrightarrow> quiet m"
  unfolding quiet_def by (metis prod.collapse)

lemma quiet_bind:
  assumes "quiet m" "\<And>x. quiet (f x)"
  shows "quiet (bindSE m f)"
proof (rule quietI)
  fix fs r fs' assume run: "bindSE m f fs = (r, fs')"
  obtain q fs1 where q: "m fs = (q, fs1)" by fastforce
  have "fs' = fs1 \<or> (\<exists>x. f x fs1 = (r, fs'))" using run q by (cases q) (auto simp: bindSE_def)
  with quietD [OF assms(1) q] quietD [OF assms(2)] show "ef_nodes fs' = ef_nodes fs" by metis
qed

lemma quiet_basic: "quiet (returnO x)" "quiet (raiseO e)" "quiet (guardO b c)" "quiet (liftO v)" "quiet (\<lambda>fs. liftO (g fs) fs)"
    "quiet (\<lambda>fs. guardO (h fs) c fs)" "quiet (\<lambda>fs. (k fs, fs))"
  by (auto simp: quiet_def returnO_def raiseO_def guardO_def liftO_def split: sum.splits)

lemma quiet_call: "quiet m \<Longrightarrow> quiet (os_call m)"
  by (rule quietI, elim os_call_run) (simp, metis quietD)

lemma quiet_wrap: "quiet m \<Longrightarrow> quiet (wrapO c m)"
  by (rule quietI) (auto simp: wrapO_def dest: quietD split: prod.splits sum.splits)

lemma quiet_open: "quiet (open_dir_at d part)" "quiet (open_file_at d name)"
  unfolding open_dir_at_def open_file_at_def
  by (rule quiet_call, simp add: quiet_def split: option.split)+

lemma quiet_root_owned: "quiet (validate_root_owned_stat label st)"
  unfolding validate_root_owned_stat_def by (intro quiet_bind quiet_basic)

lemma quiet_owner: "quiet (check_owner require_root label d)"
  using quiet_root_owned unfolding check_owner_def quiet_def by simp

lemmas quiet_rules = quiet_bind quiet_basic quiet_call quiet_wrap quiet_open quiet_root_owned quiet_owner

lemma quiet_read: "quiet (read_regular_at w require_root label d name)"
  unfolding read_regular_at_def by (auto intro!: quiet_rules split: file_kind.split option.split)

lemma quiet_normalize: "quiet (normalize_absolute_path label p)"
  unfolding normalize_absolute_path_def by (intro quiet_rules)

lemma quiet_walk: "quiet (walk_trusted label shown require_root d parts)"
  by (induction parts arbitrary: d) (auto intro!: quiet_rules)

lemma quiet_trusted: "quiet (open_trusted_directory label require_root mode p)"
  unfolding open_trusted_directory_def
  by (intro quiet_bind quiet_normalize quiet_walk quiet_owner quiet_call quiet_basic) (auto simp: quiet_def split: option.split)

lemma read_run:
  assumes "read_regular_at w require_root label d name fs = (Inr oe, fs')"
  obtains i n where "entry fs d name = Some i" "node_at fs i = Some n" "fn_kind n = Regular (oe_raw oe)"
    "rw_decode w (oe_raw oe) = Some (oe_text oe)" "oe_stat oe = stat_of i n"
proof -
  from assms obtain i n fs1 where o: "open_file_at d name fs = (Inr (i, n), fs1)"
    and rest: "(case fn_kind n of
       Regular raw \<Rightarrow>
         bindSE (if require_root then validate_root_owned_stat label (stat_of i n) else returnO ()) (\<lambda>_.
         bindSE (os_call (returnO ())) (\<lambda>_.
         case rw_decode w raw of
           None \<Rightarrow> raiseO (''ReconcileError'', label @ '' is not valid UTF-8'')
         | Some decoded \<Rightarrow> returnO \<lparr>oe_raw = raw, oe_text = decoded, oe_stat = stat_of i n\<rparr>))
     | _ \<Rightarrow> raiseO (''ReconcileError'', label @ '' is not a regular file'')) fs1 = (Inr oe, fs')"
    unfolding read_regular_at_def bindSE_Inr by (auto simp: guardO_def wrapO_def split: prod.splits sum.splits if_splits)
  from rest obtain raw where k: "fn_kind n = Regular raw" by (cases "fn_kind n") (auto simp: raiseO_def)
  with rest have oe: "oe_raw oe = raw" "rw_decode w raw = Some (oe_text oe)" "oe_stat oe = stat_of i n"
    by (auto simp: bindSE_Inr returnO_def raiseO_def split: option.splits)
  have "entry fs d name = Some i \<and> node_at fs i = Some n"
    using o unfolding open_file_at_def
  proof (elim os_call_run)
    fix fs2 assume f: "ef_nodes fs2 = ef_nodes fs" and run: "(case entry fs2 d name of None \<Rightarrow> (Inl (not_found name), fs2)
      | Some i \<Rightarrow> (case node_at fs2 i of None \<Rightarrow> (Inl (not_found name), fs2)
         | Some n \<Rightarrow> if fn_kind n = Symlink then (Inl (''OSError'', name), fs2) else (Inr (i, n), fs2))) = (Inr (i, n), fs1)"
    then have "entry fs2 d name = Some i" "node_at fs2 i = Some n" by (auto split: option.splits if_splits)
    then show ?thesis using entry_nodes [OF f] node_nodes [OF f] by simp
  qed simp
  with k oe that show thesis by metis
qed

subsection \<open>Frames of the writing steps\<close>

lemma cleanup_names_frame: "cleanup_names d stem uid gid names fs = (r, fs') \<Longrightarrow> fs_frame {n. starts_with stem n} fs fs'"
proof (induction names arbitrary: fs)
  case (Cons name names)
  show ?case
  proof (cases "starts_with stem name")
    case True
    obtain q fs1 where q: "open_file_at d name fs = (q, fs1)" by fastforce
    have f1: "fs_frame {n. starts_with stem n} fs fs1" by (rule fs_frame_nodes [OF quietD [OF quiet_open(2) q]])
    show ?thesis
    proof (cases q)
      case (Inl e)
      with Cons.prems q True have "fs' = fs1 \<or> cleanup_names d stem uid gid names fs1 = (r, fs')" by (auto split: if_splits)
      with Cons.IH f1 show ?thesis using fs_frame_same by blast
    next
      case (Inr x)
      obtain i n where x: "x = (i, n)" by fastforce
      obtain p fs2 where p: "(if is_orphan uid gid n then os_unlink d name else returnO ()) fs1 = (p, fs2)" by fastforce
      have "fs_frame {name} fs1 fs2" using p unlink_frame by (auto simp: returnO_def split: if_splits)
      with True have f2: "fs_frame {n. starts_with stem n} fs1 fs2" by (auto elim: fs_frame_mono)
      have "fs' = fs2 \<or> cleanup_names d stem uid gid names fs2 = (r, fs')"
        using Cons.prems q Inr x True p by (cases p) (auto simp: bindSE_def)
      with Cons.IH fs_frame_same [OF f1 f2] show ?thesis using fs_frame_same by blast
    qed
  qed (use Cons in simp)
qed simp

lemma cleanup_frame: "cleanup_orphan_temps d stem uid gid fs = (r, fs') \<Longrightarrow> fs_frame {n. starts_with stem n} fs fs'"
proof -
  assume run: "cleanup_orphan_temps d stem uid gid fs = (r, fs')"
  let ?list = "os_call (\<lambda>fs. (Inr (dict_keys (entries_of fs d)), fs)) :: string list os_run"
  obtain q fs1 where q: "?list fs = (q, fs1)" by fastforce
  have f1: "fs_frame {n. starts_with stem n} fs fs1" by (rule fs_frame_nodes [OF quietD [OF quiet_call [OF quiet_basic(7)] q]])
  show ?thesis
  proof (cases q)
    case (Inl e)
    with run q f1 show ?thesis by (auto simp: cleanup_orphan_temps_def bindSE_def)
  next
    case (Inr names)
    obtain p fs2 where p: "cleanup_names d stem uid gid names fs1 = (p, fs2)" by fastforce
    have "fs' = fs2 \<or> (\<exists>u. os_fsync fs2 = (u, fs'))"
      using run q Inr p by (cases p) (auto simp: cleanup_orphan_temps_def bindSE_def)
    then have "ef_nodes fs' = ef_nodes fs2" using fsync_frame by auto
    with fs_frame_same [OF f1 cleanup_names_frame [OF p]] show ?thesis using fs_frame_same fs_frame_nodes by blast
  qed
qed

lemma write_backup_run:
  assumes run: "write_backup w require_root d name oe fs = (r, fs')"
  shows "fs_frame {name} fs fs' \<and> (isl r \<or> (\<exists>i n. entry fs' d name = Some i \<and> node_at fs' i = Some n \<and> fn_kind n = Regular (oe_raw oe)))"
proof -
  let ?check = "bindSE (read_regular_at w require_root ''backup'' d name) (\<lambda>backup.
     guardO (oe_raw backup = oe_raw oe \<and> st_uid (oe_stat backup) = st_uid (oe_stat oe)
        \<and> st_gid (oe_stat backup) = st_gid (oe_stat oe) \<and> st_mode (oe_stat backup) = 384) ''backup verification failed before destination replace'')"
  obtain q fs1 where q: "write_file_exclusive_at d name (oe_raw oe) (st_uid (oe_stat oe)) (st_gid (oe_stat oe)) fs = (q, fs1)" by fastforce
  have f1: "fs_frame {name} fs fs1" using write_exclusive_run [OF q] by simp
  obtain p fs2 where p: "os_fsync fs1 = (p, fs2)" by fastforce
  have f2: "fs_frame {name} fs fs2" using fs_frame_same [OF f1 fs_frame_nodes [OF fsync_frame [OF p]]] .
  obtain u fs3 where u: "?check fs2 = (u, fs3)" by fastforce
  have n3: "ef_nodes fs3 = ef_nodes fs2" using u by (rule quietD [rotated]) (intro quiet_bind quiet_read quiet_basic)
  have f3: "fs_frame {name} fs fs3" using fs_frame_same [OF f2 fs_frame_nodes [OF n3]] .
  obtain v fs4 where v: "unlink_synced d name fs3 = (v, fs4)" by fastforce
  have f4: "fs_frame {name} fs fs4" using fs_frame_same [OF f3 unlink_synced_frame [OF v]] .
  have ends: "isl r \<and> fs' \<in> {fs1, fs2, fs4} \<or> r = Inr () \<and> u = Inr () \<and> fs' = fs3"
    using run q p u v by (cases q; cases p; cases u; cases v) (auto simp: write_backup_def Let_def bindSE_def on_failure_def)
  have "\<exists>i n. entry fs3 d name = Some i \<and> node_at fs3 i = Some n \<and> fn_kind n = Regular (oe_raw oe)" if "u = Inr ()"
  proof -
    from u that obtain backup fs5 where b: "read_regular_at w require_root ''backup'' d name fs2 = (Inr backup, fs5)" "oe_raw backup = oe_raw oe"
      by (auto simp: bindSE_Inr guardO_def split: if_splits)
    from read_run [OF b(1)] obtain i n where "entry fs2 d name = Some i" "node_at fs2 i = Some n" "fn_kind n = Regular (oe_raw oe)"
      using b(2) by metis
    then show ?thesis using entry_nodes [OF n3] node_nodes [OF n3] by simp
  qed
  with ends f1 f2 f3 f4 show ?thesis by auto
qed

lemma install_run:
  assumes run: "install_content d temp name content st fs = (r, fs')" and dir: "is_dir fs d" and "temp \<noteq> name"
  shows "fs_frame {temp, name} fs fs' \<and> (entry fs' d name = entry fs d name
      \<or> (\<exists>i n. entry fs' d name = Some i \<and> node_at fs' i = Some n \<and> fn_kind n = Regular content))
    \<and> (isl r \<or> (\<exists>i n. entry fs' d name = Some i \<and> node_at fs' i = Some n \<and> fn_kind n = Regular content))"
proof -
  obtain q fs1 where q: "write_file_exclusive_at d temp content (st_uid st) (st_gid st) fs = (q, fs1)" by fastforce
  note w = write_exclusive_run [OF q]
  then have f1: "fs_frame {temp, name} fs fs1" by (auto elim: fs_frame_mono)
  have e1: "entry fs1 d name = entry fs d name" using w assms(3) by (simp add: fs_frame_def)
  show ?thesis
  proof (cases q)
    case (Inl e)
    with run q f1 e1 show ?thesis by (auto simp: install_content_def bindSE_def)
  next
    case (Inr u)
    with w dir obtain i n where i: "entry fs1 d temp = Some i" "node_at fs1 i = Some n" "fn_kind n = Regular content" by auto
    obtain p fs2 where p: "os_replace d temp name fs1 = (p, fs2)" by fastforce
    note rp = replace_run [OF p]
    have f2: "fs_frame {temp, name} fs fs2" using fs_frame_same [OF f1 conjunct1 [OF rp]] .
    show ?thesis
    proof (cases p)
      case Inl: (Inl e)
      obtain v fs3 where v: "os_unlink d temp fs2 = (v, fs3)" by fastforce
      have end3: "isl r \<and> fs' = fs3"
        using run q p v Inr Inl by (cases v) (auto simp: install_content_def bindSE_def or_unlink_def)
      have "entry fs2 d name = entry fs d name" using rp Inl e1 entry_nodes [of fs2 fs1] by simp
      moreover have "entry fs3 d name = entry fs2 d name" using unlink_frame [OF v] assms(3) by (simp add: fs_frame_def)
      moreover have "fs_frame {temp, name} fs fs3" using fs_frame_same [OF f2 fs_frame_mono [OF unlink_frame [OF v]]] by simp
      ultimately show ?thesis using end3 by simp
    next
      case Inr': (Inr x)
      obtain v fs3 where v: "os_fsync fs2 = (v, fs3)" by fastforce
      have fs': "fs' = fs3" using run q p v Inr Inr' by (cases v) (auto simp: install_content_def bindSE_def or_unlink_def)
      have n3: "ef_nodes fs3 = ef_nodes fs2" by (rule fsync_frame [OF v])
      have "entry fs2 d name = Some i" using rp Inr' i(1) by simp
      moreover have "node_at fs2 i = Some n" using fs_frame_node [OF conjunct1 [OF rp] i(2)] i(3) by (simp add: is_dir_kind_def)
      ultimately have "entry fs3 d name = Some i" "node_at fs3 i = Some n" using entry_nodes [OF n3] node_nodes [OF n3] by simp_all
      with i(3) fs' fs_frame_same [OF f2 fs_frame_nodes [OF n3]] show ?thesis by auto
    qed
  qed
qed

subsection \<open>Names\<close>

lemma stem_not_name: "\<not> starts_with (temp_stem name) name"
  by (auto simp: starts_with_iff temp_stem_def dest: arg_cong [of _ _ length])

lemma stem_not_backup: "\<not> starts_with (temp_stem name) (backup_name w name)"
proof
  assume "starts_with (temp_stem name) (backup_name w name)"
  then obtain t where t: "name @ ''.bak-'' @ rw_stamp w = ''.'' @ name @ ''.reconcile-'' @ t"
    by (auto simp: starts_with_iff temp_stem_def backup_name_def)
  have "(name @ ''.bak-'' @ rw_stamp w) ! (length name + 1) = CHR ''b''" by (simp add: nth_append)
  moreover have "(''.'' @ name @ ''.reconcile-'' @ t) ! (length name + 1) = CHR ''.''" by (simp add: nth_append)
  ultimately show False using t by simp
qed

lemma backup_not_name: "backup_name w name \<noteq> name"
  by (simp add: backup_name_def)

lemma temp_starts: "starts_with (temp_stem name) (temp_stem name @ t)"
  by (simp add: starts_with_iff)

subsection \<open>Applying\<close>

text \<open>A name of the directory with a regular file of that content.\<close>

definition has_file :: "env_fs \<Rightarrow> nat \<Rightarrow> string \<Rightarrow> string \<Rightarrow> bool" where
  "has_file fs d name content = (\<exists>i n. entry fs d name = Some i \<and> node_at fs i = Some n \<and> fn_kind n = Regular content)"

lemma has_file_frame: "fs_frame N fs fs' \<Longrightarrow> has_file fs d name c \<Longrightarrow> name \<notin> N \<Longrightarrow> has_file fs' d name c"
  unfolding has_file_def using fs_frame_node by (fastforce simp: fs_frame_def is_dir_kind_def)

lemma has_file_nodes: "ef_nodes fs' = ef_nodes fs \<Longrightarrow> has_file fs' = has_file fs"
  using entry_nodes [of fs' fs] node_nodes [of fs' fs] by (intro ext) (simp add: has_file_def)

lemma read_has_file:
  assumes "read_regular_at w require_root label d name fs = (Inr oe, fs')"
  shows "has_file fs d name (oe_raw oe)" "rw_decode w (oe_raw oe) = Some (oe_text oe)"
  using assms by (auto elim!: read_run simp: has_file_def)

lemma bindSE_run:
  assumes "bindSE m f fs = (r, fs')"
  obtains e where "m fs = (Inl e, fs')" "r = Inl e" | x fs1 where "m fs = (Inr x, fs1)" "f x fs1 = (r, fs')"
  using assms by (auto simp: bindSE_def split: prod.splits sum.splits)

definition replaced :: "reconcile_world \<Rightarrow> recon_args \<Rightarrow> string \<Rightarrow> env_fs \<Rightarrow> nat \<Rightarrow> nat \<Rightarrow> env_fs \<Rightarrow> bool" where
  "replaced w args expected fs dd bd fs' =
     (\<exists>source destination bst locked. has_file fs dd (path_name (ra_destination args)) (oe_raw destination)
        \<and> plan_of w args bst source destination = Inr locked \<and> rp_hash locked = expected
        \<and> has_file fs' dd (path_name (ra_destination args)) (rw_encode w (rp_content locked))
        \<and> has_file fs' bd (backup_name w (path_name (ra_destination args))) (oe_raw destination))"

lemma write_phase:
  fixes name :: string
  assumes run: "bindSE (write_backup w require_root bd (backup_name w name) destination) (\<lambda>_.
      bindSE (cleanup_orphan_temps dd (temp_stem name) uid gid) (\<lambda>_.
      bindSE (install_content dd (temp_stem name @ rw_token w) name content st) g)) fs = (r, fs')"
    and g: "\<And>x. quiet (g x)" and present: "has_file fs dd name (oe_raw destination)"
  shows "(\<exists>N. fs_frame N fs fs') \<and> (entry fs' dd name = entry fs dd name \<and> isl r
      \<or> has_file fs' dd name content \<and> has_file fs' bd (backup_name w name) (oe_raw destination))"
proof -
  let ?bak = "backup_name w name" and ?stem = "{n. starts_with (temp_stem name) n}" and ?temp = "temp_stem name @ rw_token w"
  have names: "name \<notin> ?stem" "?bak \<notin> ?stem" "?bak \<noteq> name" "?temp \<in> ?stem"
    using stem_not_name stem_not_backup backup_not_name temp_starts by auto
  then have temp: "?temp \<noteq> name" "?bak \<noteq> ?temp" by (metis, metis)
  obtain q1 fs1 where 1: "write_backup w require_root bd ?bak destination fs = (q1, fs1)" by fastforce
  note b = write_backup_run [OF 1]
  obtain q2 fs2 where 2: "cleanup_orphan_temps dd (temp_stem name) uid gid fs1 = (q2, fs2)" by fastforce
  note c = cleanup_frame [OF 2]
  obtain q3 fs3 where 3: "install_content dd ?temp name content st fs2 = (q3, fs3)" by fastforce
  have f2: "fs_frame ({?bak} \<union> ?stem) fs fs2" using fs_frame_trans [OF conjunct1 [OF b] c] .
  have "is_dir fs dd" using present by (auto simp: has_file_def intro: entry_is_dir)
  then have dir: "is_dir fs2 dd" by (rule fs_frame_dir [OF f2])
  note i = install_run [OF 3 dir temp(1)]
  have f3: "fs_frame ({?bak} \<union> ?stem \<union> {?temp, name}) fs fs3" using fs_frame_trans [OF f2 conjunct1 [OF i]] .
  have e: "entry fs1 dd name = entry fs dd name" "entry fs2 dd name = entry fs dd name"
    using b f2 names by (auto simp: fs_frame_def)
  have backup: "has_file fs3 bd ?bak (oe_raw destination)" if "\<not> isl q1"
  proof -
    have "has_file fs1 bd ?bak (oe_raw destination)" using b that by (auto simp: has_file_def)
    then have "has_file fs2 bd ?bak (oe_raw destination)" using has_file_frame [OF c] names(2) by simp
    then show ?thesis using has_file_frame [OF conjunct1 [OF i]] names(3) temp(2) by simp
  qed
  have installed: "entry fs3 dd name = entry fs dd name \<or> has_file fs3 dd name content" "isl q3 \<or> has_file fs3 dd name content"
    using i e by (auto simp: has_file_def)
  have "isl r \<and> fs' \<in> {fs1, fs2} \<or> \<not> isl q1 \<and> isl q3 \<and> isl r \<and> fs' = fs3 \<or> \<not> isl q1 \<and> \<not> isl q3 \<and> ef_nodes fs' = ef_nodes fs3"
    using run 1 2 3 quietD [OF g] by (cases q1; cases q2; cases q3) (auto simp: bindSE_def)
  then show ?thesis
  proof (elim disjE conjE)
    assume "isl r" "fs' \<in> {fs1, fs2}"
    with e b f2 show ?thesis by auto
  next
    assume "\<not> isl q1" "isl r" "fs' = fs3"
    with backup installed f3 show ?thesis by auto
  next
    assume q: "\<not> isl q1" "\<not> isl q3" and n: "ef_nodes fs' = ef_nodes fs3"
    have "fs_frame ({?bak} \<union> ?stem \<union> {?temp, name}) fs fs'" using fs_frame_same [OF f3 fs_frame_nodes [OF n]] .
    with backup installed q has_file_nodes [OF n] show ?thesis by auto
  qed
qed

text \<open>Every outcome is an exception that left the files alone, or one with \<open>S\<close>.\<close>

definition leads :: "file_node list \<Rightarrow> (os_exc + 'a \<Rightarrow> env_fs \<Rightarrow> bool) \<Rightarrow> 'a os_run \<Rightarrow> env_fs \<Rightarrow> bool" where
  "leads ns S m fs = (ef_nodes fs = ns \<longrightarrow> (case m fs of (r, fs') \<Rightarrow> isl r \<and> ef_nodes fs' = ns \<or> S r fs'))"

lemma leads_bind:
  assumes "quiet m" "\<And>x fs1. m fs = (Inr x, fs1) \<Longrightarrow> ef_nodes fs = ns \<Longrightarrow> ef_nodes fs1 = ns \<Longrightarrow> leads ns S (f x) fs1"
  shows "leads ns S (bindSE m f) fs"
proof -
  obtain q fs1 where q: "m fs = (q, fs1)" by fastforce
  note n = quietD [OF assms(1) q]
  show ?thesis
  proof (cases q)
    case (Inl e)
    with q n show ?thesis by (simp add: leads_def bindSE_def)
  next
    case (Inr x)
    with assms(2) [of x fs1] q n show ?thesis by (auto simp: leads_def bindSE_def)
  qed
qed

lemma leads_end: "(\<And>r fs'. m fs = (r, fs') \<Longrightarrow> S r fs') \<Longrightarrow> leads ns S m fs"
  by (auto simp: leads_def)

lemma liftO_Inr: "liftO v fs = (Inr x, fs') \<Longrightarrow> v = Inr x"
  by (auto simp: liftO_def split: sum.splits)

lemma guardO_Inr: "guardO b c fs = (Inr x, fs') \<Longrightarrow> b"
  by (auto simp: guardO_def split: if_splits)

lemma quiet_unchanged: "quiet (unchanged_inputs a b c d)"
  unfolding unchanged_inputs_def by (intro quiet_bind quiet_basic)

lemma fs_frame_files: "fs_frame N fs fs' \<Longrightarrow> node_at fs i = Some n \<Longrightarrow> is_dir_kind (fn_kind n) \<or> node_at fs' i = Some n"
  using fs_frame_node by blast

text \<open>
  C7. Applying a plan is atomic and reversible: whatever system calls fail, no existing file is modified, and the
  name of the destination either still denotes the file it denoted, and then the call raised, or it denotes a file with
  exactly the content of the plan with the expected hash, and then the backup directory has the old bytes.
\<close>

theorem apply_locked_safe:
  assumes run: "apply_locked w args sd dd bd source destination plan expected fs = (r, fs')"
  shows "(\<forall>i n. node_at fs i = Some n \<longrightarrow> is_dir_kind (fn_kind n) \<or> node_at fs' i = Some n)
    \<and> (entry fs' dd (path_name (ra_destination args)) = entry fs dd (path_name (ra_destination args)) \<and> isl r
       \<or> replaced w args expected fs dd bd fs')"
proof -
  let ?name = "path_name (ra_destination args)"
  let ?S = "\<lambda>r fs'. \<exists>source' destination' bst locked fs1. ef_nodes fs1 = ef_nodes fs \<and> has_file fs dd ?name (oe_raw destination')
      \<and> plan_of w args bst source' destination' = Inr locked \<and> rp_hash locked = expected
      \<and> write_locked w args dd bd destination' locked fs1 = (r, fs')"
  have "leads (ef_nodes fs) ?S (apply_locked w args sd dd bd source destination plan expected) fs"
    unfolding apply_locked_def Let_def
  proof (rule leads_bind [OF quiet_read], rule leads_bind [OF quiet_read], rule leads_bind [OF quiet_unchanged],
      rule leads_bind [OF quiet_basic(5)], rule leads_bind [OF quiet_basic(3)], rule leads_bind [OF quiet_basic(3)], rule leads_end)
    fix source' fs1 destination' fs2 u fs3 locked fs4 v fs5 x fs6 r fs'
    assume n1: "ef_nodes fs1 = ef_nodes fs"
      and d: "read_regular_at w (ra_require_root args) ''destination'' dd ?name fs1 = (Inr destination', fs2)"
      and p: "liftO (plan_of w args (dir_stat bd fs3) source' destination') fs3 = (Inr locked, fs4)"
      and e: "guardO (expected = rp_hash locked) ''expected plan SHA-256 changed after lock'' fs5 = (Inr x, fs6)"
      and n6: "ef_nodes fs6 = ef_nodes fs" and w: "write_locked w args dd bd destination' locked fs6 = (r, fs')"
    have "has_file fs dd ?name (oe_raw destination')" using read_has_file(1) [OF d] has_file_nodes [OF n1] by simp
    with liftO_Inr [OF p] guardO_Inr [OF e] n6 w show "?S r fs'" by blast
  qed
  then have "isl r \<and> ef_nodes fs' = ef_nodes fs \<or> ?S r fs'" unfolding leads_def run by simp
  then show ?thesis
  proof
    assume "isl r \<and> ef_nodes fs' = ef_nodes fs"
    then show ?thesis using entry_nodes [of fs' fs] node_nodes [of fs' fs] by simp
  next
    assume "?S r fs'"
    then obtain source' destination' bst locked fs1 where n1: "ef_nodes fs1 = ef_nodes fs"
      and d: "has_file fs dd ?name (oe_raw destination')" and p: "plan_of w args bst source' destination' = Inr locked" "rp_hash locked = expected"
      and w: "write_locked w args dd bd destination' locked fs1 = (r, fs')" by blast
    have d1: "has_file fs1 dd ?name (oe_raw destination')" using d has_file_nodes [OF n1] by simp
    have "(\<exists>N. fs_frame N fs1 fs') \<and> (entry fs' dd ?name = entry fs1 dd ?name \<and> isl r
        \<or> has_file fs' dd ?name (rw_encode w (rp_content locked)) \<and> has_file fs' bd (backup_name w ?name) (oe_raw destination'))"
      by (rule write_phase [OF w [unfolded write_locked_def Let_def] _ d1]) (intro quiet_bind quiet_read quiet_basic)
    then show ?thesis
      using d p entry_nodes [OF n1] node_nodes [OF n1] fs_frame_files unfolding replaced_def by metis
  qed
qed

text \<open>
  C16. Nothing is written without a matching plan: when a run changes any file or directory, then \<open>--apply\<close> was given
  with an expected hash, and the hash is the one of the plan made of the texts of source and destination as they are in
  the file system, with a content that differs from the destination.  A dry run therefore changes nothing.
\<close>

theorem reconcile_writes_expected_plan:
  "ef_nodes (snd (reconcile_env w args fs)) = ef_nodes fs
   \<or> ra_apply args \<and> (\<exists>sd dd bst source destination plan.
      has_file fs sd (path_name (ra_source args)) (oe_raw source) \<and> rw_decode w (oe_raw source) = Some (oe_text source)
    \<and> has_file fs dd (path_name (ra_destination args)) (oe_raw destination) \<and> rw_decode w (oe_raw destination) = Some (oe_text destination)
    \<and> plan_of w args bst source destination = Inr plan \<and> validate_expected_plan (ra_expected args) = Inr (rp_hash plan)
    \<and> rp_content plan \<noteq> oe_text destination)"
proof -
  let ?rr = "ra_require_root args"
  let ?Q = "ra_apply args \<and> (\<exists>sd dd bst source destination plan.
      has_file fs sd (path_name (ra_source args)) (oe_raw source) \<and> rw_decode w (oe_raw source) = Some (oe_text source)
    \<and> has_file fs dd (path_name (ra_destination args)) (oe_raw destination) \<and> rw_decode w (oe_raw destination) = Some (oe_text destination)
    \<and> plan_of w args bst source destination = Inr plan \<and> validate_expected_plan (ra_expected args) = Inr (rp_hash plan)
    \<and> rp_content plan \<noteq> oe_text destination)"
  let ?S = "\<lambda>r fs'. ef_nodes fs' = ef_nodes fs \<or> ?Q"
  have expected: "quiet (if ra_apply args then liftO (validate_expected_plan (ra_expected args)) else returnO [])"
    by (simp add: quiet_basic)
  have "leads (ef_nodes fs) ?S (reconcile_env w args) fs"
    unfolding reconcile_env_def Let_def
  proof (rule leads_bind [OF quiet_normalize], rule leads_bind [OF quiet_normalize], rule leads_bind [OF quiet_normalize],
      rule leads_bind [OF quiet_basic(3)], rule leads_bind [OF quiet_basic(6)], rule leads_bind [OF quiet_trusted],
      rule leads_bind [OF quiet_trusted], rule leads_bind [OF quiet_read], rule leads_bind [OF quiet_read],
      rule leads_bind [OF quiet_basic(3)], rule leads_bind [OF quiet_trusted], rule leads_bind [OF quiet_basic(5)],
      rule leads_bind [OF expected], rule leads_bind [OF quiet_basic(3)])
    fix u1 f1 u2 f2 u3 f3 u4 f4 u5 f5 sd f6 dd f7 source f8 destination f9 u10 f10 bd f11 plan f12 expected f13 u14 f14
    assume s: "read_regular_at w ?rr ''source'' sd (path_name (ra_source args)) f7 = (Inr source, f8)" and n7: "ef_nodes f7 = ef_nodes fs"
      and d: "read_regular_at w ?rr ''destination'' dd (path_name (ra_destination args)) f8 = (Inr destination, f9)" and n8: "ef_nodes f8 = ef_nodes fs"
      and p: "liftO (plan_of w args (dir_stat bd f11) source destination) f11 = (Inr plan, f12)"
      and e: "(if ra_apply args then liftO (validate_expected_plan (ra_expected args)) else returnO []) f12 = (Inr expected, f13)"
      and g: "guardO (ra_apply args \<longrightarrow> expected = rp_hash plan) ''expected plan SHA-256 does not match current inputs'' f13 = (Inr u14, f14)"
      and n14: "ef_nodes f14 = ef_nodes fs"
    have files: "has_file fs sd (path_name (ra_source args)) (oe_raw source)" "has_file fs dd (path_name (ra_destination args)) (oe_raw destination)"
      using read_has_file(1) [OF s] read_has_file(1) [OF d] has_file_nodes [OF n7] has_file_nodes [OF n8] by simp_all
    have v: "validate_expected_plan (ra_expected args) = Inr (rp_hash plan)" if "ra_apply args"
      using that e guardO_Inr [OF g] liftO_Inr [of "validate_expected_plan (ra_expected args)" f12 expected f13] by simp
    have q: ?Q if a: "ra_apply args" "rp_content plan \<noteq> oe_text destination"
      using files read_has_file(2) [OF s] read_has_file(2) [OF d] liftO_Inr [OF p] v [OF a(1)] a by blast
    show "leads (ef_nodes fs) ?S
      (if rp_content plan = oe_text destination
       then returnO (base_result args plan @ [(''status'', JStr ''already_reconciled''), (''applied'', JBool False)])
       else if \<not> ra_apply args then returnO (base_result args plan @ [(''status'', JStr ''planned''), (''applied'', JBool False)])
       else bindSE (take_lock w ?rr dd (path_name (ra_destination args))) (\<lambda>_. apply_locked w args sd dd bd source destination plan expected)) f14"
      using q by (intro leads_end) (auto simp: returnO_def n14 split: if_splits)
  qed
  then show ?thesis by (auto simp: leads_def split: prod.splits)
qed

subsection \<open>The plan hash\<close>

lemma be_bytes_length [simp]: "length (be_bytes k n) = k"
  by (induction k arbitrary: n) auto

lemma be_bytes_inj: "n < 256 ^ k \<Longrightarrow> m < 256 ^ k \<Longrightarrow> be_bytes k n = be_bytes k m \<Longrightarrow> n = m"
proof (induction k arbitrary: n m)
  case (Suc k)
  have "n div 256 < 256 ^ k" "m div 256 < 256 ^ k" using Suc.prems(1,2) by (simp_all add: less_mult_imp_div_less mult.commute)
  moreover have "be_bytes k (n div 256) = be_bytes k (m div 256)" using Suc.prems(3) by simp
  ultimately have "n div 256 = m div 256" using Suc.IH by blast
  moreover have "n mod 256 = m mod 256"
  proof -
    have "char_of (n mod 256) = (char_of (m mod 256) :: char)" using Suc.prems(3) by simp
    then have "of_char (char_of (n mod 256)) = (of_char (char_of (m mod 256)) :: nat)" by simp
    then show ?thesis by simp
  qed
  ultimately show ?case by (metis div_mult_mod_eq)
qed simp

lemma plan_fields_inj:
  assumes "map fst fs = map fst gs" "concat (map plan_field fs) = concat (map plan_field gs)"
    and "list_all (\<lambda>f. length (snd f) < 256 ^ 8) fs" "list_all (\<lambda>f. length (snd f) < 256 ^ 8) gs"
  shows "fs = gs"
  using assms
proof (induction fs arbitrary: gs)
  case (Cons f fs)
  then obtain g gs' where gs: "gs = g # gs'" by (cases gs) auto
  have same: "fst f = fst g" using Cons.prems(1) gs by simp
  let ?a = "concat (map plan_field fs)" and ?b = "concat (map plan_field gs')"
  have eq: "be_bytes 8 (length (snd f)) @ snd f @ ?a = be_bytes 8 (length (snd g)) @ snd g @ ?b"
    using Cons.prems(2) gs same by (simp add: plan_field_def [of f] plan_field_def [of g])
  then have "be_bytes 8 (length (snd f)) = be_bytes 8 (length (snd g))" by (metis append_eq_append_conv be_bytes_length)
  moreover have "length (snd f) < 256 ^ 8" "length (snd g) < 256 ^ 8" using Cons.prems(3,4) gs by simp_all
  ultimately have "length (snd f) = length (snd g)" using be_bytes_inj by blast
  with eq have "snd f = snd g" "?a = ?b" by simp_all
  with Cons.IH [of gs'] Cons.prems gs same show ?case by (simp add: prod_eq_iff)
qed simp

lemma stat_fields_inj: "stat_plan_fields p a = stat_plan_fields p b \<Longrightarrow> a = b"
  by (cases a, cases b) (simp add: stat_plan_fields_def str_int_inj)

lemma plan_field_labels: "map fst (plan_fields w args bst s d c) = map fst (plan_fields w args' bst' s' d' c')"
  by (simp add: plan_fields_def stat_plan_fields_def)

text \<open>
  C17. A plan hash binds everything the plan depends on: two plans with the same hash have the same paths, the same source
  and destination texts, the same planned content and the same owners, modes and identities of the files and of the backup
  directory, or a collision of SHA-256 is at hand.  The encoding of the fields is unambiguous below the 64-bit lengths.
\<close>

theorem plan_sha256_binds:
  assumes same: "plan_sha256 w args bst source destination content = plan_sha256 w args' bst' source' destination' content'"
    and codec: "\<And>t. rw_decode w (rw_encode w t) = Some t"
    and sizes: "list_all (\<lambda>f. length (snd f) < 256 ^ 8) (plan_fields w args bst source destination content)"
      "list_all (\<lambda>f. length (snd f) < 256 ^ 8) (plan_fields w args' bst' source' destination' content')"
  shows "path_text (ra_source args) = path_text (ra_source args') \<and> path_text (ra_destination args) = path_text (ra_destination args')
      \<and> path_text (ra_backup args) = path_text (ra_backup args') \<and> oe_text source = oe_text source'
      \<and> oe_text destination = oe_text destination' \<and> content = content' \<and> oe_stat source = oe_stat source'
      \<and> oe_stat destination = oe_stat destination' \<and> bst = bst'
    \<or> (\<exists>x y. x \<noteq> y \<and> rw_sha256 w x = rw_sha256 w y)"
proof -
  let ?f = "plan_fields w args bst source destination content" and ?g = "plan_fields w args' bst' source' destination' content'"
  have inj: "rw_encode w a = rw_encode w b \<longleftrightarrow> a = b" for a b using codec by (metis option.inject)
  show ?thesis
  proof (cases "concat (map plan_field ?f) = concat (map plan_field ?g)")
    case True
    have "?f = ?g" by (rule plan_fields_inj [OF plan_field_labels True sizes])
    moreover have "length (stat_plan_fields p a) = length (stat_plan_fields p b)" for p a b by (simp add: stat_plan_fields_def)
    ultimately show ?thesis unfolding plan_fields_def by (auto simp: inj dest!: stat_fields_inj)
  next
    case False
    with same show ?thesis unfolding plan_sha256_def by (metis append_same_eq same_append_eq)
  qed
qed

subsection \<open>The wait for the lock ends\<close>

lemma acquire_ends:
  assumes "lw_clock lw 0 + LOCK_TIMEOUT \<le> lw_clock lw (Suc k)"
  shows "\<exists>r. acquire_exclusive_lock lw = Some r"
proof -
  have "\<exists>r. lock_tries lw (lw_clock lw 0 + LOCK_TIMEOUT) j = Some r" if "j \<le> k" for j
    using that
  proof (induction "k - j" arbitrary: j)
    case 0
    with assms show ?case by (subst lock_tries.simps) auto
  next
    case (Suc n)
    then have "\<exists>r. lock_tries lw (lw_clock lw 0 + LOCK_TIMEOUT) (j + 1) = Some r" by simp
    then show ?case by (subst lock_tries.simps) auto
  qed
  then show ?thesis by (simp add: acquire_exclusive_lock_def)
qed

subsection \<open>A small machine\<close>

text \<open>Root directory, the two files in it, and the backup directory; no call fails.\<close>

definition demo_node :: "file_kind \<Rightarrow> int \<Rightarrow> file_node" where
  "demo_node kind mode = \<lparr>fn_kind = kind, fn_dev = 1, fn_uid = 0, fn_gid = 0, fn_mode = mode\<rparr>"

definition demo_machine :: env_fs where
  "demo_machine = \<lparr>ef_nodes = [demo_node (Directory [(''src.env'', 1), (''dst.env'', 2), (''backup'', 3)]) 493,
       demo_node (Regular demo_source) 384, demo_node (Regular demo_destination) 384, demo_node (Directory []) 448],
     ef_euid = 0, ef_egid = 0, ef_faults = []\<rparr>"

definition demo_codec :: reconcile_world where
  "demo_codec = \<lparr>rw_sha256 = (\<lambda>_. replicate 64 CHR ''0''), rw_decode = Some, rw_encode = (\<lambda>t. t), rw_stamp = ''1'', rw_token = ''2'',
     rw_lock = Inr (), rw_others = (\<lambda>fs. fs)\<rparr>"

definition demo_request :: recon_args where
  "demo_request = \<lparr>ra_source = \<lparr>ep_absolute = True, ep_parts = [''src.env'']\<rparr>, ra_destination = \<lparr>ep_absolute = True, ep_parts = [''dst.env'']\<rparr>,
     ra_backup = \<lparr>ep_absolute = True, ep_parts = [''backup'']\<rparr>, ra_apply = True, ra_expected = Some (replicate 64 CHR ''0''),
     ra_override = None, ra_require_root = True\<rparr>"

definition demo_stat :: "int \<Rightarrow> int \<Rightarrow> file_stat" where
  "demo_stat ino mode = \<lparr>st_dev = 1, st_ino = ino, st_uid = 0, st_gid = 0, st_mode = mode\<rparr>"

definition demo_opened :: "string \<Rightarrow> int \<Rightarrow> opened_env" where
  "demo_opened content ino = \<lparr>oe_raw = content, oe_text = content, oe_stat = demo_stat ino 384\<rparr>"

definition demo_plan :: recon_plan where
  "demo_plan = \<lparr>rp_content = ''A=1'', rp_hash = replicate 64 CHR ''0'', rp_changed = []\<rparr>"

theorem plan_sha256_binds_witness:
  "plan_sha256 demo_codec demo_request (demo_stat 3 448) (demo_opened ''A=1'' 1) (demo_opened ''B=1'' 2) ''A=1''
     = plan_sha256 demo_codec demo_request (demo_stat 3 448) (demo_opened ''A=1'' 1) (demo_opened ''B=1'' 2) ''A=2''
   \<and> (\<exists>x y. x \<noteq> y \<and> rw_sha256 demo_codec x = rw_sha256 demo_codec y)"
proof -
  let ?plan = "plan_sha256 demo_codec demo_request (demo_stat 3 448) (demo_opened ''A=1'' 1) (demo_opened ''B=1'' 2)"
  have same: "?plan ''A=1'' = ?plan ''A=2''" by (simp add: plan_sha256_def demo_codec_def)
  have small: "list_all (\<lambda>f. length (snd f) < 256 ^ 8)
      (plan_fields demo_codec demo_request (demo_stat 3 448) (demo_opened ''A=1'' 1) (demo_opened ''B=1'' 2) c)"
    if "length c < 4" for c
    using that by (simp add: plan_fields_def stat_plan_fields_def demo_codec_def demo_request_def demo_stat_def demo_opened_def
        path_text_def str_int_def digits_nat.simps)
  have "rw_decode demo_codec (rw_encode demo_codec t) = Some t" for t by (simp add: demo_codec_def)
  from plan_sha256_binds [OF same this small small] same show ?thesis by simp
qed

theorem apply_locked_safe_witness:
  "\<exists>r fs'. apply_locked demo_codec demo_request 0 0 3 (demo_opened demo_source 1) (demo_opened demo_destination 2) demo_plan
         (replicate 64 CHR ''0'') demo_machine = (r, fs')
     \<and> node_at fs' 1 = Some (demo_node (Regular demo_source) 384) \<and> node_at fs' 2 = Some (demo_node (Regular demo_destination) 384)
     \<and> (entry fs' 0 ''dst.env'' = Some 2 \<and> isl r \<or> replaced demo_codec demo_request (replicate 64 CHR ''0'') demo_machine 0 3 fs')"
proof -
  obtain r fs' where run: "apply_locked demo_codec demo_request 0 0 3 (demo_opened demo_source 1) (demo_opened demo_destination 2)
      demo_plan (replicate 64 CHR ''0'') demo_machine = (r, fs')" by fastforce
  have nodes: "node_at demo_machine 1 = Some (demo_node (Regular demo_source) 384)"
    "node_at demo_machine 2 = Some (demo_node (Regular demo_destination) 384)" "entry demo_machine 0 ''dst.env'' = Some 2"
    by (simp_all add: demo_machine_def node_at_def entry_def entries_of_def demo_node_def dict_get_def)
  moreover have "path_name (ra_destination demo_request) = ''dst.env''" by (simp add: demo_request_def path_name_def)
  ultimately show ?thesis using apply_locked_safe [OF run] run by (fastforce simp: demo_node_def is_dir_kind_def)
qed

end
