(* ===== verification/Spec2Isabelle.thy ===== *)
theory Spec2Isabelle
  imports Release_Pipeline Agent_Preflight Agent_Handoff Edge_Redact Hybrid_Ranking Watch_Stale Watch_Cycle Watch_Safety
    Env_Safety
begin

text \<open>
  A verification library for the Python tooling of the commonThing repository, the part of it that decides:
  whether a release is live, whether production is healthy, what the login and mail settings of the server become,
  whether an agent's task and handoff may proceed, whether edge references are sound, and how search candidates rank.

  \<^bold>\<open>The programs and how they interact.\<close>  After a deployment \<open>verify_public_release_commit.py\<close> polls the two public
  endpoints until the expected commit is served and stores a receipt.  \<open>classify_production_live_state.py\<close> reads the
  receipt, checks it again, asks git about ancestry and landing times, and writes one of the states \<open>current\<close>,
  \<open>pending\<close>, \<open>superseded\<close> or an alerting one.  \<open>production_alert_issue.py\<close> reads that classification and keeps at most
  one GitHub issue open for it.  Independently of GitHub, \<open>independent_production_watch.py\<close> runs from cron on another
  machine: it reads the endpoints and main, compares them with the state of its own directory, and records incidents,
  transitions and an append-only journal that survive crashes and failing disks.  \<open>reconcile_public_login_smtp_env.py\<close>
  brings the approved settings of a source file into the environment file of the server, with a dry run whose plan hash
  the run with \<open>--apply\<close> must repeat.  The agent tools share
  \<open>json_contract.py\<close>: \<open>check_agent_preflight.py\<close> looks at changed files, \<open>check_non_ideal_task.py\<close> at the task contract,
  \<open>validate_handoff.py\<close> at the handoff against the task.  \<open>audit_domain_edge_references.py\<close> and
  \<open>hybrid_ranking_core.py\<close> stand alone.

  \<^bold>\<open>Theories and sources\<close> (all sources are under \<open>src/scripts/\<close>).
  \<^item> \<open>Py_Base\<close>: the prelude, Python strings, dictionaries (locale \<open>dict_ops\<close>), JSON values with Python's equality,
    error results and the state monad with errors; \<open>Py_Float\<close>: IEEE doubles; \<open>Repo_Paths\<close>: path segments and the
    locale \<open>path_scope\<close>, the contract of the three scope tests.
  \<^item> \<open>Release_Verify\<close>, \<open>Release_Loop\<close>: \<open>ops/verify_public_release_commit.py\<close>.  The records are its dataclasses;
    \<open>verify_main\<close> is \<open>main\<close> over a world of answers and clock readings.
  \<^item> \<open>Live_State\<close>: \<open>ops/classify_production_live_state.py\<close>, with the locale \<open>reporter\<close> for the constructor of a
    classification.
  \<^item> \<open>Alert_Issue\<close>: \<open>ops/production_alert_issue.py\<close>.  The client protocol is the record \<open>issue_client\<close>, its laws the
    locale \<open>issue_board\<close>, interpreted on the in-memory client of the tests; \<open>gh_client\<close> is the GitHub client.
  \<^item> \<open>Release_Pipeline\<close>: what each of the three release tools may rely on in the file the previous one wrote.
  \<^item> \<open>Watch_Eval\<close>: reading and evaluating of \<open>ops/independent_production_watch.py\<close>; \<open>Watch_Stale\<close> and \<open>Watch_Cycle\<close>
    prove what polls report; \<open>Watch_Journal\<close>: snapshots, outbox and journal over a directory with a fault schedule;
    \<open>Watch_Record\<close>: the steps of \<open>record\<close> in their order; \<open>Watch_Main\<close>: admission, the cycle and \<open>main\<close>;
    \<open>Watch_Durable\<close>: the locale \<open>fs_invariant\<close> of the properties that no step breaks before the snapshots are
    written; \<open>Watch_Safety\<close>: the safety theorems.
  \<^item> \<open>Env_Text\<close> and \<open>Env_Reconcile\<close>: \<open>ops/reconcile_public_login_smtp_env.py\<close>, its text part and its file part over a
    table of files with a fault schedule; \<open>reconcile_env\<close> is \<open>reconcile\<close>, with everything under the lock in
    \<open>apply_locked\<close>.  \<open>Env_Safety\<close>: what the steps may change, and the safety theorems.
  \<^item> \<open>Json_Contract\<close>: \<open>agent/json_contract.py\<close>; \<open>Agent_Preflight\<close>: \<open>agent/check_agent_preflight.py\<close>; \<open>Agent_Task\<close>:
    \<open>agent/check_non_ideal_task.py\<close>; \<open>Agent_Handoff\<close>: \<open>agent/validate_handoff.py\<close>.  The two contract schemas are
    transcribed from \<open>src/contracts/agent\<close>.
  \<^item> \<open>Edge_Audit\<close>: \<open>docmeta/audit_domain_edge_references.py\<close>, with \<open>Text_Redact\<close> for its text substitutions (locale
    \<open>redacting\<close>) and \<open>Edge_Redact\<close> for what they keep out of the log; \<open>Hybrid_Ranking\<close>: \<open>search/hybrid_ranking_core.py\<close>.

  Definitions carry the names of the functions they model, without a leading underscore, with a prefix where two
  modules use the same name.  A step of a long function is a definition of its own whose lines the manifest names.

  \<^bold>\<open>What is shown.\<close>
  \<^item> Release: a run passes exactly on the release conditions; the polling loop ends; \<open>current\<close>, \<open>pending\<close> and
    \<open>superseded\<close> are reported only with their evidence; alerts are opened once, updated on change and closed only by
    \<open>current\<close>; below, that the receipt of a successful run is classified \<open>current\<close> and that every classification is
    accepted by the alert tool.
  \<^item> Watch: the healthy report and the transitions are characterised exactly; a component that stays behind is
    reported stale however often main moves; a cycle reports every incident its readings confirmed, also when it is
    cut off; an append writes the whole batch or nothing and never touches complete lines; no queued transition is
    lost under any fault schedule; a corrupt state is never overwritten nor reported as health.
  \<^item> Settings: the reconciled text has the validated values and keeps every other one, and is a fixed point; whatever
    calls fail, the destination is its old file or the complete new one with a backup of the old bytes; nothing is
    written without the expected plan, and the plan hash binds all inputs up to collisions of SHA-256.
  \<^item> Agents: the validator refines a declarative meaning of the schema keywords; what the preflight, the task guard
    and the handoff validator accept satisfies their rules; scope tests are the prefix order on segments.
  \<^item> Audit: bounded findings are the head of the sorted list of all; the readiness signal is exact; no ambient database
    variable reaches psql, and no part of the database URL reaches the log of a failing one, unless it collides with the
    inserted texts.  Ranking: lexical and hybrid ranking are the specified ones, generations are never mixed, and
    documents respect the privacy boundary.

  \<^bold>\<open>Totality, bounds and fuel.\<close>  \<open>verify_loop\<close> is a \<open>partial_function\<close>, since the clock may stand still; with an
  advancing clock \<open>verify_main_ends\<close> gives the number of attempts.  \<open>lock_tries\<close>, the wait for
  another process, is one too, and \<open>acquire_ends\<close> shows that it ends once the clock has passed the timeout.
  \<open>validate_instance\<close> takes the recursion depth as an argument, since references may be cyclic; a verdict does not change with more depth.  The comment paging loop takes
  fuel, and \<open>gh_comments_complete\<close> shows that one unit per page of a finite list is enough.  The scans of the journal
  are total functions whose measure is the text left.  Everything else is total by structural recursion.

  \<^bold>\<open>Parameters.\<close>  JSON syntax, SHA-256, regular expressions of schemas, ISO timestamps, Unicode normalisation, git,
  psql, HTTP answers, files and the order of system-call failures are arguments of the definitions; what a theorem
  needs of them is a hypothesis of its statement.

  \<^bold>\<open>Abstractions.\<close>  Characters are code points up to U+00FF.  Printing, argument parsing by argparse, signal handlers,
  umask and the lock file of the watch are not part of a result; open descriptors are not counted; an interrupting
  signal is a fault a system call raises.  A rename is atomic.  The incident lists of the watch assume issues with a textual code, as \<open>evaluate\<close> builds them.

  \<^bold>\<open>Not modelled.\<close>  The Rust API and the web application, which are written in other languages; the platform
  experiments, the staging cell and the performance evidence, which orchestrate clusters, databases and measurements
  through subprocesses; the agent task runner and review governance, which drive git and GitHub; the generators and
  validators of documents, the search benchmarks, CI guards, shell scripts and tests, each an
  independent wrapper around files and external programs.
\<close>

section \<open>Properties across components\<close>



text \<open>
  C12. The alert tool accepts every classification the classifier writes: the payload of a run with accepted
  arguments passes the loader's schema, state, alert and fingerprint checks unchanged, and the classifier's
  exit code is 1 exactly when the state is one the alert tool opens an issue for.  The digest is only assumed
  to print without white space.
\<close>

theorem classification_accepted:
  assumes run: "classify_main git sha256 fromiso now e m grace receipt_file schaubild_file = (code, Some payload)"
    and sha: "\<forall>x. no_space (sha256 x)"
  shows "load_classification sha256 (Some (Inr (JDict payload))) = payload
    \<and> (code = 1 \<longleftrightarrow> (\<exists>s \<in> set ALERTING_STATES. jget payload ''state'' = JStr s)) \<and> code \<in> {0, 1}"
proof -
  from classify_main_payload [OF run] obtain c where c: "payload = classification_payload sha256 c"
    "classification_wf c" "code = (if cl_alert c then 1 else 0)" by blast
  have "load_classification sha256 (Some (Inr (JDict payload))) = payload"
    unfolding c(1) by (rule load_classification_payload [OF c(2)]) (use sha in blast)
  moreover have "cl_alert c \<longleftrightarrow> cl_state c \<in> set ALERTING_STATES" using c(2) by (simp add: classification_wf_def)
  ultimately show ?thesis using c by (auto simp: payload_get)
qed

theorem classification_accepted_witness:
  "\<exists>payload. classify_main (\<lambda>_. (1, [])) (\<lambda>_. ''h'') (\<lambda>_. None) 0 demo_commit demo_commit 60 (Inl ''gone'') None = (1, Some payload)
     \<and> load_classification (\<lambda>_. ''h'') (Some (Inr (JDict payload))) = payload"
proof -
  have run: "classify_main (\<lambda>_. (1, [])) (\<lambda>_. ''h'') (\<lambda>_. None) 0 demo_commit demo_commit 60 (Inl ''gone'') None =
    (1, Some (classification_payload (\<lambda>_. ''h'') (cl_result demo_commit demo_commit None None ''monitor_failure'' None
       ''production live receipt is missing or unreadable'' [])))"
    by code_simp
  have "\<forall>x :: string. no_space ((\<lambda>_. ''h'') x)" by (simp add: no_space_def is_ws_def)
  from classification_accepted [OF run this] run show ?thesis by blast
qed

end
